(* ===== verification/Go_Prelude.thy ===== *)
theory Go_Prelude
  imports
    Main
    "HOL-Library.Word"
    "HOL-Library.AList"
    "HOL-Library.Multiset"
    "HOL-Library.Signed_Division"
    "HOL-Library.Product_Lexorder"
    "HOL-Library.List_Lexorder"
    "HOL-Library.Char_ord"
begin

text \<open>
  The part of Go that the components of BlazeDAG share: maps with an explicit
  iteration order, slices of slices kept in maps, \<open>sort.Slice\<close>, unsigned
  64-bit arithmetic and the truncated remainder, run-time panics as values.

  \<^item> A Go map is an association list with distinct keys (\<open>gwf\<close>).  The order in
    which \<open>range\<close> visits the keys is unspecified in Go, so every operation that
    ranges over a map takes the visiting order as an argument \<open>ord\<close>; the only
    thing known about it is \<open>range_order ord m\<close>.
  \<^item> \<open>sort.Slice\<close> is not stable.  \<open>sort_slice\<close> is a stable insertion sort, and
    since the input order comes from an arbitrary \<open>ord\<close>, every result that
    \<open>sort.Slice\<close> may return is the result for some \<open>ord\<close>
    (\<open>sort_slice_id\<close>: a sorted list is its own result).
  \<^item> A panic or a self-deadlock of a mutex ends the goroutine: it is the value
    \<open>Inl\<close> of the sum type.
\<close>

section \<open>Proof collections\<close>

named_theorems gomap_simps \<open>rewrite rules for Go maps\<close>
named_theorems gomap_intros \<open>well-formedness rules for Go maps\<close>
named_theorems range_simps \<open>what a range over a Go map sees\<close>

section \<open>Base types\<close>

type_synonym byte = "8 word"
type_synonym u64 = "64 word"
type_synonym hash = "8 word list"

datatype go_panic =
    IndexOutOfRange
  | SliceBoundsOutOfRange
  | NilDereference
  | DivideByZero
  | NilMapWrite
  | TypeAssertionFailed
  | Deadlock
  | NotANumber
  | ClosedChannel
  | DuplicatePattern

section \<open>Go maps\<close>

type_synonym ('k, 'v) gomap = "('k \<times> 'v) list"

definition gget :: "('k, 'v) gomap \<Rightarrow> 'k \<Rightarrow> 'v option" where
  "gget m k = map_of m k"

definition gput :: "'k \<Rightarrow> 'v \<Rightarrow> ('k, 'v) gomap \<Rightarrow> ('k, 'v) gomap" where
  "gput k v m = AList.update k v m"

definition gdel :: "'k \<Rightarrow> ('k, 'v) gomap \<Rightarrow> ('k, 'v) gomap" where
  "gdel k m = AList.delete k m"

definition glen :: "('k, 'v) gomap \<Rightarrow> nat" where
  "glen m = length m"

definition gkeys :: "('k, 'v) gomap \<Rightarrow> 'k set" where
  "gkeys m = fst ` set m"

definition ghas :: "('k, 'v) gomap \<Rightarrow> 'k \<Rightarrow> bool" where
  "ghas m k = (gget m k \<noteq> None)"

definition gwf :: "('k, 'v) gomap \<Rightarrow> bool" where
  "gwf m = distinct (map fst m)"

text \<open>\<open>m[k]\<close> for a map of slices: the zero value of a slice is nil, which
  behaves as the empty slice under \<open>len\<close>, \<open>range\<close> and \<open>append\<close>.\<close>

definition slice_at :: "('k, 'a list) gomap \<Rightarrow> 'k \<Rightarrow> 'a list" where
  "slice_at m k = (case gget m k of None \<Rightarrow> [] | Some xs \<Rightarrow> xs)"

text \<open>\<open>m[k] = append(m[k], x)\<close>.\<close>

definition gappend :: "'k \<Rightarrow> 'a \<Rightarrow> ('k, 'a list) gomap \<Rightarrow> ('k, 'a list) gomap" where
  "gappend k x m = gput k (slice_at m k @ [x]) m"

lemma gwf_Nil [simp, gomap_intros]: "gwf []"
  by (simp add: gwf_def)

lemma gget_Nil [simp]: "gget [] k = None"
  by (simp add: gget_def)

lemma glen_Nil [simp]: "glen [] = 0"
  by (simp add: glen_def)

lemma gkeys_Nil [simp]: "gkeys [] = {}"
  by (simp add: gkeys_def)

lemma slice_at_Nil [simp]: "slice_at [] k = []"
  by (simp add: slice_at_def)

lemma gget_gput [simp, gomap_simps]:
  "gget (gput k v m) k' = (if k' = k then Some v else gget m k')"
  by (simp add: gget_def gput_def update_conv')

lemma gget_gdel [simp, gomap_simps]:
  "gget (gdel k m) k' = (if k' = k then None else gget m k')"
  by (simp add: gget_def gdel_def delete_conv')

lemma gwf_gput [simp, gomap_intros]: "gwf m \<Longrightarrow> gwf (gput k v m)"
  by (simp add: gwf_def gput_def distinct_update)

lemma gwf_gdel [simp, gomap_intros]: "gwf m \<Longrightarrow> gwf (gdel k m)"
  by (simp add: gwf_def gdel_def distinct_delete)

lemma gkeys_iff: "k \<in> gkeys m \<longleftrightarrow> gget m k \<noteq> None"
  by (force simp: gkeys_def gget_def map_of_eq_None_iff)

lemma ghas_gkeys: "ghas m k \<longleftrightarrow> k \<in> gkeys m"
  by (simp add: ghas_def gkeys_iff)

lemma gkeys_gput [simp, gomap_simps]: "gkeys (gput k v m) = insert k (gkeys m)"
  by (auto simp: gkeys_iff split: if_splits)

lemma gkeys_gdel [simp, gomap_simps]: "gkeys (gdel k m) = gkeys m - {k}"
  by (auto simp: gkeys_iff split: if_splits)

lemma finite_gkeys [simp]: "finite (gkeys m)"
  by (simp add: gkeys_def)

lemma glen_card: "gwf m \<Longrightarrow> glen m = card (gkeys m)"
  by (simp add: glen_def gwf_def gkeys_def distinct_card flip: set_map)

lemma glen_gput: "gwf m \<Longrightarrow> glen (gput k v m) = (if k \<in> gkeys m then glen m else Suc (glen m))"
  by (simp add: glen_card insert_absorb)

lemma glen_gdel: "gwf m \<Longrightarrow> glen (gdel k m) = (if k \<in> gkeys m then glen m - 1 else glen m)"
  by (simp add: glen_card)

lemma glen_gdel_le: "glen (gdel k m) \<le> glen m"
  by (simp add: glen_def gdel_def length_delete_le)

lemma slice_at_gput [simp, gomap_simps]:
  "slice_at (gput k xs m) k' = (if k' = k then xs else slice_at m k')"
  by (simp add: slice_at_def)

lemma slice_at_gdel [simp, gomap_simps]:
  "slice_at (gdel k m) k' = (if k' = k then [] else slice_at m k')"
  by (simp add: slice_at_def)

lemma slice_at_gappend [simp, gomap_simps]:
  "slice_at (gappend k x m) k' = (if k' = k then slice_at m k @ [x] else slice_at m k')"
  by (simp add: gappend_def)

lemma gwf_gappend [simp, gomap_intros]: "gwf m \<Longrightarrow> gwf (gappend k x m)"
  by (simp add: gappend_def)

lemma gkeys_gappend [simp, gomap_simps]: "gkeys (gappend k x m) = insert k (gkeys m)"
  by (simp add: gappend_def)

lemma gget_set: "gwf m \<Longrightarrow> gget m k = Some v \<longleftrightarrow> (k, v) \<in> set m"
  by (simp add: gget_def gwf_def)

lemma gget_snd: "gget m k = Some v \<Longrightarrow> v \<in> snd ` set m"
  unfolding gget_def by (drule map_of_SomeD) force

subsection \<open>Deleting many keys\<close>

text \<open>\<open>for _, k := range ks { delete(m, k) }\<close>.\<close>

definition gdel_all :: "'k list \<Rightarrow> ('k, 'v) gomap \<Rightarrow> ('k, 'v) gomap" where
  "gdel_all ks m = fold gdel ks m"

lemma gdel_all_simps [simp]:
  "gdel_all [] m = m"
  "gdel_all (k # ks) m = gdel_all ks (gdel k m)"
  by (simp_all add: gdel_all_def)

lemma gget_gdel_all [simp, gomap_simps]:
  "gget (gdel_all ks m) k = (if k \<in> set ks then None else gget m k)"
  by (induction ks arbitrary: m) auto

lemma gwf_gdel_all [simp, gomap_intros]: "gwf m \<Longrightarrow> gwf (gdel_all ks m)"
  by (induction ks arbitrary: m) auto

lemma gkeys_gdel_all [simp, gomap_simps]: "gkeys (gdel_all ks m) = gkeys m - set ks"
  by (auto simp: gkeys_iff split: if_splits)

lemma glen_gdel_all:
  assumes "gwf m" "distinct ks" "set ks \<subseteq> gkeys m"
  shows "glen (gdel_all ks m) = glen m - length ks"
  using assms by (simp add: glen_card card_Diff_subset distinct_card)

lemma glen_gdel_all_le: "glen (gdel_all ks m) \<le> glen m"
  by (induction ks arbitrary: m) (auto intro: order_trans[OF _ glen_gdel_le])

lemma gget_gdel_all_Some: "gget (gdel_all ks m) k = Some v \<Longrightarrow> gget m k = Some v"
  by (simp split: if_splits)

subsection \<open>Updating every value, and filtering\<close>

text \<open>\<open>for k, v := range m { m[k] = f(v) }\<close>, and the deletion of the keys that fail a test
  while ranging, which Go allows and which visits every remaining key.\<close>

definition gmap_vals :: "('v \<Rightarrow> 'w) \<Rightarrow> ('k, 'v) gomap \<Rightarrow> ('k, 'w) gomap" where
  "gmap_vals f m = map (\<lambda>(k, v). (k, f v)) m"

definition gfilter :: "('k \<Rightarrow> 'v \<Rightarrow> bool) \<Rightarrow> ('k, 'v) gomap \<Rightarrow> ('k, 'v) gomap" where
  "gfilter P m = filter (\<lambda>(k, v). P k v) m"

lemma gget_gmap_vals [simp, gomap_simps]: "gget (gmap_vals f m) k = map_option f (gget m k)"
  by (simp add: gget_def gmap_vals_def map_of_map)

lemma map_fst_gmap_vals [simp]: "map fst (gmap_vals f m) = map fst m"
  by (simp add: gmap_vals_def comp_def case_prod_beta)

lemma gwf_gmap_vals [simp, gomap_intros]: "gwf (gmap_vals f m) = gwf m"
  by (simp add: gwf_def)

lemma gkeys_gmap_vals [simp, gomap_simps]: "gkeys (gmap_vals f m) = gkeys m"
  by (simp add: gkeys_def flip: set_map)

lemma glen_gmap_vals [simp, gomap_simps]: "glen (gmap_vals f m) = glen m"
  by (simp add: glen_def gmap_vals_def)

lemma slice_at_gmap_vals [gomap_simps]:
  "f [] = [] \<Longrightarrow> slice_at (gmap_vals f m) k = f (slice_at m k)"
  by (simp add: slice_at_def split: option.split)

lemma gwf_gfilter [simp, gomap_intros]: "gwf m \<Longrightarrow> gwf (gfilter P m)"
  unfolding gwf_def gfilter_def by (rule distinct_map_filter)

lemma gget_gfilter [gomap_simps]:
  assumes "gwf m"
  shows "gget (gfilter P m) k = (case gget m k of None \<Rightarrow> None | Some v \<Rightarrow> if P k v then Some v else None)"
proof -
  have "(k, v) \<in> set (gfilter P m) \<longleftrightarrow> (k, v) \<in> set m \<and> P k v" for v
    by (auto simp: gfilter_def)
  then have "gget (gfilter P m) k = Some v \<longleftrightarrow> gget m k = Some v \<and> P k v" for v
    using assms by (simp add: gget_set)
  then show ?thesis
    by (metis (mono_tags, lifting) not_None_eq option.case_eq_if option.sel)
qed

lemma glen_gfilter_le: "glen (gfilter P m) \<le> glen m"
  by (simp add: glen_def gfilter_def)

section \<open>Ranging over a map\<close>

definition range_order :: "'k list \<Rightarrow> ('k, 'v) gomap \<Rightarrow> bool" where
  "range_order ord m = (distinct ord \<and> set ord = gkeys m)"

definition range_items :: "'k list \<Rightarrow> ('k, 'v) gomap \<Rightarrow> ('k \<times> 'v) list" where
  "range_items ord m = List.map_filter (\<lambda>k. map_option (Pair k) (gget m k)) ord"

definition range_vals :: "'k list \<Rightarrow> ('k, 'v) gomap \<Rightarrow> 'v list" where
  "range_vals ord m = List.map_filter (gget m) ord"

lemma case_sum_None_Some [simp]: "(case s of Inl _ \<Rightarrow> None | Inr x \<Rightarrow> Some x) = Some y \<longleftrightarrow> s = Inr y"
  by (cases s) auto

lemma map_sum_eq_Inr: "map_sum f g s = Inr y \<longleftrightarrow> (\<exists>x. s = Inr x \<and> y = g x)"
  by (cases s) auto

lemma Inr_eq_map_sum: "Inr y = map_sum f g s \<longleftrightarrow> (\<exists>x. s = Inr x \<and> y = g x)"
  by (cases s) auto

lemma find_SomeD: "find P xs = Some x \<Longrightarrow> P x \<and> x \<in> set xs"
  by (induction xs) (auto split: if_splits)

lemma in_set_map_filter: "y \<in> set (List.map_filter f xs) \<longleftrightarrow> (\<exists>x \<in> set xs. f x = Some y)"
  by (induction xs) (auto simp: map_filter_simps split: option.split)

lemma length_map_filter_le: "length (List.map_filter f xs) \<le> length xs"
  by (induction xs) (auto simp: map_filter_simps split: option.split)

lemma range_items_simps [simp]:
  "range_items [] m = []"
  "range_items (k # ord) m =
     (case gget m k of None \<Rightarrow> range_items ord m | Some v \<Rightarrow> (k, v) # range_items ord m)"
  by (simp_all add: range_items_def map_filter_simps split: option.split)

lemma range_vals_simps [simp]:
  "range_vals [] m = []"
  "range_vals (k # ord) m =
     (case gget m k of None \<Rightarrow> range_vals ord m | Some v \<Rightarrow> v # range_vals ord m)"
  by (simp_all add: range_vals_def map_filter_simps split: option.split)

lemma range_vals_items: "range_vals ord m = map snd (range_items ord m)"
  by (induction ord) (auto split: option.split)

lemma set_range_items: "set (range_items ord m) = {(k, v). k \<in> set ord \<and> gget m k = Some v}"
  by (induction ord) (auto split: option.split)

lemma set_range_vals: "set (range_vals ord m) = {v. \<exists>k \<in> set ord. gget m k = Some v}"
  by (induction ord) (auto split: option.split)

lemma map_fst_range_items:
  "set ord \<subseteq> gkeys m \<Longrightarrow> map fst (range_items ord m) = ord"
  by (induction ord) (auto simp: gkeys_iff split: option.split)

lemma length_range_vals_le: "length (range_vals ord m) \<le> length ord"
  by (induction ord) (auto split: option.split)

lemma range_order_map_fst [range_simps]: "gwf m \<Longrightarrow> range_order (map fst m) m"
  by (simp add: range_order_def gwf_def gkeys_def)

lemma mset_range_items:
  assumes "gwf m" "range_order ord m"
  shows "mset (range_items ord m) = mset m"
proof -
  have keys: "map fst (range_items ord m) = ord"
    using assms by (intro map_fst_range_items) (simp add: range_order_def)
  have "distinct (range_items ord m)" "distinct m"
    using assms keys unfolding range_order_def gwf_def by (metis distinct_map)+
  moreover have "set (range_items ord m) = set m"
    using assms by (auto simp: set_range_items range_order_def gget_set gkeys_def) force
  ultimately show ?thesis
    by (simp add: set_eq_iff_mset_eq_distinct)
qed

lemma set_range_vals_order [range_simps]:
  "gwf m \<Longrightarrow> range_order ord m \<Longrightarrow> set (range_vals ord m) = snd ` set m"
  by (metis mset_range_items range_vals_items set_map set_mset_mset)

lemma length_range_vals [range_simps]:
  "gwf m \<Longrightarrow> range_order ord m \<Longrightarrow> length (range_vals ord m) = glen m"
  by (metis glen_def length_map mset_range_items range_vals_items size_mset)

lemma length_range_items [range_simps]:
  "gwf m \<Longrightarrow> range_order ord m \<Longrightarrow> length (range_items ord m) = glen m"
  by (metis glen_def mset_range_items size_mset)

section \<open>\<open>sort.Slice\<close>\<close>

fun slice_insert :: "('a \<Rightarrow> 'a \<Rightarrow> bool) \<Rightarrow> 'a \<Rightarrow> 'a list \<Rightarrow> 'a list" where
  "slice_insert lt x [] = [x]"
| "slice_insert lt x (y # ys) = (if lt y x then y # slice_insert lt x ys else x # y # ys)"

fun sort_slice :: "('a \<Rightarrow> 'a \<Rightarrow> bool) \<Rightarrow> 'a list \<Rightarrow> 'a list" where
  "sort_slice lt [] = []"
| "sort_slice lt (x # xs) = slice_insert lt x (sort_slice lt xs)"

lemma mset_slice_insert [simp]: "mset (slice_insert lt x ys) = add_mset x (mset ys)"
  by (induction ys) auto

lemma mset_sort_slice [simp]: "mset (sort_slice lt xs) = mset xs"
  by (induction xs) auto

lemma set_sort_slice [simp]: "set (sort_slice lt xs) = set xs"
  by (metis mset_sort_slice set_mset_mset)

lemma length_sort_slice [simp]: "length (sort_slice lt xs) = length xs"
  by (metis mset_sort_slice size_mset)

lemma distinct_sort_slice [simp]: "distinct (sort_slice lt xs) = distinct xs"
  by (metis mset_sort_slice mset_eq_imp_distinct_iff)

text \<open>A comparator written for \<open>sort.Slice\<close> is a strict weak order: irreflexive, and
  its incomparability is transitive.\<close>

definition strict_weak :: "('a \<Rightarrow> 'a \<Rightarrow> bool) \<Rightarrow> bool" where
  "strict_weak lt \<longleftrightarrow> (\<forall>x y. lt x y \<longrightarrow> \<not> lt y x) \<and>
     (\<forall>x y z. \<not> lt y x \<longrightarrow> \<not> lt z y \<longrightarrow> \<not> lt z x)"

lemma strict_weakI:
  "\<lbrakk>\<And>x y. lt x y \<Longrightarrow> \<not> lt y x;
    \<And>x y z. \<not> lt y x \<Longrightarrow> \<not> lt z y \<Longrightarrow> \<not> lt z x\<rbrakk> \<Longrightarrow> strict_weak lt"
  unfolding strict_weak_def by blast

lemma strict_weak_key: "strict_weak (\<lambda>x y. (f x :: 'b :: linorder) < f y)"
  unfolding strict_weak_def by (meson le_less_trans not_le less_asym order_trans)

lemma strict_weak_key_desc: "strict_weak (\<lambda>x y. (f y :: 'b :: linorder) < f x)"
  unfolding strict_weak_def by (meson le_less_trans not_le less_asym order_trans)

definition sorted_by :: "('a \<Rightarrow> 'a \<Rightarrow> bool) \<Rightarrow> 'a list \<Rightarrow> bool" where
  "sorted_by lt = sorted_wrt (\<lambda>x y. \<not> lt y x)"

lemma set_slice_insert [simp]: "set (slice_insert lt x ys) = insert x (set ys)"
  by (metis list.simps(15) mset.simps(2) mset_slice_insert set_mset_mset)

lemma sorted_by_slice_insert:
  assumes "strict_weak lt" "sorted_by lt ys"
  shows "sorted_by lt (slice_insert lt x ys)"
  using assms(2)
proof (induction ys)
  case (Cons y ys)
  have asym: "lt y x \<Longrightarrow> \<not> lt x y" for x y
    using assms(1) unfolding strict_weak_def by blast
  have trans: "\<not> lt y x \<Longrightarrow> \<not> lt z y \<Longrightarrow> \<not> lt z x" for x y z
    using assms(1) unfolding strict_weak_def by blast
  from Cons show ?case
    by (auto simp: sorted_by_def dest: asym) (metis trans)
qed (simp add: sorted_by_def)

lemma sorted_by_sort_slice: "strict_weak lt \<Longrightarrow> sorted_by lt (sort_slice lt xs)"
  by (induction xs) (auto simp: sorted_by_slice_insert, simp add: sorted_by_def)

lemma slice_insert_front:
  "(\<And>y. y \<in> set ys \<Longrightarrow> \<not> lt y x) \<Longrightarrow> slice_insert lt x ys = x # ys"
  by (cases ys) auto

lemma sort_slice_id: "sorted_by lt xs \<Longrightarrow> sort_slice lt xs = xs"
  by (induction xs) (auto simp: sorted_by_def slice_insert_front)

lemma sorted_by_nthD:
  "sorted_by lt xs \<Longrightarrow> i < j \<Longrightarrow> j < length xs \<Longrightarrow> \<not> lt (xs ! j) (xs ! i)"
  by (simp add: sorted_by_def sorted_wrt_iff_nth_less)

lemma sorted_by_take_drop:
  "sorted_by lt xs \<Longrightarrow> x \<in> set (take n xs) \<Longrightarrow> y \<in> set (drop n xs) \<Longrightarrow> \<not> lt y x"
  by (metis append_take_drop_id sorted_by_def sorted_wrt_append)

lemma sorted_by_take: "sorted_by lt xs \<Longrightarrow> sorted_by lt (take n xs)"
  by (simp add: sorted_by_def sorted_wrt_take)

lemma sorted_by_drop: "sorted_by lt xs \<Longrightarrow> sorted_by lt (drop n xs)"
  by (simp add: sorted_by_def sorted_wrt_drop)

section \<open>Integers\<close>

text \<open>The zero \<open>time.Time\<close>, in nanoseconds since 1970.\<close>

definition zero_time :: int where
  "zero_time = - 62135596800000000000"

text \<open>Go's \<open>int\<close> is 64 bits wide here; \<open>int(w)\<close> of an unsigned word reads it in two's
  complement.  \<open>a % b\<close> truncates towards zero and panics for \<open>b = 0\<close>.\<close>

definition go_int :: "u64 \<Rightarrow> int" where
  "go_int w = sint w"

definition go_rem :: "int \<Rightarrow> int \<Rightarrow> go_panic + int" where
  "go_rem a b = (if b = 0 then Inl DivideByZero else Inr (a smod b))"

definition go_index :: "'a list \<Rightarrow> int \<Rightarrow> go_panic + 'a" where
  "go_index xs i = (if 0 \<le> i \<and> i < int (length xs) then Inr (xs ! nat i) else Inl IndexOutOfRange)"

text \<open>\<open>xs[:n]\<close> for a slice whose capacity is its length.\<close>

definition go_prefix :: "'a list \<Rightarrow> int \<Rightarrow> go_panic + 'a list" where
  "go_prefix xs n = (if 0 \<le> n \<and> n \<le> int (length xs) then Inr (take (nat n) xs) else Inl SliceBoundsOutOfRange)"

lemma go_int_small:
  assumes "unat w < 2 ^ 63"
  shows "go_int w = int (unat w)"
proof -
  have "int (unat w) < int (2 ^ 63)"
    using assms by (simp only: of_nat_less_iff)
  then have "uint w < 2 ^ 63"
    by simp
  moreover have "- (2 ^ 63) \<le> uint w"
    by (rule order_trans [OF _ uint_ge_0]) simp
  ultimately have "signed_take_bit 63 (uint w) = uint w"
    by (simp only: signed_take_bit_int_eq_self)
  then show ?thesis
    by (simp add: go_int_def sint_uint)
qed

lemma unat_of_nat_u64: "n < 2 ^ 64 \<Longrightarrow> unat (word_of_nat n :: u64) = n"
  by (simp add: unat_of_nat)

lemma unat_add_u64: "unat (a :: u64) + unat b < 2 ^ 64 \<Longrightarrow> unat (a + b) = unat a + unat b"
  by (simp add: unat_word_ariths(1))

lemma unat_sub_u64: "unat b \<le> unat (a :: u64) \<Longrightarrow> unat (a - b) = unat a - unat b"
  by (simp add: unat_sub word_le_nat_alt)

lemma u64_below_3: "unat (r :: u64) < 3 \<Longrightarrow> r = 0 \<or> r = 1 \<or> r = 2"
  by (simp add: word_unat_eq_iff) linarith

lemma go_rem_nonneg: "0 < n \<Longrightarrow> go_rem (int a) (int n) = Inr (int (a mod n))"
  by (simp add: go_rem_def smod_int_alt_def zmod_int sgn_if)

lemma go_rem_uint: "0 < n \<Longrightarrow> go_rem (uint (w :: u64)) (int n) = Inr (int (unat w mod n))"
  using go_rem_nonneg [of n "unat w"] by simp

lemma go_index_nat: "i < length xs \<Longrightarrow> go_index xs (int i) = Inr (xs ! i)"
  by (simp add: go_index_def)

text \<open>Signed reading of a word, and sums of a balance with a signed amount.\<close>

lemma uint_less_power: "uint w < 2 ^ n \<longleftrightarrow> unat w < 2 ^ n"
proof -
  have "uint w < 2 ^ n \<longleftrightarrow> int (unat w) < int (2 ^ n)"
    by simp
  then show ?thesis
    by (simp only: of_nat_less_iff)
qed

lemma power_less_uint: "2 ^ n < uint w \<longleftrightarrow> 2 ^ n < unat w"
proof -
  have "2 ^ n < uint w \<longleftrightarrow> int (2 ^ n) < int (unat w)"
    by simp
  then show ?thesis
    by (simp only: of_nat_less_iff)
qed

lemma pow_u64: "(2 :: int) ^ 63 = 9223372036854775808" "(2 :: int) ^ 64 = 18446744073709551616"
  by simp_all

lemma sint_u64:
  "sint (w :: u64) = (if uint w < 2 ^ 63 then uint w else uint w - 2 ^ 64)"
proof -
  have r: "0 \<le> uint w" "uint w < 2 ^ 64"
    using uint_bounded [of w] by simp_all
  have "signed_take_bit 63 (uint w - 2 ^ 64) = signed_take_bit 63 (uint w)"
    by (simp add: signed_take_bit_eq_iff_take_bit_eq take_bit_eq_mod)
  moreover have "signed_take_bit 63 (uint w - 2 ^ 64) = uint w - 2 ^ 64" if "\<not> uint w < 2 ^ 63"
    using that r by (intro signed_take_bit_int_eq_self) simp_all
  moreover have "signed_take_bit 63 (uint w) = uint w" if "uint w < 2 ^ 63"
    using that r by (intro signed_take_bit_int_eq_self) linarith+
  ultimately show ?thesis
    by (simp add: sint_uint)
qed

lemma sint_range_u64: "- (2 ^ 63) \<le> sint (w :: u64)" "sint (w :: u64) < 2 ^ 63"
  using sint_ge [of w] sint_lt [of w] by simp_all

lemma uint_add_sint_u64:
  assumes "0 \<le> uint b + sint a" "uint b + sint a < 2 ^ 64"
  shows "uint (b + a :: u64) = uint b + sint a"
proof -
  have "uint (b + a) = (uint b + uint a) mod 2 ^ 64"
    by (simp add: uint_word_ariths)
  also have "\<dots> = (uint b + sint a) mod 2 ^ 64"
    by (simp add: sint_u64 add_diff_eq)
  finally show ?thesis
    using assms by simp
qed

lemma uint_add_sint_u64_neg:
  assumes "uint b + sint a < 0"
  shows "uint (b + a :: u64) = uint b + sint a + 2 ^ 64"
proof -
  have "uint (b + a) = (uint b + uint a) mod 2 ^ 64"
    by (simp add: uint_word_ariths)
  also have "\<dots> = (uint b + sint a + 2 ^ 64) mod 2 ^ 64"
    by (simp add: sint_u64 add_diff_eq)
  also have "\<dots> = uint b + sint a + 2 ^ 64"
    using assms sint_range_u64(1) [of a] uint_ge_0 [of b] unfolding pow_u64 by (intro mod_pos_pos_trivial) linarith+
  finally show ?thesis .
qed

lemma sint_add_u64:
  assumes b: "uint (b :: u64) < 2 ^ 63"
  shows "sint (b + a) < 0 \<longleftrightarrow> uint b + sint a < 0 \<or> 2 ^ 63 \<le> uint b + sint a"
proof -
  have r: "uint b + sint a < 2 ^ 64" "- (2 ^ 63) \<le> uint b + sint a"
    using b uint_ge_0 [of b] sint_range_u64 [of a] unfolding pow_u64 by linarith+
  show ?thesis
  proof (cases "uint b + sint a < 0")
    case True
    then show ?thesis
      using uint_add_sint_u64_neg [OF True] r by (simp add: sint_u64 [of "b + a"])
  next
    case False
    then show ?thesis
      using uint_add_sint_u64 [OF _ r(1)] r by (simp add: sint_u64 [of "b + a"])
  qed
qed

section \<open>Decimal numbers\<close>

definition is_digit :: "char \<Rightarrow> bool" where
  "is_digit c = (48 \<le> (of_char c :: nat) \<and> (of_char c :: nat) \<le> 57)"

definition digits_value :: "string \<Rightarrow> nat" where
  "digits_value s = foldl (\<lambda>n c. 10 * n + (of_char c - 48)) 0 s"

text \<open>\<open>new(big.Int).SetString(s, 10)\<close>.\<close>

definition big_SetString :: "string \<Rightarrow> int option" where
  "big_SetString s =
     (let (neg, ds) = (case s of [] \<Rightarrow> (False, []) | c # cs \<Rightarrow>
            if c = CHR ''-'' then (True, cs) else if c = CHR ''+'' then (False, cs) else (False, s))
      in if ds = [] \<or> \<not> list_all is_digit ds then None
         else Some (if neg then - int (digits_value ds) else int (digits_value ds)))"

end
