(* ===== verification/Chain_Types.thy ===== *)
theory Chain_Types
  imports Go_Prelude
begin

text \<open>
  The data of BlazeDAG, from \<open>internal/types\<close>: blocks, headers, references,
  transactions, votes, proposals, certificates and accounts as records with
  the fields of the Go structs, the enumerations as datatypes, the methods of
  \<open>types.go\<close>, \<open>methods.go\<close> and the \<open>types.State\<close> container of \<open>state.go\<close>.

  \<^item> \<open>time.Time\<close> and \<open>time.Duration\<close> are nanoseconds (\<open>int\<close>).
  \<^item> A \<open>*Block\<close> or \<open>*Transaction\<close> that is shared and later written through is a
    reference (\<open>bref\<close>, \<open>tref\<close>) into a heap \<open>bref \<Rightarrow> block\<close>; a nil \<open>Header\<close> does
    not occur in the model, a nil \<open>Body\<close> is \<open>None\<close>.
  \<^item> \<open>ComputeHash\<close> is SHA-256 of the JSON text of the header.  Its effect on the
    header (nil slices become empty ones) is invisible here because both are
    the empty list; the digest itself is the argument \<open>H\<close> of every definition
    that hashes a block.
\<close>

section \<open>Identifiers and enumerations\<close>

type_synonym address = string
type_synonym bref = nat
type_synonym tref = nat

datatype tx_state = TransactionStatePending | TransactionStateIncluded | TransactionStateCommitted

datatype reference_type = ReferenceTypeStandard | ReferenceTypeVote | ReferenceTypeComplaint

datatype proposal_status =
    ProposalStatusPending | ProposalStatusValidating | ProposalStatusValid
  | ProposalStatusInvalid | ProposalStatusCertified | ProposalStatusCommitted

datatype vote_type = VoteTypeApprove | VoteTypeReject | VoteTypeAbstain

datatype wave_status =
    WaveStatusIdle | WaveStatusProposing | WaveStatusVoting
  | WaveStatusCommitting | WaveStatusFinalized | WaveStatusFailed

datatype message_type =
    MessageTypeBlock | MessageTypeVote | MessageTypeProposal | MessageTypeComplaint
  | MessageTypeSyncRequest | MessageTypeSyncResponse
  | MessageTypeRecoveryRequest | MessageTypeRecoveryResponse

datatype sync_request_type =
    SyncRequestTypeFull | SyncRequestTypeIncremental | SyncRequestTypeFast | SyncRequestTypeCertificate

datatype state_change_type =
    StateChangeTypeAccount | StateChangeTypeStorage | StateChangeTypeCode
  | StateChangeTypeBalance | StateChangeTypeNonce

datatype proof_element_type = ProofElementTypeAccount | ProofElementTypeStorage | ProofElementTypeCode

text \<open>The numbers behind the \<open>iota\<close> constants that the code compares or prints.\<close>

fun tx_state_num :: "tx_state \<Rightarrow> nat" where
  "tx_state_num TransactionStatePending = 0"
| "tx_state_num TransactionStateIncluded = 1"
| "tx_state_num TransactionStateCommitted = 2"

fun wave_status_num :: "wave_status \<Rightarrow> nat" where
  "wave_status_num WaveStatusIdle = 0"
| "wave_status_num WaveStatusProposing = 1"
| "wave_status_num WaveStatusVoting = 2"
| "wave_status_num WaveStatusCommitting = 3"
| "wave_status_num WaveStatusFinalized = 4"
| "wave_status_num WaveStatusFailed = 5"

instantiation tx_state :: linorder
begin

definition less_eq_tx_state :: "tx_state \<Rightarrow> tx_state \<Rightarrow> bool" where
  "less_eq_tx_state a b = (tx_state_num a \<le> tx_state_num b)"

definition less_tx_state :: "tx_state \<Rightarrow> tx_state \<Rightarrow> bool" where
  "less_tx_state a b = (tx_state_num a < tx_state_num b)"

instance
proof
  fix a b :: tx_state
  show "a = b" if "a \<le> b" "b \<le> a"
    using that by (cases a; cases b) (simp_all add: less_eq_tx_state_def)
qed (auto simp: less_eq_tx_state_def less_tx_state_def)

end

section \<open>Structs\<close>

record signature =
  sig_validator :: address
  sig_bytes :: "byte list"
  sig_time :: int

record reference =
  ref_hash :: hash
  ref_round :: u64
  ref_wave :: u64
  ref_type :: reference_type

record transaction =
  tx_nonce :: u64
  tx_from :: address
  tx_to :: address
  tx_value :: u64
  tx_gas_limit :: u64
  tx_gas_price :: u64
  tx_data :: "byte list"
  tx_signature :: signature
  tx_time :: int
  tx_state :: tx_state
  tx_hash :: "hash option"

record event_log =
  log_address :: address
  log_topics :: "hash list"
  log_data :: "byte list"
  log_block_number :: u64
  log_tx_hash :: hash
  log_index :: u64
  log_block_hash :: hash
  log_tx_index :: u64

record receipt =
  rcpt_tx_hash :: hash
  rcpt_block_hash :: hash
  rcpt_block_number :: u64
  rcpt_from :: address
  rcpt_to :: address
  rcpt_contract :: "address option"
  rcpt_gas_used :: u64
  rcpt_status :: u64
  rcpt_logs :: "event_log list"

record block_header =
  hdr_version :: u64
  hdr_time :: int
  hdr_round :: u64
  hdr_wave :: u64
  hdr_height :: u64
  hdr_parent :: hash
  hdr_references :: "reference list"
  hdr_state_root :: hash
  hdr_validator :: address
  hdr_signature :: signature

record block_body =
  body_txs :: "tref list"
  body_receipts :: "receipt list"
  body_events :: "event_log list"

record certificate =
  cert_block_hash :: hash
  cert_signatures :: "byte list list"
  cert_round :: u64
  cert_wave :: u64
  cert_validators :: "byte list list"
  cert_time :: int

record block =
  blk_header :: block_header
  blk_body :: "block_body option"
  blk_certificate :: "certificate option"
  blk_original_hash :: hash

type_synonym block_heap = "bref \<Rightarrow> block"
type_synonym tx_heap = "tref \<Rightarrow> transaction"
type_synonym header_digest = "block_header \<Rightarrow> hash"

record proposal =
  prop_id :: hash
  prop_block_hash :: hash
  prop_round :: u64
  prop_wave :: u64
  prop_block :: bref
  prop_proposer :: address
  prop_time :: int
  prop_status :: proposal_status
  prop_signature :: signature

record vote =
  vote_block_hash :: hash
  vote_round :: u64
  vote_wave :: u64
  vote_validator :: address
  vote_time :: int
  vote_proposal_id :: hash
  vote_block :: "bref option"
  vote_type :: vote_type
  vote_signature :: signature

record complaint =
  cmpl_id :: hash
  cmpl_block_hash :: hash
  cmpl_validator :: address
  cmpl_round :: u64
  cmpl_wave :: u64
  cmpl_time :: int
  cmpl_reason :: string
  cmpl_signature :: signature

record account =
  acc_address :: address
  acc_balance :: u64
  acc_nonce :: u64
  acc_code :: "byte list"
  acc_storage_root :: hash
  acc_code_hash :: hash

record consensus_config =
  cc_wave_timeout :: int
  cc_round_duration :: int
  cc_validator_set :: "address list"
  cc_quorum_size :: int
  cc_listen_addr :: address
  cc_seeds :: "address list"

datatype config_error =
    WaveTimeoutMustBePositive
  | RoundDurationMustBePositive
  | ValidatorSetEmpty
  | InvalidQuorumSize
  | ListenAddressEmpty

section \<open>Methods of the structs\<close>

text \<open>\<open>Block.ComputeHash\<close>.\<close>

definition block_ComputeHash :: "header_digest \<Rightarrow> block \<Rightarrow> hash" where
  "block_ComputeHash H b = H (blk_header b)"

text \<open>\<open>uint64ToBytes\<close>: \<open>binary.BigEndian.PutUint64\<close>.\<close>

definition uint64ToBytes :: "u64 \<Rightarrow> byte list" where
  "uint64ToBytes n = map (\<lambda>i. ucast (drop_bit (8 * i) n)) [7, 6, 5, 4, 3, 2, 1, 0]"

text \<open>\<open>[]byte(s)\<close> and \<open>string(bs)\<close>.\<close>

definition bytes_of :: "string \<Rightarrow> byte list" where
  "bytes_of s = map (\<lambda>c. word_of_nat (of_char c)) s"

definition string_of_bytes :: "byte list \<Rightarrow> string" where
  "string_of_bytes bs = map (\<lambda>b. char_of (unat b)) bs"

text \<open>\<open>Transaction.ComputeHash\<close>: the bytes that are hashed, and the method, which caches
  the digest in the transaction.  \<open>sha\<close> is SHA-256.\<close>

definition tx_preimage :: "transaction \<Rightarrow> byte list" where
  "tx_preimage t = bytes_of (tx_from t) @ bytes_of (tx_to t)
     @ uint64ToBytes (tx_nonce t) @ uint64ToBytes (tx_value t)
     @ uint64ToBytes (tx_gas_limit t) @ uint64ToBytes (tx_gas_price t)
     @ tx_data t @ uint64ToBytes (word_of_int (tx_time t))"

definition tx_ComputeHash :: "(byte list \<Rightarrow> hash) \<Rightarrow> transaction \<Rightarrow> hash \<times> transaction" where
  "tx_ComputeHash sha t = (let h = sha (tx_preimage t) in (h, t\<lparr>tx_hash := Some h\<rparr>))"

definition tx_GetHash :: "(byte list \<Rightarrow> hash) \<Rightarrow> transaction \<Rightarrow> hash \<times> transaction" where
  "tx_GetHash sha t = (case tx_hash t of None \<Rightarrow> tx_ComputeHash sha t | Some h \<Rightarrow> (h, t))"

definition NewAccount :: "address \<Rightarrow> u64 \<Rightarrow> account" where
  "NewAccount addr bal = \<lparr>acc_address = addr, acc_balance = bal, acc_nonce = 0,
     acc_code = [], acc_storage_root = [], acc_code_hash = []\<rparr>"

text \<open>\<open>Account.Equal\<close>; a nil receiver or argument is \<open>None\<close>.\<close>

definition account_Equal :: "account option \<Rightarrow> account option \<Rightarrow> bool" where
  "account_Equal a b = (case (a, b) of
     (Some x, Some y) \<Rightarrow> acc_address x = acc_address y \<and> acc_balance x = acc_balance y \<and>
        acc_nonce x = acc_nonce y \<and> acc_code x = acc_code y \<and>
        acc_storage_root x = acc_storage_root y \<and> acc_code_hash x = acc_code_hash y
   | _ \<Rightarrow> a = None \<and> b = None)"

text \<open>\<open>ConsensusConfig.Validate\<close> of \<open>types.go\<close>.\<close>

definition types_config_Validate :: "consensus_config \<Rightarrow> config_error + unit" where
  "types_config_Validate c =
     (if cc_wave_timeout c \<le> 0 then Inl WaveTimeoutMustBePositive
      else if cc_round_duration c \<le> 0 then Inl RoundDurationMustBePositive
      else if cc_validator_set c = [] then Inl ValidatorSetEmpty
      else if cc_quorum_size c \<le> 0 \<or> cc_quorum_size c > int (length (cc_validator_set c))
           then Inl InvalidQuorumSize
      else if cc_listen_addr c = [] then Inl ListenAddressEmpty
      else Inr ())"

section \<open>\<open>types.State\<close>\<close>

record types_state =
  ts_current_wave :: u64
  ts_current_round :: u64
  ts_height :: u64
  ts_latest :: "bref option"
  ts_pending :: "(hash, bref) gomap"
  ts_finalized :: "(hash, bref) gomap"
  ts_proposals :: "(hash, proposal) gomap"
  ts_votes :: "(hash, vote list) gomap"
  ts_peers :: "(address, address) gomap"
  ts_accounts :: "(address, account) gomap"

definition types_NewState :: types_state where
  "types_NewState = \<lparr>ts_current_wave = 1, ts_current_round = 0, ts_height = 0,
     ts_latest = None, ts_pending = [], ts_finalized = [], ts_proposals = [],
     ts_votes = [], ts_peers = [], ts_accounts = []\<rparr>"

definition types_GetAccount :: "types_state \<Rightarrow> byte list \<Rightarrow> account option" where
  "types_GetAccount s a = gget (ts_accounts s) (string_of_bytes a)"

definition types_SetAccount :: "types_state \<Rightarrow> byte list \<Rightarrow> account \<Rightarrow> types_state" where
  "types_SetAccount s a acc = s\<lparr>ts_accounts := gput (string_of_bytes a) acc (ts_accounts s)\<rparr>"

text \<open>The loop of \<open>CleanupOldBlocks\<close>: the bound \<open>len(m) - keepCount\<close> is evaluated again
  after every deletion.\<close>

fun delete_excess :: "int \<Rightarrow> 'k list \<Rightarrow> int \<Rightarrow> ('k, 'v) gomap \<Rightarrow> ('k, 'v) gomap" where
  "delete_excess keep [] removed m = m"
| "delete_excess keep (k # ks) removed m =
     (if removed \<ge> int (glen m) - keep then m
      else delete_excess keep ks (removed + 1) (gdel k m))"

definition types_CleanupOldBlocks :: "hash list \<Rightarrow> hash list \<Rightarrow> types_state \<Rightarrow> types_state" where
  "types_CleanupOldBlocks ordp ordf s =
     (let s1 = (if glen (ts_pending s) > 10
                then s\<lparr>ts_pending := delete_excess 5 ordp 0 (ts_pending s)\<rparr> else s)
      in if glen (ts_finalized s1) > 20
         then s1\<lparr>ts_finalized := delete_excess 10 ordf 0 (ts_finalized s1)\<rparr> else s1)"

section \<open>Lemmas\<close>

lemma length_uint64ToBytes [simp]: "length (uint64ToBytes n) = 8"
  by (simp add: uint64ToBytes_def)

lemma bytes_of_append [simp]: "bytes_of (s @ t) = bytes_of s @ bytes_of t"
  by (simp add: bytes_of_def)

lemma length_bytes_of [simp]: "length (bytes_of s) = length s"
  by (simp add: bytes_of_def)

lemma string_of_bytes_of [simp]: "string_of_bytes (bytes_of s) = s"
proof -
  have "char_of (unat (word_of_nat (of_char c) :: byte)) = c" for c
  proof -
    have "(of_char c :: nat) < 256"
      by simp
    then show ?thesis
      by (simp add: unat_of_nat)
  qed
  then show ?thesis
    by (simp add: string_of_bytes_def bytes_of_def comp_def)
qed

lemma bytes_of_inj: "bytes_of s = bytes_of t \<longleftrightarrow> s = t"
  by (metis string_of_bytes_of)

lemma account_Equal_iff: "account_Equal a b \<longleftrightarrow> a = b"
  by (auto simp: account_Equal_def split: option.split)

text \<open>How many entries the clean-up loop deletes: half of the excess, rounded up.\<close>

lemma delete_excess_length:
  assumes "gwf m" "distinct ks" "set ks \<subseteq> gkeys m"
    and "int (glen m) - keep - removed \<le> 2 * int (length ks)"
  shows "int (glen (delete_excess keep ks removed m)) =
    int (glen m) - max 0 ((int (glen m) - keep - removed + 1) div 2)"
  using assms
proof (induction keep ks removed m rule: delete_excess.induct)
  case (2 keep k ks removed m)
  show ?case
  proof (cases "removed \<ge> int (glen m) - keep")
    case False
    have "k \<in> gkeys m"
      using 2 by simp
    then have len: "glen (gdel k m) = glen m - 1" and pos: "glen m \<ge> 1"
      using 2 by (auto simp: glen_gdel glen_card card_gt_0_iff Suc_le_eq)
    have "int (glen (delete_excess keep ks (removed + 1) (gdel k m))) =
      int (glen (gdel k m)) - max 0 ((int (glen (gdel k m)) - keep - (removed + 1) + 1) div 2)"
      using 2 False len pos by (intro "2.IH") (auto simp: of_nat_diff)
    then show ?thesis
      using False len pos by (simp add: of_nat_diff)
  qed simp
qed simp

lemma uint64ToBytes_inj: "uint64ToBytes m = uint64ToBytes n \<longleftrightarrow> m = n"
proof
  assume eq: "uint64ToBytes m = uint64ToBytes n"
  have bytes: "ucast (drop_bit (8 * i) m) = (ucast (drop_bit (8 * i) n) :: byte)" if "i < 8" for i
  proof -
    have "i \<in> set [7, 6, 5, 4, 3, 2, 1, 0]"
      using that by auto
    then show ?thesis
      using eq unfolding uint64ToBytes_def map_eq_conv by blast
  qed
  show "m = n"
  proof (rule bit_word_eqI)
    fix k assume "k < LENGTH(64)"
    then have "k div 8 < 8"
      by simp
    from bytes [OF this]
    have "bit (ucast (drop_bit (8 * (k div 8)) m) :: byte) (k mod 8) =
          bit (ucast (drop_bit (8 * (k div 8)) n) :: byte) (k mod 8)"
      by simp
    then show "bit m k = bit n k"
      by (simp add: bit_ucast_iff bit_drop_bit_eq)
  qed
qed simp

lemma tx_preimage_fields:
  assumes "length (tx_from s) = length (tx_from t)" "length (tx_to s) = length (tx_to t)"
    and "tx_preimage s = tx_preimage t"
  shows "tx_from s = tx_from t \<and> tx_to s = tx_to t \<and> tx_nonce s = tx_nonce t \<and>
    tx_value s = tx_value t \<and> tx_gas_limit s = tx_gas_limit t \<and>
    tx_gas_price s = tx_gas_price t \<and> tx_data s = tx_data t"
  using assms by (simp add: tx_preimage_def append_eq_append_conv bytes_of_inj uint64ToBytes_inj)

text \<open>What the code assumes of SHA-256: two blocks of the heap with the same hash have the same
  header.\<close>

definition collision_free :: "header_digest \<Rightarrow> block_heap \<Rightarrow> bool" where
  "collision_free H hp =
     (\<forall>b c. block_ComputeHash H (hp b) = block_ComputeHash H (hp c) \<longrightarrow> blk_header (hp b) = blk_header (hp c))"

lemma collision_freeD:
  "collision_free H hp \<Longrightarrow> block_ComputeHash H (hp b) = block_ComputeHash H (hp c) \<Longrightarrow>
     blk_header (hp b) = blk_header (hp c)"
  unfolding collision_free_def by blast

section \<open>Sample data\<close>

text \<open>Small blocks on which the witnesses of the properties are evaluated: block \<open>n\<close> of
  \<open>sample_heap\<close> has height and round \<open>n\<close> and names block \<open>n - 1\<close>; the digest of a sample
  header is the byte string of its height, wave and round.\<close>

definition sample_signature :: signature where
  "sample_signature = \<lparr>sig_validator = ''v1'', sig_bytes = [], sig_time = 0\<rparr>"

definition sample_digest :: header_digest where
  "sample_digest h = uint64ToBytes (hdr_height h) @ uint64ToBytes (hdr_wave h) @ uint64ToBytes (hdr_round h)"

definition sample_key :: "nat \<Rightarrow> hash" where
  "sample_key n = uint64ToBytes (word_of_nat n) @ uint64ToBytes 0 @ uint64ToBytes (word_of_nat n)"

definition sample_header :: "nat \<Rightarrow> block_header" where
  "sample_header n = \<lparr>hdr_version = 1, hdr_time = 0, hdr_round = word_of_nat n, hdr_wave = 0,
     hdr_height = word_of_nat n, hdr_parent = [],
     hdr_references = (if n = 0 then [] else
       [\<lparr>ref_hash = sample_key (n - 1), ref_round = word_of_nat (n - 1), ref_wave = 0,
         ref_type = ReferenceTypeStandard\<rparr>]),
     hdr_state_root = [], hdr_validator = (if even n then ''v0'' else ''v1''),
     hdr_signature = sample_signature\<rparr>"

definition sample_block :: "nat \<Rightarrow> block" where
  "sample_block n = \<lparr>blk_header = sample_header n, blk_body = None, blk_certificate = None,
     blk_original_hash = []\<rparr>"

definition sample_heap :: block_heap where
  "sample_heap n = sample_block n"

lemmas sample_defs = sample_digest_def sample_key_def sample_header_def sample_block_def
  sample_heap_def sample_signature_def

lemma sample_hash [simp]: "block_ComputeHash sample_digest (sample_heap n) = sample_key n"
  by (simp add: sample_defs block_ComputeHash_def)

lemma sample_fields [simp]:
  "hdr_height (blk_header (sample_heap n)) = word_of_nat n"
  "hdr_round (blk_header (sample_heap n)) = word_of_nat n"
  "hdr_wave (blk_header (sample_heap n)) = 0"
  "hdr_references (blk_header (sample_heap n)) = (if n = 0 then [] else
     [\<lparr>ref_hash = sample_key (n - 1), ref_round = word_of_nat (n - 1), ref_wave = 0,
       ref_type = ReferenceTypeStandard\<rparr>])"
  "hdr_validator (blk_header (sample_heap n)) = (if even n then ''v0'' else ''v1'')"
  "blk_original_hash (sample_heap n) = []"
  by (simp_all add: sample_defs)

lemma sample_key_inj: "m < 2 ^ 64 \<Longrightarrow> n < 2 ^ 64 \<Longrightarrow> sample_key m = sample_key n \<longleftrightarrow> m = n"
  unfolding sample_key_def append_eq_append_conv [OF disjI1, OF trans [OF length_uint64ToBytes length_uint64ToBytes [symmetric]]]
    uint64ToBytes_inj by (metis unat_of_nat_u64)

definition sample_index :: "nat list \<Rightarrow> (hash, bref) gomap" where
  "sample_index is = map (\<lambda>i. (sample_key i, i)) is"

lemma sample_key_inj_on: "inj_on sample_key {..<100}"
  by (rule inj_onI) (use sample_key_inj in force)

lemma distinct_sample_keys: "distinct is \<Longrightarrow> set is \<subseteq> {..<100} \<Longrightarrow> distinct (map sample_key is)"
  by (simp add: distinct_map inj_on_subset [OF sample_key_inj_on])

lemma gwf_sample_index: "distinct is \<Longrightarrow> set is \<subseteq> {..<100} \<Longrightarrow> gwf (sample_index is)"
  using distinct_sample_keys by (simp add: gwf_def sample_index_def comp_def)

lemma gget_sample_index:
  "distinct is \<Longrightarrow> set is \<subseteq> {..<100} \<Longrightarrow>
     gget (sample_index is) k = Some i \<longleftrightarrow> i \<in> set is \<and> k = sample_key i"
  using gwf_sample_index [of "is"] by (auto simp: gget_set) (auto simp: sample_index_def)

lemma gkeys_sample_index: "gkeys (sample_index is) = sample_key ` set is"
  by (simp add: sample_index_def gkeys_def image_image)

lemma glen_sample_index: "glen (sample_index is) = length is"
  by (simp add: sample_index_def glen_def)

lemma range_order_sample_index:
  "distinct is \<Longrightarrow> set is \<subseteq> {..<100} \<Longrightarrow> range_order (map sample_key is) (sample_index is)"
  using distinct_sample_keys by (simp add: range_order_def gkeys_sample_index)

text \<open>A heap of 100 different sample blocks.\<close>

definition sample_heap100 :: block_heap where
  "sample_heap100 n = sample_heap (min n 99)"

lemma sample_hash100 [simp]: "block_ComputeHash sample_digest (sample_heap100 n) = sample_key (min n 99)"
  by (simp add: sample_heap100_def)

lemma sample_collision_free: "collision_free sample_digest sample_heap100"
proof -
  have "min b 99 = min c 99" if "sample_key (min b 99) = sample_key (min c 99)" for b c :: nat
  proof -
    have "min b 99 < 2 ^ 64" "min c 99 < 2 ^ 64"
      by (rule le_less_trans [OF min.cobounded2], simp)+
    then show ?thesis
      using that sample_key_inj by blast
  qed
  then show ?thesis
    unfolding collision_free_def sample_hash100 unfolding sample_heap100_def by metis
qed

end
