(* ===== verification/Core_Dag.thy ===== *)
theory Core_Dag
  imports Chain_Types
begin

text \<open>
  \<open>internal/core/dag.go\<close>: the in-memory DAG used by the consensus engine and the
  block processor.  The maps hold references to blocks in a heap \<open>hp\<close>; keys are the
  hashes at insertion time, while clean-up hashes the blocks again, so the two
  agree only as long as no header is written through.  \<open>core_inv\<close> says when they
  do, and what the \<open>references\<close> map may contain.
\<close>

section \<open>State and operations\<close>

record core_dag =
  cd_blocks :: "(hash, bref) gomap"
  cd_references :: "(hash, hash list) gomap"
  cd_height :: u64
  cd_maxBlocks :: int

datatype dag_error = BlockAlreadyExists | BlockNotFound

abbreviation hd_of :: "block_heap \<Rightarrow> bref \<Rightarrow> block_header" where
  "hd_of hp b \<equiv> blk_header (hp b)"

definition core_NewDAG :: core_dag where
  "core_NewDAG = \<lparr>cd_blocks = [], cd_references = [], cd_height = 0, cd_maxBlocks = 50\<rparr>"

text \<open>The body of the removal loop in \<open>cleanupOldBlocks\<close>; the inner loop over a slice of
  child hashes removes the first match and breaks.\<close>

definition core_removeBlock :: "header_digest \<Rightarrow> block_heap \<Rightarrow> bref \<Rightarrow> core_dag \<Rightarrow> core_dag" where
  "core_removeBlock H hp b d =
     (let h = block_ComputeHash H (hp b)
      in d\<lparr>cd_blocks := gdel h (cd_blocks d),
           cd_references := gmap_vals (remove1 h) (gdel h (cd_references d))\<rparr>)"

definition core_cleanupOldBlocks ::
  "header_digest \<Rightarrow> block_heap \<Rightarrow> hash list \<Rightarrow> core_dag \<Rightarrow> core_dag" where
  "core_cleanupOldBlocks H hp ord d =
     (let blocks = sort_slice (\<lambda>a b. hdr_height (hd_of hp a) < hdr_height (hd_of hp b))
                     (range_vals ord (cd_blocks d));
          half = cd_maxBlocks d sdiv 2;
          keepCount = (if half < 10 then 10 else half);
          blocksToRemove = int (length blocks) - keepCount
      in if blocksToRemove \<le> 0 then d
         else fold (core_removeBlock H hp) (take (nat blocksToRemove) blocks) d)"

definition core_addReferences ::
  "hash \<Rightarrow> reference list \<Rightarrow> (hash, hash list) gomap \<Rightarrow> (hash, hash list) gomap" where
  "core_addReferences h refs m = fold (\<lambda>r m. gappend (ref_hash r) h m) refs m"

definition core_AddBlock ::
  "header_digest \<Rightarrow> block_heap \<Rightarrow> hash list \<Rightarrow> bref \<Rightarrow> core_dag \<Rightarrow> dag_error + core_dag" where
  "core_AddBlock H hp ord b d =
     (let h = block_ComputeHash H (hp b); hdr = hd_of hp b
      in if ghas (cd_blocks d) h then Inl BlockAlreadyExists
         else let d1 = d\<lparr>cd_blocks := gput h b (cd_blocks d),
                         cd_height := (if hdr_height hdr > cd_height d then hdr_height hdr else cd_height d),
                         cd_references := core_addReferences h (hdr_references hdr) (cd_references d)\<rparr>
              in Inr (if int (glen (cd_blocks d1)) > cd_maxBlocks d1
                      then core_cleanupOldBlocks H hp ord d1 else d1))"

definition core_SetMaxBlocks :: "int \<Rightarrow> core_dag \<Rightarrow> core_dag" where
  "core_SetMaxBlocks n d = d\<lparr>cd_maxBlocks := n\<rparr>"

definition core_GetBlock :: "core_dag \<Rightarrow> hash \<Rightarrow> dag_error + bref" where
  "core_GetBlock d h = (case gget (cd_blocks d) h of None \<Rightarrow> Inl BlockNotFound | Some b \<Rightarrow> Inr b)"

definition core_GetBlockByHeight :: "block_heap \<Rightarrow> hash list \<Rightarrow> core_dag \<Rightarrow> u64 \<Rightarrow> dag_error + bref" where
  "core_GetBlockByHeight hp ord d height =
     (case find (\<lambda>b. hdr_height (hd_of hp b) = height) (range_vals ord (cd_blocks d)) of
        None \<Rightarrow> Inl BlockNotFound | Some b \<Rightarrow> Inr b)"

definition core_GetLatestHeight :: "core_dag \<Rightarrow> u64" where
  "core_GetLatestHeight d = cd_height d"

definition core_GetHeight :: "core_dag \<Rightarrow> u64" where
  "core_GetHeight d = cd_height d"

definition core_GetBlocks :: "hash list \<Rightarrow> core_dag \<Rightarrow> bref list" where
  "core_GetBlocks ord d = range_vals ord (cd_blocks d)"

definition core_GetAllBlocks :: "hash list \<Rightarrow> core_dag \<Rightarrow> bref list" where
  "core_GetAllBlocks ord d = range_vals ord (cd_blocks d)"

definition core_GetMaxHeight :: "block_heap \<Rightarrow> hash list \<Rightarrow> core_dag \<Rightarrow> u64" where
  "core_GetMaxHeight hp ord d =
     fold (\<lambda>b m. if hdr_height (hd_of hp b) > m then hdr_height (hd_of hp b) else m)
       (range_vals ord (cd_blocks d)) 0"

definition core_GetBlocksByHeight :: "block_heap \<Rightarrow> hash list \<Rightarrow> core_dag \<Rightarrow> u64 \<Rightarrow> bref list" where
  "core_GetBlocksByHeight hp ord d height =
     filter (\<lambda>b. hdr_height (hd_of hp b) = height) (range_vals ord (cd_blocks d))"

definition core_GetBlocksByValidator ::
  "block_heap \<Rightarrow> hash list \<Rightarrow> core_dag \<Rightarrow> address \<Rightarrow> bref list" where
  "core_GetBlocksByValidator hp ord d v =
     filter (\<lambda>b. hdr_validator (hd_of hp b) = v) (range_vals ord (cd_blocks d))"

definition core_GetBlockCount :: "core_dag \<Rightarrow> nat" where
  "core_GetBlockCount d = glen (cd_blocks d)"

text \<open>\<open>GetReferences\<close>: a child hash that is no longer in the map yields a nil block, whose
  header is then dereferenced.  The reference type is the zero value.\<close>

fun core_referencesOf ::
  "block_heap \<Rightarrow> (hash, bref) gomap \<Rightarrow> hash list \<Rightarrow> go_panic + reference list" where
  "core_referencesOf hp m [] = Inr []"
| "core_referencesOf hp m (h # hs) = (case gget m h of
     None \<Rightarrow> Inl NilDereference
   | Some b \<Rightarrow> map_sum id (Cons \<lparr>ref_hash = h, ref_round = hdr_round (hd_of hp b),
        ref_wave = hdr_wave (hd_of hp b), ref_type = ReferenceTypeStandard\<rparr>)
        (core_referencesOf hp m hs))"

definition core_GetReferences :: "block_heap \<Rightarrow> core_dag \<Rightarrow> hash \<Rightarrow> go_panic + reference list" where
  "core_GetReferences hp d h = core_referencesOf hp (cd_blocks d) (slice_at (cd_references d) h)"

text \<open>The comparator of \<open>GetRecentBlocks\<close>: height, wave, round and validator, all descending.\<close>

definition recent_less :: "block_heap \<Rightarrow> bref \<Rightarrow> bref \<Rightarrow> bool" where
  "recent_less hp a b =
     (if hdr_height (hd_of hp a) \<noteq> hdr_height (hd_of hp b)
      then hdr_height (hd_of hp a) > hdr_height (hd_of hp b)
      else if hdr_wave (hd_of hp a) \<noteq> hdr_wave (hd_of hp b)
      then hdr_wave (hd_of hp a) > hdr_wave (hd_of hp b)
      else if hdr_round (hd_of hp a) \<noteq> hdr_round (hd_of hp b)
      then hdr_round (hd_of hp a) > hdr_round (hd_of hp b)
      else hdr_validator (hd_of hp a) > hdr_validator (hd_of hp b))"

definition core_GetRecentBlocks ::
  "block_heap \<Rightarrow> hash list \<Rightarrow> core_dag \<Rightarrow> int \<Rightarrow> go_panic + bref list" where
  "core_GetRecentBlocks hp ord d cnt =
     (let blocks = sort_slice (recent_less hp) (range_vals ord (cd_blocks d));
          n = (if cnt > int (length blocks) then int (length blocks) else cnt)
      in go_prefix blocks n)"

section \<open>Invariant\<close>

text \<open>Every key is the current hash of its block.\<close>

definition hash_agrees :: "header_digest \<Rightarrow> block_heap \<Rightarrow> (hash, bref) gomap \<Rightarrow> bool" where
  "hash_agrees H hp m = (\<forall>h b. gget m h = Some b \<longrightarrow> block_ComputeHash H (hp b) = h)"

text \<open>The children listed for a hash are distinct, are in the DAG, and name that hash among
  their references.\<close>

definition references_sound :: "block_heap \<Rightarrow> core_dag \<Rightarrow> bool" where
  "references_sound hp d = (\<forall>k. distinct (slice_at (cd_references d) k) \<and>
     (\<forall>c \<in> set (slice_at (cd_references d) k). \<exists>b. gget (cd_blocks d) c = Some b \<and>
        k \<in> ref_hash ` set (hdr_references (hd_of hp b))))"

definition heights_bounded :: "block_heap \<Rightarrow> core_dag \<Rightarrow> bool" where
  "heights_bounded hp d = (\<forall>h b. gget (cd_blocks d) h = Some b \<longrightarrow> hdr_height (hd_of hp b) \<le> cd_height d)"

definition core_inv :: "header_digest \<Rightarrow> block_heap \<Rightarrow> core_dag \<Rightarrow> bool" where
  "core_inv H hp d = (gwf (cd_blocks d) \<and> gwf (cd_references d) \<and>
     hash_agrees H hp (cd_blocks d) \<and> references_sound hp d \<and> heights_bounded hp d)"

text \<open>A header that names each parent once.\<close>

definition refs_distinct :: "block_header \<Rightarrow> bool" where
  "refs_distinct hdr = distinct (map ref_hash (hdr_references hdr))"

section \<open>Lemmas\<close>

lemma core_inv_NewDAG: "core_inv H hp core_NewDAG"
  by (simp add: core_inv_def core_NewDAG_def hash_agrees_def references_sound_def heights_bounded_def)

lemma slice_at_addReferences:
  assumes "distinct (map ref_hash refs)"
  shows "slice_at (core_addReferences h refs m) k =
    slice_at m k @ (if k \<in> ref_hash ` set refs then [h] else [])"
  using assms
proof (induction refs arbitrary: m)
  case (Cons r refs)
  then have "slice_at (core_addReferences h (r # refs) m) k =
      slice_at (gappend (ref_hash r) h m) k @ (if k \<in> ref_hash ` set refs then [h] else [])"
    by (simp add: core_addReferences_def)
  then show ?case
    using Cons.prems by auto
qed (simp add: core_addReferences_def)

lemma gwf_addReferences [simp]: "gwf m \<Longrightarrow> gwf (core_addReferences h refs m)"
  by (induction refs arbitrary: m) (auto simp: core_addReferences_def)

lemma core_removeBlock_inv:
  assumes "core_inv H hp d"
  shows "core_inv H hp (core_removeBlock H hp b d)"
  using assms
  by (auto simp: core_inv_def core_removeBlock_def hash_agrees_def references_sound_def
      heights_bounded_def Let_def slice_at_gmap_vals distinct_remove1 set_remove1_eq
      split: if_splits dest: notin_set_remove1)

lemma core_removeBlocks_inv:
  "core_inv H hp d \<Longrightarrow> core_inv H hp (fold (core_removeBlock H hp) bs d)"
  by (induction bs arbitrary: d) (auto simp: core_removeBlock_inv)

lemma core_cleanup_inv: "core_inv H hp d \<Longrightarrow> core_inv H hp (core_cleanupOldBlocks H hp ord d)"
  by (simp add: core_cleanupOldBlocks_def Let_def core_removeBlocks_inv)

lemma core_removeBlocks_blocks:
  "cd_blocks (fold (core_removeBlock H hp) bs d) =
     gdel_all (map (\<lambda>b. block_ComputeHash H (hp b)) bs) (cd_blocks d)"
  by (induction bs arbitrary: d) (simp_all add: core_removeBlock_def Let_def)

lemma core_removeBlocks_other:
  "cd_height (fold (core_removeBlock H hp) bs d) = cd_height d"
  "cd_maxBlocks (fold (core_removeBlock H hp) bs d) = cd_maxBlocks d"
  by (induction bs arbitrary: d) (simp_all add: core_removeBlock_def Let_def)

text \<open>Blocks under distinct keys are distinct, and so are their hashes, when keys agree.\<close>

lemma hash_agrees_range_vals:
  assumes "hash_agrees H hp m" "set ord \<subseteq> gkeys m"
  shows "map (\<lambda>b. block_ComputeHash H (hp b)) (range_vals ord m) = ord"
  using assms(2)
proof (induction ord)
  case (Cons k ord)
  then obtain b where "gget m k = Some b"
    by (auto simp: gkeys_iff)
  then show ?case
    using Cons assms(1) by (simp add: hash_agrees_def)
qed simp

lemma hash_agrees_distinct:
  assumes "hash_agrees H hp m" "range_order ord m"
  shows "distinct (map (\<lambda>b. block_ComputeHash H (hp b)) (range_vals ord m))"
    "set (map (\<lambda>b. block_ComputeHash H (hp b)) (range_vals ord m)) = gkeys m"
  using assms by (simp_all only: hash_agrees_range_vals range_order_def subset_refl)

lemma recent_less_key:
  "recent_less hp a b \<longleftrightarrow>
     (let key = (\<lambda>x. (hdr_height (hd_of hp x), hdr_wave (hd_of hp x),
                      hdr_round (hd_of hp x), hdr_validator (hd_of hp x)))
      in key b < key a)"
  by (auto simp: recent_less_def)

lemma strict_weak_recent_less: "strict_weak (recent_less hp)"
  unfolding recent_less_key Let_def by (rule strict_weak_key_desc)

text \<open>The state just after the insertion, before clean-up.\<close>

definition core_inserted :: "header_digest \<Rightarrow> block_heap \<Rightarrow> bref \<Rightarrow> core_dag \<Rightarrow> core_dag" where
  "core_inserted H hp b d =
     d\<lparr>cd_blocks := gput (block_ComputeHash H (hp b)) b (cd_blocks d),
       cd_height := max (cd_height d) (hdr_height (hd_of hp b)),
       cd_references := core_addReferences (block_ComputeHash H (hp b))
         (hdr_references (hd_of hp b)) (cd_references d)\<rparr>"

lemma core_AddBlock_alt:
  "core_AddBlock H hp ord b d =
     (if block_ComputeHash H (hp b) \<in> gkeys (cd_blocks d) then Inl BlockAlreadyExists
      else Inr (if int (glen (cd_blocks (core_inserted H hp b d))) > cd_maxBlocks d
                then core_cleanupOldBlocks H hp ord (core_inserted H hp b d)
                else core_inserted H hp b d))"
  by (auto simp: core_AddBlock_def core_inserted_def Let_def ghas_gkeys max_def not_less)

lemma core_inserted_inv:
  assumes "core_inv H hp d" "refs_distinct (hd_of hp b)"
    and "block_ComputeHash H (hp b) \<notin> gkeys (cd_blocks d)"
  shows "core_inv H hp (core_inserted H hp b d)"
proof -
  let ?h = "block_ComputeHash H (hp b)"
  have "references_sound hp (core_inserted H hp b d)"
    using assms unfolding references_sound_def core_inv_def refs_distinct_def core_inserted_def
    by (fastforce simp: slice_at_addReferences gkeys_iff)
  moreover have "heights_bounded hp (core_inserted H hp b d)"
    using assms by (auto simp: heights_bounded_def core_inv_def core_inserted_def max.coboundedI1)
  ultimately show ?thesis
    using assms by (simp add: core_inv_def core_inserted_def hash_agrees_def)
qed

text \<open>Deleting the first \<open>n\<close> blocks of a sorted range by their hashes removes \<open>n\<close> entries.\<close>

lemma glen_gdel_sorted:
  assumes "gwf m" "hash_agrees H hp m" "range_order ord m"
  shows "glen (gdel_all (map (\<lambda>b. block_ComputeHash H (hp b)) (take n (sort_slice lt (range_vals ord m)))) m)
    = glen m - n"
proof -
  let ?bs = "sort_slice lt (range_vals ord m)"
  let ?hash = "\<lambda>b. block_ComputeHash H (hp b)"
  have dist: "distinct (map ?hash ?bs)"
    using hash_agrees_distinct(1) [OF assms(2,3)]
    unfolding distinct_map distinct_sort_slice set_sort_slice .
  have keys: "set (map ?hash ?bs) = gkeys m"
    using hash_agrees_distinct(2) [OF assms(2,3)] unfolding set_map set_sort_slice .
  have "distinct (take n (map ?hash ?bs))"
    using dist by (rule distinct_take)
  moreover have "set (take n (map ?hash ?bs)) \<subseteq> gkeys m"
    using set_take_subset [of n "map ?hash ?bs"] keys by (simp only:)
  ultimately have "glen (gdel_all (take n (map ?hash ?bs)) m) = glen m - length (take n (map ?hash ?bs))"
    by (rule glen_gdel_all [OF assms(1)])
  then show ?thesis
    using assms by (simp add: take_map length_range_vals min_def)
qed

lemma core_keepCount:
  assumes "gwf (cd_blocks d)" "hash_agrees H hp (cd_blocks d)" "range_order ord (cd_blocks d)"
  shows "int (glen (cd_blocks (core_cleanupOldBlocks H hp ord d)))
    = min (int (glen (cd_blocks d))) (max 10 (cd_maxBlocks d sdiv 2))"
proof -
  have "length (range_vals ord (cd_blocks d)) = glen (cd_blocks d)"
    using assms by (simp add: length_range_vals)
  then show ?thesis
    unfolding core_cleanupOldBlocks_def Let_def
    by (simp add: core_removeBlocks_blocks glen_gdel_sorted [OF assms])
qed

lemma core_AddBlock_inv:
  assumes "core_inv H hp d" "refs_distinct (hd_of hp b)" "core_AddBlock H hp ord b d = Inr d'"
  shows "core_inv H hp d'"
  using assms core_inserted_inv [OF assms(1,2)]
  by (auto simp: core_AddBlock_alt core_cleanup_inv split: if_splits)

lemma core_SetMaxBlocks_inv: "core_inv H hp d \<Longrightarrow> core_inv H hp (core_SetMaxBlocks n d)"
  by (simp add: core_SetMaxBlocks_def core_inv_def references_sound_def heights_bounded_def)

lemma core_cleanup_get:
  "gget (cd_blocks (core_cleanupOldBlocks H hp ord d)) h = Some x \<Longrightarrow> gget (cd_blocks d) h = Some x"
  by (auto simp: core_cleanupOldBlocks_def Let_def core_removeBlocks_blocks split: if_splits)

lemma core_AddBlock_get:
  assumes "core_AddBlock H hp ord b d = Inr d'" "gget (cd_blocks d') h = Some x"
  shows "gget (cd_blocks d) h = Some x \<or> (x = b \<and> h = block_ComputeHash H (hp b))"
proof -
  have "gget (cd_blocks (core_inserted H hp b d)) h = Some x"
    using assms by (auto simp: core_AddBlock_alt split: if_splits dest: core_cleanup_get)
  then show ?thesis
    by (auto simp: core_inserted_def split: if_splits)
qed

text \<open>Deleting a prefix of the sorted range: what is gone does not sort above what is left.\<close>

lemma hash_index_removed_below:
  assumes "hash_agrees H hp m \<and> range_order ord m \<and> strict_weak lt"
    and "m' = gdel_all (map (\<lambda>b. block_ComputeHash H (hp b)) (take n (sort_slice lt (range_vals ord m)))) m"
    and "gget m' h = Some x" "gget m g = Some y" "gget m' g = None"
  shows "\<not> lt x y"
proof -
  let ?bs = "sort_slice lt (range_vals ord m)"
  obtain z where z: "z \<in> set (take n ?bs)" "block_ComputeHash H (hp z) = g"
    using assms by (auto split: if_splits)
  have inbs: "v \<in> set ?bs" if "gget m k = Some v" for k v
    using that assms(1) by (auto simp: set_range_vals range_order_def gkeys_iff)
  have "\<exists>k. gget m k = Some z"
    using z(1) set_take_subset [of n ?bs] by (auto simp: set_range_vals)
  then have zy: "z = y"
    using z(2) assms(1,4) unfolding hash_agrees_def by (metis option.inject)
  have mx: "gget m h = Some x" and h: "h \<notin> (\<lambda>b. block_ComputeHash H (hp b)) ` set (take n ?bs)"
    using assms(2,3) by (simp_all split: if_splits)
  then have "block_ComputeHash H (hp x) = h"
    using assms(1) unfolding hash_agrees_def by blast
  then have "x \<notin> set (take n ?bs)"
    using h by blast
  then have xd: "x \<in> set (drop n ?bs)"
    using inbs [OF mx] by (metis Un_iff append_take_drop_id set_append)
  have "sorted_by lt ?bs"
    using assms(1) by (simp add: sorted_by_sort_slice)
  from sorted_by_take_drop [OF this z(1) xd] show ?thesis
    using zy by simp
qed

text \<open>What \<open>GetRecentBlocks\<close> promises, for the sorted range of any map: the first \<open>n\<close> entries,
  in order, and none of those left out sorts before one of them.\<close>

definition recent_of :: "('a \<Rightarrow> 'a \<Rightarrow> bool) \<Rightarrow> ('k, 'a) gomap \<Rightarrow> int \<Rightarrow> 'a list \<Rightarrow> bool" where
  "recent_of lt m n bs = (int (length bs) = min n (int (glen m)) \<and> sorted_by lt bs \<and>
     mset bs \<subseteq># mset (map snd m) \<and>
     (\<forall>x \<in> set bs. \<forall>y \<in># mset (map snd m) - mset bs. \<not> lt y x))"

lemma recent_of_sorted_range:
  assumes "gwf m" "range_order ord m" "0 \<le> n" "strict_weak lt"
  shows "\<exists>bs. go_prefix (sort_slice lt (range_vals ord m))
      (if n > int (length (sort_slice lt (range_vals ord m)))
       then int (length (sort_slice lt (range_vals ord m))) else n) = Inr bs \<and> recent_of lt m n bs"
proof -
  let ?s = "sort_slice lt (range_vals ord m)"
  have len: "length ?s = glen m"
    using assms by (simp add: length_range_vals)
  have ms: "mset ?s = mset (map snd m)"
    by (simp add: range_vals_items mset_range_items [OF assms(1,2)])
  have sorted: "sorted_by lt ?s"
    using assms(4) by (rule sorted_by_sort_slice)
  let ?k = "nat (min n (int (glen m)))"
  have split: "mset (take ?k ?s) + mset (drop ?k ?s) = mset (map snd m)"
    using ms by (metis append_take_drop_id mset_append)
  then have sub: "mset (take ?k ?s) \<subseteq># mset (map snd m)"
      and rest: "mset (map snd m) - mset (take ?k ?s) = mset (drop ?k ?s)"
    by (metis mset_subset_eq_add_left, metis add_diff_cancel_left')
  have "int (length (take ?k ?s)) = min n (int (glen m))"
    using len assms(3) by (auto simp: min_def)
  then have "recent_of lt m n (take ?k ?s)"
    unfolding recent_of_def rest
    using sub sorted_by_take [OF sorted, of ?k] sorted_by_take_drop [OF sorted, of _ ?k] by simp
  then show ?thesis
    using len assms(3) by (intro exI [of _ "take ?k ?s"]) (auto simp: go_prefix_def)
qed

section \<open>The block index interface\<close>

text \<open>What a store of blocks promises: it starts empty, an insertion invents nothing, and
  its invariant is kept.  A client then knows that whatever it looks up by hash was
  inserted and has that hash.\<close>

locale block_index =
  fixes get :: "'d \<Rightarrow> hash \<Rightarrow> bref option"
    and adds :: "bref \<Rightarrow> 'd \<Rightarrow> 'd \<Rightarrow> bool"
    and wf :: "'d \<Rightarrow> bool"
    and hash_of :: "bref \<Rightarrow> hash"
    and empty :: 'd
  assumes wf_empty: "wf empty"
    and get_empty: "get empty h = None"
    and adds_wf: "adds b d d' \<Longrightarrow> wf d \<Longrightarrow> wf d'"
    and adds_get: "adds b d d' \<Longrightarrow> wf d \<Longrightarrow> get d' h = Some x \<Longrightarrow>
      get d h = Some x \<or> (x = b \<and> h = hash_of b)"
begin

inductive built :: "bref list \<Rightarrow> 'd \<Rightarrow> bool" where
  built_empty: "built [] empty"
| built_add: "built bs d \<Longrightarrow> adds b d d' \<Longrightarrow> built (b # bs) d'"

lemma built_wf: "built bs d \<Longrightarrow> wf d"
  by (induction rule: built.induct) (auto intro: wf_empty adds_wf)

lemma built_sound: "built bs d \<Longrightarrow> get d h = Some x \<Longrightarrow> x \<in> set bs \<and> hash_of x = h"
proof (induction arbitrary: h x rule: built.induct)
  case (built_add bs d b d')
  then show ?case
    using adds_get [OF built_add.hyps(2) built_wf [OF built_add.hyps(1)]] by fastforce
qed (simp add: get_empty)

end

definition core_adds :: "header_digest \<Rightarrow> block_heap \<Rightarrow> bref \<Rightarrow> core_dag \<Rightarrow> core_dag \<Rightarrow> bool" where
  "core_adds H hp b d d' = (refs_distinct (hd_of hp b) \<and> (\<exists>ord. core_AddBlock H hp ord b d = Inr d'))"

interpretation core_index: block_index "\<lambda>d. gget (cd_blocks d)" "core_adds H hp"
  "core_inv H hp" "\<lambda>b. block_ComputeHash H (hp b)" core_NewDAG for H hp
proof
  show "gget (cd_blocks core_NewDAG) h = None" for h
    by (simp add: core_NewDAG_def)
qed (auto simp: core_inv_NewDAG core_adds_def intro: core_AddBlock_inv dest: core_AddBlock_get)

text \<open>The states a DAG can be in while no stored header is written through.\<close>

inductive core_reach :: "header_digest \<Rightarrow> block_heap \<Rightarrow> core_dag \<Rightarrow> bool" for H hp where
  reach_new: "core_reach H hp core_NewDAG"
| reach_add: "core_reach H hp d \<Longrightarrow> refs_distinct (hd_of hp b) \<Longrightarrow>
    core_AddBlock H hp ord b d = Inr d' \<Longrightarrow> core_reach H hp d'"
| reach_max: "core_reach H hp d \<Longrightarrow> core_reach H hp (core_SetMaxBlocks n d)"

lemma core_referencesOf_ok:
  assumes "\<forall>c \<in> set cs. gget m c \<noteq> None"
  shows "\<exists>rs. core_referencesOf hp m cs = Inr rs \<and> map ref_hash rs = cs"
  using assms
proof (induction cs)
  case (Cons c cs)
  then obtain rs b where "core_referencesOf hp m cs = Inr rs" "map ref_hash rs = cs" "gget m c = Some b"
    by auto
  then show ?case
    by simp
qed simp

lemma core_inv_reach: "core_reach H hp d \<Longrightarrow> core_inv H hp d"
  by (induction rule: core_reach.induct)
    (auto simp: core_inv_NewDAG core_SetMaxBlocks_inv intro: core_AddBlock_inv)

section \<open>Properties\<close>



text \<open>Clean-up drops the oldest blocks: after \<open>AddBlock\<close>, a block that was stored (or is the
  added one) and is gone is no higher than any block that is still there.\<close>

theorem core_AddBlock_keeps_highest:
  assumes "core_inv H hp d" "refs_distinct (hd_of hp b)"
    and "range_order ord (gput (block_ComputeHash H (hp b)) b (cd_blocks d))"
    and "core_AddBlock H hp ord b d = Inr d'"
    and "core_GetBlock d' h = Inr x"
    and "core_GetBlock d g = Inr y \<or> (y = b \<and> g = block_ComputeHash H (hp b))"
    and "core_GetBlock d' g = Inl BlockNotFound"
  shows "hdr_height (hd_of hp y) \<le> hdr_height (hd_of hp x)"
proof -
  let ?i = "core_inserted H hp b d"
  let ?lt = "\<lambda>a b. hdr_height (hd_of hp a) < hdr_height (hd_of hp b)"
  let ?bs = "sort_slice ?lt (range_vals ord (cd_blocks ?i))"
  have fresh: "block_ComputeHash H (hp b) \<notin> gkeys (cd_blocks d)"
    using assms(4) by (auto simp: core_AddBlock_alt split: if_splits)
  have inv: "core_inv H hp ?i"
    using core_inserted_inv [OF assms(1,2) fresh] .
  have x: "gget (cd_blocks d') h = Some x" and g: "gget (cd_blocks d') g = None"
    using assms(5,7) by (simp_all add: core_GetBlock_def split: option.splits)
  have y: "gget (cd_blocks ?i) g = Some y"
    using assms(6) fresh
    by (auto simp: core_GetBlock_def core_inserted_def gkeys_iff split: option.splits)
  then have "d' = core_cleanupOldBlocks H hp ord ?i"
    using g assms(4) fresh by (auto simp: core_AddBlock_alt split: if_splits)
  then obtain n where blocks: "cd_blocks d' = gdel_all (map (\<lambda>b. block_ComputeHash H (hp b)) (take n ?bs)) (cd_blocks ?i)"
    using g y by (auto simp: core_cleanupOldBlocks_def Let_def core_removeBlocks_blocks split: if_splits)
  have "\<not> ?lt x y"
  proof (rule hash_index_removed_below [OF _ blocks x y g], intro conjI)
    show "hash_agrees H hp (cd_blocks ?i)" "range_order ord (cd_blocks ?i)"
      using inv assms(3) by (simp_all add: core_inv_def core_inserted_def)
    show "strict_weak ?lt"
      by (rule strict_weak_key)
  qed
  then show ?thesis
    by simp
qed

text \<open>Under the invariant \<open>GetReferences\<close> does not dereference a nil block: it returns one
  entry per listed child, and each child is a stored block that references the given hash.\<close>

theorem core_GetReferences_total:
  assumes "core_inv H hp d"
  shows "\<exists>rs. core_GetReferences hp d h = Inr rs
    \<and> map ref_hash rs = slice_at (cd_references d) h
    \<and> (\<forall>r \<in> set rs. \<exists>b. core_GetBlock d (ref_hash r) = Inr b
         \<and> h \<in> ref_hash ` set (hdr_references (hd_of hp b)))"
proof -
  have sound: "\<forall>c \<in> set (slice_at (cd_references d) h). \<exists>b. gget (cd_blocks d) c = Some b \<and>
      h \<in> ref_hash ` set (hdr_references (hd_of hp b))"
    using assms by (simp add: core_inv_def references_sound_def)
  then obtain rs where rs: "core_GetReferences hp d h = Inr rs"
      "map ref_hash rs = slice_at (cd_references d) h"
    using core_referencesOf_ok [of "slice_at (cd_references d) h" "cd_blocks d" hp]
    unfolding core_GetReferences_def by (metis option.distinct(1))
  have "\<exists>b. core_GetBlock d (ref_hash r) = Inr b \<and> h \<in> ref_hash ` set (hdr_references (hd_of hp b))"
    if "r \<in> set rs" for r
  proof -
    have "ref_hash r \<in> set (slice_at (cd_references d) h)"
      using that rs(2) by (metis image_eqI set_map)
    then show ?thesis
      using sound by (fastforce simp: core_GetBlock_def)
  qed
  then show ?thesis
    using rs by blast
qed

text \<open>\<open>GetRecentBlocks\<close> with a non-negative count returns the requested number of blocks (or
  all of them), sorted by height, wave, round and validator in descending order, and no
  block left out sorts before one returned; a negative count panics.\<close>

theorem core_GetRecentBlocks_correct:
  assumes "gwf (cd_blocks d)" "range_order ord (cd_blocks d)"
  shows "if n < 0 then core_GetRecentBlocks hp ord d n = Inl SliceBoundsOutOfRange
    else \<exists>bs. core_GetRecentBlocks hp ord d n = Inr bs \<and> recent_of (recent_less hp) (cd_blocks d) n bs"
proof (cases "n < 0")
  case True
  then have "\<not> n > int (length (sort_slice (recent_less hp) (range_vals ord (cd_blocks d))))"
    by linarith
  then show ?thesis
    using True by (simp add: core_GetRecentBlocks_def Let_def go_prefix_def)
next
  case False
  then show ?thesis
    using recent_of_sorted_range [OF assms _ strict_weak_recent_less, of n hp]
    by (simp add: core_GetRecentBlocks_def Let_def)
qed

section \<open>Witnesses\<close>

definition sample_core_dag :: core_dag where
  "sample_core_dag = \<lparr>cd_blocks = [(sample_key 0, 0), (sample_key 1, 1)],
     cd_references = [(sample_key 0, [sample_key 1])], cd_height = 1, cd_maxBlocks = 50\<rparr>"

lemma sample_refs: "refs_distinct (hd_of sample_heap n)"
  by (simp add: refs_distinct_def)

lemma sample_core_add0:
  "core_AddBlock sample_digest sample_heap [] 0 core_NewDAG =
     Inr \<lparr>cd_blocks = [(sample_key 0, 0)], cd_references = [], cd_height = 0, cd_maxBlocks = 50\<rparr>"
  by (simp add: core_AddBlock_alt core_inserted_def core_NewDAG_def core_addReferences_def
      gput_def glen_def)

lemma sample_core_reach: "core_reach sample_digest sample_heap sample_core_dag"
proof (rule reach_add [OF reach_add [OF reach_new sample_refs sample_core_add0] sample_refs])
  have "sample_key (Suc 0) \<noteq> sample_key 0"
    using sample_key_inj [of 1 0] by simp
  then show "core_AddBlock sample_digest sample_heap [] 1
      \<lparr>cd_blocks = [(sample_key 0, 0)], cd_references = [], cd_height = 0, cd_maxBlocks = 50\<rparr> =
    Inr sample_core_dag"
    by (simp add: core_AddBlock_alt core_inserted_def core_addReferences_def sample_core_dag_def gkeys_def
      gput_def glen_def gappend_def)
qed


lemmas sample_core_inv = core_inv_reach [OF sample_core_reach]

lemma sample_core_fresh: "block_ComputeHash sample_digest (sample_heap 2) \<notin> gkeys (cd_blocks sample_core_dag)"
  using sample_key_inj [of 2 0] sample_key_inj [of 2 1] by (simp add: sample_core_dag_def gkeys_def)

lemma sample_core_order:
  "range_order (map fst (gput (sample_key 2) 2 (cd_blocks sample_core_dag)))
     (gput (sample_key 2) 2 (cd_blocks sample_core_dag))"
  using sample_core_inv by (intro range_order_map_fst) (simp add: core_inv_def)


theorem core_GetReferences_total_witness:
  "\<exists>rs. core_GetReferences sample_heap sample_core_dag (sample_key 0) = Inr rs
    \<and> map ref_hash rs = [sample_key 1]"
  using core_GetReferences_total [OF sample_core_inv, of "sample_key 0"]
  by (auto simp: sample_core_dag_def slice_at_def gget_def)

theorem core_GetRecentBlocks_correct_witness:
  "\<exists>bs. core_GetRecentBlocks sample_heap [sample_key 1, sample_key 0] sample_core_dag 1 = Inr bs
    \<and> recent_of (recent_less sample_heap) (cd_blocks sample_core_dag) 1 bs \<and> length bs = 1"
proof -
  have "range_order [sample_key 1, sample_key 0] (cd_blocks sample_core_dag)"
    using sample_key_inj [of 1 0] by (auto simp: range_order_def sample_core_dag_def gkeys_def)
  moreover have "gwf (cd_blocks sample_core_dag)"
    using sample_core_inv by (simp add: core_inv_def)
  ultimately show ?thesis
    using core_GetRecentBlocks_correct [of sample_core_dag "[sample_key 1, sample_key 0]" 1 sample_heap]
    by (auto simp: recent_of_def sample_core_dag_def glen_def)
qed

text \<open>A full DAG of ten sample blocks: adding an eleventh drops the lowest.\<close>

definition sample_full_dag :: core_dag where
  "sample_full_dag = \<lparr>cd_blocks = map (\<lambda>i. (sample_key i, i)) [0..<10],
     cd_references = [], cd_height = 9, cd_maxBlocks = 10\<rparr>"

lemma sample_index_get:
  assumes "n \<le> 100"
  shows "gget (map (\<lambda>i. (sample_key i, i)) [0..<n]) k = Some i \<longleftrightarrow> i < n \<and> k = sample_key i"
  using gget_sample_index [of "[0..<n]" k i] assms by (simp add: sample_index_def subset_iff)

lemma sample_full_inv: "core_inv sample_digest sample_heap sample_full_dag"
proof -
  have "gwf (map (\<lambda>i. (sample_key i, i)) [0..<10])"
    using sample_key_inj_on by (auto simp: gwf_def comp_def distinct_map intro: inj_on_subset)
  moreover have "hash_agrees sample_digest sample_heap (map (\<lambda>i. (sample_key i, i)) [0..<10])"
    by (simp only: hash_agrees_def sample_index_get) simp
  moreover have "heights_bounded sample_heap sample_full_dag"
  proof -
    have "(word_of_nat i :: u64) \<le> 9" if "i < 10" for i
    proof -
      have "unat (word_of_nat i :: u64) = i"
        using that by (intro unat_of_nat_u64) simp
      then show ?thesis
        using that by (simp add: word_le_nat_alt)
    qed
    then show ?thesis
      unfolding heights_bounded_def sample_full_dag_def
      by (simp only: core_dag.simps sample_index_get) simp
  qed
  ultimately show ?thesis
    by (simp only: core_inv_def sample_full_dag_def core_dag.simps)
      (simp add: references_sound_def)
qed

lemma sample_full_range:
  "range_vals (map sample_key [0..<11]) (gput (sample_key 10) 10 (cd_blocks sample_full_dag)) = [0..<11]"
proof -
  have get: "gget (gput (sample_key 10) 10 (cd_blocks sample_full_dag)) (sample_key i) = Some i" if "i < 11" for i
  proof (cases "i = 10")
    case False
    then have "sample_key i \<noteq> sample_key 10" "i < 10"
      using that sample_key_inj [of i 10] by auto
    then show ?thesis
      using sample_index_get [of 10 "sample_key i" i] by (simp add: sample_full_dag_def)
  qed simp
  have "range_vals (map sample_key xs) (gput (sample_key 10) 10 (cd_blocks sample_full_dag)) = xs"
    if "\<forall>i \<in> set xs. i < 11" for xs
    using that by (induction xs) (auto simp: get simp del: gget_gput)
  then show ?thesis
    by simp
qed

lemma sample_full_order:
  "range_order (map sample_key [0..<11]) (gput (sample_key 10) 10 (cd_blocks sample_full_dag))"
proof -
  have "distinct (map sample_key [0..<11])"
    using sample_key_inj_on by (auto simp: distinct_map intro: inj_on_subset)
  moreover have "set [0..<11] = insert (10 :: nat) (set [0..<10])"
    by auto
  then have "set (map sample_key [0..<11]) = insert (sample_key 10) (sample_key ` set [0..<10])"
    by (simp only: set_map image_insert)
  moreover have "gkeys (cd_blocks sample_full_dag) = sample_key ` set [0..<10]"
    unfolding gkeys_def sample_full_dag_def by (simp only: core_dag.simps set_map image_image fst_conv)
  ultimately show ?thesis
    unfolding range_order_def gkeys_gput by metis
qed

lemma sample_full_fresh: "sample_key 10 \<notin> gkeys (cd_blocks sample_full_dag)"
proof -
  have "sample_key 10 \<noteq> sample_key i" if "i < 10" for i
    using that sample_key_inj [of 10 i] by auto
  moreover have "gkeys (cd_blocks sample_full_dag) = sample_key ` {..<10}"
    unfolding gkeys_def sample_full_dag_def
    by (simp only: core_dag.simps set_map image_image fst_conv set_upt atLeast0LessThan)
  ultimately show ?thesis
    by auto
qed

lemma sample_full_sorted:
  "sort_slice (\<lambda>a b. hdr_height (hd_of sample_heap a) < hdr_height (hd_of sample_heap b)) [0..<11] = [0..<11]"
  by (rule sort_slice_id) (simp add: sorted_by_def upt_rec)

lemma sample_full_add:
  "\<exists>d'. core_AddBlock sample_digest sample_heap (map sample_key [0..<11]) 10 sample_full_dag = Inr d'
     \<and> cd_blocks d' = gdel (sample_key 0) (gput (sample_key 10) 10 (cd_blocks sample_full_dag))"
proof -
  let ?i = "core_inserted sample_digest sample_heap 10 sample_full_dag"
  have blocks: "cd_blocks ?i = gput (sample_key 10) 10 (cd_blocks sample_full_dag)"
    by (simp add: core_inserted_def)
  have max: "cd_maxBlocks ?i = 10" "cd_maxBlocks sample_full_dag = 10"
    by (simp_all add: core_inserted_def sample_full_dag_def)
  have len: "glen (gput (sample_key 10) 10 (cd_blocks sample_full_dag)) = 11"
  proof -
    have "gwf (cd_blocks sample_full_dag)" "glen (cd_blocks sample_full_dag) = 10"
      using sample_full_inv by (simp_all add: core_inv_def) (simp add: glen_def sample_full_dag_def)
    then show ?thesis
      using sample_full_fresh by (simp add: glen_gput)
  qed
  have clean: "core_cleanupOldBlocks sample_digest sample_heap (map sample_key [0..<11]) ?i =
      core_removeBlock sample_digest sample_heap 0 ?i"
    unfolding core_cleanupOldBlocks_def Let_def blocks sample_full_range sample_full_sorted max
    by (simp add: upt_rec)
  have "core_AddBlock sample_digest sample_heap (map sample_key [0..<11]) 10 sample_full_dag =
      Inr (core_removeBlock sample_digest sample_heap 0 ?i)"
    unfolding core_AddBlock_alt blocks clean using sample_full_fresh len max by simp
  moreover have "cd_blocks (core_removeBlock sample_digest sample_heap 0 ?i) = gdel (sample_key 0) (cd_blocks ?i)"
    by (simp add: core_removeBlock_def Let_def)
  ultimately show ?thesis
    using blocks by auto
qed

theorem core_AddBlock_keeps_highest_witness:
  "\<exists>d'. core_AddBlock sample_digest sample_heap (map sample_key [0..<11]) 10 sample_full_dag = Inr d'
     \<and> core_GetBlock d' (sample_key 0) = Inl BlockNotFound
     \<and> core_GetBlock d' (sample_key 10) = Inr 10
     \<and> hdr_height (hd_of sample_heap 0) \<le> hdr_height (hd_of sample_heap 10)"
proof -
  obtain d' where d': "core_AddBlock sample_digest sample_heap (map sample_key [0..<11]) 10 sample_full_dag = Inr d'"
      "cd_blocks d' = gdel (sample_key 0) (gput (sample_key 10) 10 (cd_blocks sample_full_dag))"
    using sample_full_add by blast
  have ne: "sample_key 10 \<noteq> sample_key 0"
    using sample_key_inj [of 10 0] by simp
  have gone: "core_GetBlock d' (sample_key 0) = Inl BlockNotFound"
      and kept: "core_GetBlock d' (sample_key 10) = Inr 10"
    using d'(2) ne by (simp_all add: core_GetBlock_def)
  have old: "core_GetBlock sample_full_dag (sample_key 0) = Inr 0"
    using sample_index_get [of 10 "sample_key 0" 0] by (simp add: core_GetBlock_def sample_full_dag_def)
  have "hdr_height (hd_of sample_heap 0) \<le> hdr_height (hd_of sample_heap 10)"
    using core_AddBlock_keeps_highest [OF sample_full_inv sample_refs _ d'(1) kept _ gone] old sample_full_order
    by simp
  then show ?thesis
    using d'(1) gone kept by blast
qed

end
