(* ===== verification/Dag_Store.thy ===== *)
theory Dag_Store
  imports Core_Dag
begin

text \<open>
  \<open>internal/dag/dag.go\<close>: the DAG of the transport layer.  It has the fields of
  \<open>core.DAG\<close> but other operations: an insertion overwrites, \<open>height\<close> counts the
  insertions, and every insertion trims the store to the five highest blocks.
\<close>

section \<open>State and operations\<close>

record dag_store =
  ds_blocks :: "(hash, bref) gomap"
  ds_references :: "(hash, hash list) gomap"
  ds_height :: u64
  ds_maxBlocks :: int

definition dag_NewDAG :: dag_store where
  "dag_NewDAG = \<lparr>ds_blocks = [], ds_references = [], ds_height = 0, ds_maxBlocks = 20\<rparr>"

definition dag_cleanupOldBlocks ::
  "header_digest \<Rightarrow> block_heap \<Rightarrow> hash list \<Rightarrow> dag_store \<Rightarrow> dag_store" where
  "dag_cleanupOldBlocks H hp ord d =
     (let blocks = sort_slice (\<lambda>a b. hdr_height (hd_of hp a) < hdr_height (hd_of hp b))
                     (range_vals ord (ds_blocks d));
          blocksToRemove = int (length blocks) - 5
      in if blocksToRemove \<le> 0 then d
         else let hs = map (\<lambda>b. block_ComputeHash H (hp b)) (take (nat blocksToRemove) blocks)
              in d\<lparr>ds_blocks := gdel_all hs (ds_blocks d),
                   ds_references := gdel_all hs (ds_references d)\<rparr>)"

definition dag_AddBlock ::
  "header_digest \<Rightarrow> block_heap \<Rightarrow> hash list \<Rightarrow> bref \<Rightarrow> dag_store \<Rightarrow> dag_store" where
  "dag_AddBlock H hp ord b d =
     (let h = block_ComputeHash H (hp b);
          d1 = d\<lparr>ds_blocks := gput h b (ds_blocks d), ds_height := ds_height d + 1,
                 ds_references := fold (\<lambda>r m. gappend (ref_hash r) h m)
                   (hdr_references (hd_of hp b)) (ds_references d)\<rparr>
      in if glen (ds_blocks d1) > 5 then dag_cleanupOldBlocks H hp ord d1 else d1)"

definition dag_SetMaxBlocks :: "int \<Rightarrow> dag_store \<Rightarrow> dag_store" where
  "dag_SetMaxBlocks n d = d\<lparr>ds_maxBlocks := n\<rparr>"

definition dag_GetBlock :: "dag_store \<Rightarrow> hash \<Rightarrow> dag_error + bref" where
  "dag_GetBlock d h = (case gget (ds_blocks d) h of None \<Rightarrow> Inl BlockNotFound | Some b \<Rightarrow> Inr b)"

definition dag_GetRecentBlocks ::
  "block_heap \<Rightarrow> hash list \<Rightarrow> dag_store \<Rightarrow> int \<Rightarrow> go_panic + bref list" where
  "dag_GetRecentBlocks hp ord d cnt =
     (let blocks = sort_slice (recent_less hp) (range_vals ord (ds_blocks d));
          n = (if cnt > int (length blocks) then int (length blocks) else cnt)
      in go_prefix blocks n)"

definition dag_GetBlocksByHeight :: "block_heap \<Rightarrow> hash list \<Rightarrow> dag_store \<Rightarrow> u64 \<Rightarrow> bref list" where
  "dag_GetBlocksByHeight hp ord d height =
     filter (\<lambda>b. hdr_height (hd_of hp b) = height) (range_vals ord (ds_blocks d))"

definition dag_GetBlockCount :: "dag_store \<Rightarrow> nat" where
  "dag_GetBlockCount d = glen (ds_blocks d)"

definition dag_GetHeight :: "dag_store \<Rightarrow> u64" where
  "dag_GetHeight d = ds_height d"

section \<open>Invariant\<close>

definition dag_inv :: "header_digest \<Rightarrow> block_heap \<Rightarrow> dag_store \<Rightarrow> bool" where
  "dag_inv H hp d = (gwf (ds_blocks d) \<and> gwf (ds_references d) \<and> hash_agrees H hp (ds_blocks d))"

inductive dag_reach :: "header_digest \<Rightarrow> block_heap \<Rightarrow> dag_store \<Rightarrow> bool" for H hp where
  dag_reach_new: "dag_reach H hp dag_NewDAG"
| dag_reach_add: "dag_reach H hp d \<Longrightarrow>
    range_order ord (gput (block_ComputeHash H (hp b)) b (ds_blocks d)) \<Longrightarrow>
    dag_reach H hp (dag_AddBlock H hp ord b d)"
| dag_reach_max: "dag_reach H hp d \<Longrightarrow> dag_reach H hp (dag_SetMaxBlocks n d)"

section \<open>Lemmas\<close>

lemma gwf_fold_gappend [simp]: "gwf m \<Longrightarrow> gwf (fold (\<lambda>r m. gappend (f r) h m) rs m)"
  by (induction rs arbitrary: m) auto

lemma hash_agrees_gput:
  "hash_agrees H hp m \<Longrightarrow> hash_agrees H hp (gput (block_ComputeHash H (hp b)) b m)"
  by (simp add: hash_agrees_def)

lemma hash_agrees_gdel_all: "hash_agrees H hp m \<Longrightarrow> hash_agrees H hp (gdel_all ks m)"
  by (simp add: hash_agrees_def)

lemma dag_cleanup_inv: "dag_inv H hp d \<Longrightarrow> dag_inv H hp (dag_cleanupOldBlocks H hp ord d)"
  by (simp add: dag_inv_def dag_cleanupOldBlocks_def Let_def hash_agrees_gdel_all)

lemma dag_AddBlock_inv: "dag_inv H hp d \<Longrightarrow> dag_inv H hp (dag_AddBlock H hp ord b d)"
  unfolding dag_AddBlock_def Let_def
  by (auto intro!: dag_cleanup_inv) (simp_all add: dag_inv_def hash_agrees_gput)

lemma dag_cleanup_get:
  "gget (ds_blocks (dag_cleanupOldBlocks H hp ord d)) h = Some x \<Longrightarrow> gget (ds_blocks d) h = Some x"
  by (auto simp: dag_cleanupOldBlocks_def Let_def split: if_splits)

lemma dag_AddBlock_get:
  "gget (ds_blocks (dag_AddBlock H hp ord b d)) h = Some x \<Longrightarrow>
     gget (ds_blocks d) h = Some x \<or> (x = b \<and> h = block_ComputeHash H (hp b))"
  by (auto simp: dag_AddBlock_def Let_def split: if_splits dest!: dag_cleanup_get)

lemma dag_reach_inv: "dag_reach H hp d \<Longrightarrow> dag_inv H hp d"
  by (induction rule: dag_reach.induct)
    (simp_all add: dag_AddBlock_inv, simp_all add: dag_inv_def dag_NewDAG_def hash_agrees_def dag_SetMaxBlocks_def)

interpretation dag_index: block_index "\<lambda>d. gget (ds_blocks d)"
  "\<lambda>b d d'. \<exists>ord. d' = dag_AddBlock H hp ord b d" "dag_inv H hp"
  "\<lambda>b. block_ComputeHash H (hp b)" dag_NewDAG for H hp
proof
  show "dag_inv H hp dag_NewDAG"
    by (rule dag_reach_inv [OF dag_reach_new])
  show "gget (ds_blocks dag_NewDAG) h = None" for h
    by (simp add: dag_NewDAG_def)
qed (auto simp: dag_AddBlock_inv dest: dag_AddBlock_get)

lemma dag_cleanup_size:
  assumes "gwf (ds_blocks d)" "hash_agrees H hp (ds_blocks d)" "range_order ord (ds_blocks d)"
  shows "glen (ds_blocks (dag_cleanupOldBlocks H hp ord d)) = min (glen (ds_blocks d)) 5"
proof -
  have "length (range_vals ord (ds_blocks d)) = glen (ds_blocks d)"
    using assms by (simp add: length_range_vals)
  then show ?thesis
    unfolding dag_cleanupOldBlocks_def Let_def by (auto simp: glen_gdel_sorted [OF assms])
qed

lemma dag_AddBlock_size:
  assumes "dag_inv H hp d" "range_order ord (gput (block_ComputeHash H (hp b)) b (ds_blocks d))"
  shows "dag_GetBlockCount (dag_AddBlock H hp ord b d) =
    min 5 (glen (gput (block_ComputeHash H (hp b)) b (ds_blocks d)))"
  using assms by (simp add: dag_GetBlockCount_def dag_AddBlock_def Let_def dag_cleanup_size dag_inv_def hash_agrees_gput)

section \<open>Properties\<close>

text \<open>While no stored header is written through, the transport's DAG never holds more than
  five blocks, and every block it returns was inserted under its own hash.\<close>

theorem dag_store_bounded:
  assumes "dag_reach H hp d"
  shows "dag_GetBlockCount d \<le> 5 \<and>
    (\<forall>h b. dag_GetBlock d h = Inr b \<longrightarrow> block_ComputeHash H (hp b) = h)"
proof
  show "dag_GetBlockCount d \<le> 5"
    using assms
  proof (induction rule: dag_reach.induct)
    case (dag_reach_add d ord b)
    then show ?case
      by (simp add: dag_AddBlock_size [OF dag_reach_inv])
  qed (simp_all add: dag_GetBlockCount_def dag_NewDAG_def dag_SetMaxBlocks_def)
  show "\<forall>h b. dag_GetBlock d h = Inr b \<longrightarrow> block_ComputeHash H (hp b) = h"
    using dag_reach_inv [OF assms]
    by (auto simp: dag_inv_def hash_agrees_def dag_GetBlock_def split: option.splits)
qed

text \<open>The bound rests on the headers staying as they were: once the current hash of every
  stored block differs from all keys (as after a write to \<open>Header.Wave\<close>), \<open>AddBlock\<close> deletes
  none of them.  All old entries stay, so the store grows without bound.\<close>

theorem dag_store_leaks_after_mutation:
  assumes "\<forall>h b. gget (ds_blocks d) h = Some b \<longrightarrow>
      block_ComputeHash H (hp b) \<notin> insert (block_ComputeHash H (hp x)) (gkeys (ds_blocks d))"
    and "dag_GetBlock d h = Inr b" "h \<noteq> block_ComputeHash H (hp x)"
  shows "dag_GetBlock (dag_AddBlock H hp ord x d) h = Inr b"
proof -
  let ?k = "block_ComputeHash H (hp x)"
  have b: "gget (ds_blocks d) h = Some b"
    using assms(2) by (simp add: dag_GetBlock_def split: option.splits)
  have "block_ComputeHash H (hp v) \<noteq> h" if "v \<in> set (range_vals ord (gput ?k x (ds_blocks d)))" for v
  proof -
    from that obtain k where "gget (gput ?k x (ds_blocks d)) k = Some v"
      by (auto simp: set_range_vals)
    then have "v = x \<or> gget (ds_blocks d) k = Some v"
      by (simp split: if_splits)
    then consider "v = x" | "gget (ds_blocks d) k = Some v"
      by blast
    then show ?thesis
    proof cases
      case 2
      have "h \<in> gkeys (ds_blocks d)"
        using b by (simp add: gkeys_iff)
      then show ?thesis
        using assms(1) 2 by blast
    qed (use assms(3) in simp)
  qed
  then have "h \<notin> set (map (\<lambda>b. block_ComputeHash H (hp b))
      (take n (sort_slice lt (range_vals ord (gput ?k x (ds_blocks d))))))" for n lt
    using set_take_subset by fastforce
  then show ?thesis
    using b assms(3)
    by (auto simp: dag_GetBlock_def dag_AddBlock_def dag_cleanupOldBlocks_def Let_def)
qed

text \<open>\<open>AddBlock\<close> can drop the block it was given: on a full store a block that is lower than
  all stored ones is evicted by the clean-up of its own insertion, although \<open>AddBlock\<close> reports
  success.\<close>

theorem dag_AddBlock_may_evict_new:
  assumes "dag_inv H hp d" "dag_GetBlockCount d = 5"
    and "block_ComputeHash H (hp x) \<notin> gkeys (ds_blocks d)"
    and "range_order ord (gput (block_ComputeHash H (hp x)) x (ds_blocks d))"
    and "\<forall>h b. gget (ds_blocks d) h = Some b \<longrightarrow> hdr_height (hd_of hp x) < hdr_height (hd_of hp b)"
  shows "dag_GetBlock (dag_AddBlock H hp ord x d) (block_ComputeHash H (hp x)) = Inl BlockNotFound"
proof -
  let ?m = "gput (block_ComputeHash H (hp x)) x (ds_blocks d)"
  let ?lt = "\<lambda>a b. hdr_height (hd_of hp a) < hdr_height (hd_of hp b)"
  let ?s = "sort_slice ?lt (range_vals ord ?m)"
  have len: "glen ?m = 6"
    using assms by (simp add: glen_gput dag_inv_def dag_GetBlockCount_def)
  then have l6: "length (range_vals ord ?m) = 6"
    using assms by (simp add: length_range_vals dag_inv_def)
  have "x \<in> set ?s"
    using assms(4) by (auto simp: set_range_vals range_order_def)
  then obtain i where i: "i < length ?s" "?s ! i = x"
    unfolding in_set_conv_nth by blast
  have "i = 0"
  proof (rule ccontr)
    assume "i \<noteq> 0"
    have "sorted_by ?lt ?s"
      by (rule sorted_by_sort_slice) (rule strict_weak_key)
    from sorted_by_nthD [OF this _ i(1), of 0] \<open>i \<noteq> 0\<close>
    have low: "\<not> ?lt (?s ! i) (?s ! 0)"
      by simp
    have "?s ! 0 \<in> set ?s"
      by (rule nth_mem) (use i(1) in linarith)
    then have "?s ! 0 = x \<or> (\<exists>h. gget (ds_blocks d) h = Some (?s ! 0))"
      by (auto simp: set_range_vals split: if_splits)
    moreover have "?s ! 0 \<noteq> x"
    proof -
      have "distinct (map (\<lambda>b. block_ComputeHash H (hp b)) (range_vals ord ?m))"
        using assms by (intro hash_agrees_distinct hash_agrees_gput) (simp_all add: dag_inv_def)
      then have dist: "distinct ?s"
        by (simp add: distinct_map)
      have "0 < length ?s"
        using i(1) by linarith
      from nth_eq_iff_index_eq [OF dist this i(1)] show ?thesis
        using i(2) \<open>i \<noteq> 0\<close> by simp
    qed
    ultimately show False
      using low i assms(5) by auto
  qed
  then have "take 1 ?s = [x]"
    using i by (cases ?s) auto
  then show ?thesis
    using len l6 by (auto simp: dag_GetBlock_def dag_AddBlock_def dag_cleanupOldBlocks_def Let_def)
qed

section \<open>Witnesses\<close>

theorem dag_store_bounded_witness:
  "dag_reach sample_digest sample_heap (dag_AddBlock sample_digest sample_heap [sample_key 0] 0 dag_NewDAG)
   \<and> dag_GetBlockCount (dag_AddBlock sample_digest sample_heap [sample_key 0] 0 dag_NewDAG) \<le> 5"
proof -
  have "dag_reach sample_digest sample_heap (dag_AddBlock sample_digest sample_heap [sample_key 0] 0 dag_NewDAG)"
    by (rule dag_reach_add [OF dag_reach_new]) (simp add: range_order_def dag_NewDAG_def)
  then show ?thesis
    using dag_store_bounded by blast
qed

text \<open>A store whose only block was written through after its insertion under the key \<open>[9]\<close>.\<close>

definition sample_mutated_store :: dag_store where
  "sample_mutated_store = \<lparr>ds_blocks = [([9], 0)], ds_references = [], ds_height = 1, ds_maxBlocks = 20\<rparr>"

theorem dag_store_leaks_after_mutation_witness:
  "dag_GetBlock (dag_AddBlock sample_digest sample_heap [] 1 sample_mutated_store) [9] = Inr 0"
proof (rule dag_store_leaks_after_mutation)
  have k9: "sample_key n \<noteq> [9]" for n
    by (rule notI, drule arg_cong [of _ _ length]) (simp add: sample_key_def)
  then show "[9] \<noteq> block_ComputeHash sample_digest (sample_heap 1)"
    by (metis sample_hash)
  have "sample_key 0 \<noteq> sample_key 1"
    using sample_key_inj [of 0 1] by simp
  then show "\<forall>h b. gget (ds_blocks sample_mutated_store) h = Some b \<longrightarrow>
      block_ComputeHash sample_digest (sample_heap b) \<notin>
        insert (block_ComputeHash sample_digest (sample_heap 1)) (gkeys (ds_blocks sample_mutated_store))"
    using k9 by (auto simp: sample_mutated_store_def gget_def gkeys_def split: if_splits)
qed (simp add: sample_mutated_store_def dag_GetBlock_def gget_def)

definition sample_store :: dag_store where
  "sample_store = \<lparr>ds_blocks = sample_index [1, 2, 3, 4, 5], ds_references = [], ds_height = 5,
     ds_maxBlocks = 20\<rparr>"

theorem dag_AddBlock_may_evict_new_witness:
  "dag_GetBlock (dag_AddBlock sample_digest sample_heap (map sample_key [0, 1, 2, 3, 4, 5]) 0 sample_store)
     (block_ComputeHash sample_digest (sample_heap 0)) = Inl BlockNotFound"
proof (rule dag_AddBlock_may_evict_new)
  have get: "gget (ds_blocks sample_store) h = Some b \<longleftrightarrow> b \<in> {1, 2, 3, 4, 5} \<and> h = sample_key b" for h b
    by (simp add: sample_store_def gget_sample_index)
  show "dag_inv sample_digest sample_heap sample_store"
    unfolding dag_inv_def hash_agrees_def get by (simp add: sample_store_def gwf_sample_index)
  show "\<forall>h b. gget (ds_blocks sample_store) h = Some b \<longrightarrow>
      hdr_height (hd_of sample_heap 0) < hdr_height (hd_of sample_heap b)"
    unfolding get by auto
  have new: "sample_key 0 \<noteq> sample_key i" if "i \<in> {1, 2, 3, 4, 5}" for i
    using that sample_key_inj [of 0 i] by auto
  show "block_ComputeHash sample_digest (sample_heap 0) \<notin> gkeys (ds_blocks sample_store)"
    using new by (auto simp: sample_store_def gkeys_sample_index)
  show "range_order (map sample_key [0, 1, 2, 3, 4, 5])
      (gput (block_ComputeHash sample_digest (sample_heap 0)) 0 (ds_blocks sample_store))"
    using distinct_sample_keys [of "[0, 1, 2, 3, 4, 5]"]
    by (simp add: range_order_def sample_store_def gkeys_sample_index)
qed (simp add: dag_GetBlockCount_def sample_store_def glen_sample_index)

end
