(* ===== verification/Dag_Transport.thy ===== *)
theory Dag_Transport
  imports Dag_Store
begin

text \<open>
  \<open>internal/dag/dag_transport.go\<close>: the transport advances DAG rounds on a ticker,
  takes blocks from a channel of capacity 100, stores them in its DAG and keeps the
  blocks of recent rounds to reference them.  The event loop \<open>runDAGTransport\<close> is the
  step relation \<open>transport_step\<close>.  Round numbers are \<open>uint64\<close>, and \<open>round-3\<close> and
  \<open>currentRound-2\<close> wrap around below zero.
\<close>

section \<open>State and operations\<close>

record dag_transport =
  dt_dag :: dag_store
  dt_currentRound :: u64
  dt_roundDuration :: int
  dt_blockBroadcast :: "bref list"
  dt_recentBlocks :: "(u64, bref list) gomap"

definition NewDAGTransport :: "dag_store \<Rightarrow> int \<Rightarrow> dag_transport" where
  "NewDAGTransport d dur = \<lparr>dt_dag = d, dt_currentRound = 0, dt_roundDuration = dur,
     dt_blockBroadcast = [], dt_recentBlocks = []\<rparr>"

text \<open>A send on the buffered channel; a full channel drops the block.\<close>

definition transport_BroadcastBlock :: "bref \<Rightarrow> dag_transport \<Rightarrow> dag_transport" where
  "transport_BroadcastBlock b dt =
     (if length (dt_blockBroadcast dt) < 100
      then dt\<lparr>dt_blockBroadcast := dt_blockBroadcast dt @ [b]\<rparr> else dt)"

definition getDAGReferences ::
  "header_digest \<Rightarrow> block_heap \<Rightarrow> dag_transport \<Rightarrow> u64 \<Rightarrow> reference list" where
  "getDAGReferences H hp dt currentRound =
     (if currentRound = 0 then []
      else map (\<lambda>b. \<lparr>ref_hash = block_ComputeHash H (hp b), ref_round = hdr_round (hd_of hp b),
                     ref_wave = hdr_wave (hd_of hp b), ref_type = ReferenceTypeStandard\<rparr>)
             (take 5 (slice_at (dt_recentBlocks dt) (currentRound - 1))))"

definition CreateDAGBlock ::
  "header_digest \<Rightarrow> block_heap \<Rightarrow> int \<Rightarrow> address \<Rightarrow> tref list \<Rightarrow> dag_transport \<Rightarrow> block" where
  "CreateDAGBlock H hp now validator txs dt =
     \<lparr>blk_header = \<lparr>hdr_version = 1, hdr_time = now, hdr_round = dt_currentRound dt, hdr_wave = 0,
        hdr_height = dag_GetHeight (dt_dag dt) + 1, hdr_parent = [],
        hdr_references = getDAGReferences H hp dt (dt_currentRound dt), hdr_state_root = [],
        hdr_validator = validator,
        hdr_signature = \<lparr>sig_validator = [], sig_bytes = [], sig_time = 0\<rparr>\<rparr>,
      blk_body = Some \<lparr>body_txs = txs, body_receipts = [], body_events = []\<rparr>,
      blk_certificate = None, blk_original_hash = []\<rparr>"

definition processDAGBlock ::
  "header_digest \<Rightarrow> block_heap \<Rightarrow> hash list \<Rightarrow> bref \<Rightarrow> dag_transport \<Rightarrow> dag_transport" where
  "processDAGBlock H hp ord b dt =
     (let round = hdr_round (hd_of hp b);
          appended = gappend round b (dt_recentBlocks dt);
          cleaned = gfilter (\<lambda>r _. \<not> r < round - 3) appended;
          blocks = slice_at cleaned round;
          limited = (if length blocks > 5 then gput round (drop (length blocks - 5) blocks) cleaned
                     else cleaned)
      in dt\<lparr>dt_dag := dag_AddBlock H hp ord b (dt_dag dt), dt_recentBlocks := limited\<rparr>)"

definition advanceDAGRound :: "dag_transport \<Rightarrow> dag_transport" where
  "advanceDAGRound dt = dt\<lparr>dt_currentRound := dt_currentRound dt + 1\<rparr>"

definition GetCurrentDAGRound :: "dag_transport \<Rightarrow> u64" where
  "GetCurrentDAGRound dt = dt_currentRound dt"

text \<open>\<open>for r := currentRound; r > 0 && r >= currentRound-2; r-- { ... }\<close>.\<close>

function uncommitted_loop :: "(u64, bref list) gomap \<Rightarrow> u64 \<Rightarrow> u64 \<Rightarrow> bref list" where
  "uncommitted_loop recent cur r =
     (if r > 0 \<and> r \<ge> cur - 2 then slice_at recent r @ uncommitted_loop recent cur (r - 1) else [])"
  by auto
termination
  by (relation "measure (\<lambda>(_, _, r). unat r)") (auto simp: unat_minus_one word_greater_zero_iff unat_gt_0)

declare uncommitted_loop.simps [simp del]

definition GetUncommittedBlocks :: "dag_transport \<Rightarrow> bref list" where
  "GetUncommittedBlocks dt =
     uncommitted_loop (dt_recentBlocks dt) (dt_currentRound dt) (dt_currentRound dt)"

definition transport_GetBlock :: "dag_transport \<Rightarrow> hash \<Rightarrow> dag_error + bref" where
  "transport_GetBlock dt h = dag_GetBlock (dt_dag dt) h"

text \<open>The blocks that the references of a block resolve to.\<close>

definition causal_children :: "block_heap \<Rightarrow> dag_store \<Rightarrow> bref \<Rightarrow> bref list" where
  "causal_children hp d b =
     List.map_filter (\<lambda>r. case dag_GetBlock d (ref_hash r) of Inl _ \<Rightarrow> None | Inr x \<Rightarrow> Some x)
       (hdr_references (hd_of hp b))"

text \<open>The recursive closure \<open>traverse\<close> of \<open>GetBlocksInCausalHistory\<close>, with its call stack made
  explicit: the children of a visited block are traversed before the blocks below it.\<close>

lemma in_causal_children:
  "c \<in> set (causal_children hp d b) \<longleftrightarrow>
     (\<exists>r \<in> set (hdr_references (hd_of hp b)). dag_GetBlock d (ref_hash r) = Inr c)"
  by (simp add: causal_children_def in_set_map_filter)

lemma causal_children_stored:
  assumes "c \<in> set (causal_children hp d b)"
  shows "c \<in> snd ` set (ds_blocks d)"
proof -
  obtain h where "map_of (ds_blocks d) h = Some c"
    using assms by (auto simp: in_causal_children dag_GetBlock_def gget_def split: option.splits)
  then show ?thesis
    by (force dest: map_of_SomeD)
qed

function causal_traverse ::
  "header_digest \<Rightarrow> block_heap \<Rightarrow> dag_store \<Rightarrow> bref list \<Rightarrow> hash list \<Rightarrow> bref list \<Rightarrow> bref list" where
  "causal_traverse H hp d [] visited result = result"
| "causal_traverse H hp d (b # stack) visited result =
     (let h = block_ComputeHash H (hp b)
      in if h \<in> set visited then causal_traverse H hp d stack visited result
         else causal_traverse H hp d (causal_children hp d b @ stack) (h # visited) (result @ [b]))"
  by pat_completeness auto
termination
proof (relation "(\<lambda>(H, hp, d, stack, visited, result).
    card ((\<lambda>b. block_ComputeHash H (hp b)) ` (snd ` set (ds_blocks d) \<union> set stack) - set visited))
    <*mlex*> measure (\<lambda>(H, hp, d, stack, visited, result). length stack)", goal_cases)
  case 1
  show ?case
    by (intro wf_mlex) simp
next
  case (2 H hp d b stack visited result h)
  show ?case
  proof (rule mlex_leq)
    show "(case (H, hp, d, stack, visited, result) of (H, hp, d, stack, visited, result) \<Rightarrow>
        card ((\<lambda>b. block_ComputeHash H (hp b)) ` (snd ` set (ds_blocks d) \<union> set stack) - set visited))
      \<le> (case (H, hp, d, b # stack, visited, result) of (H, hp, d, stack, visited, result) \<Rightarrow>
        card ((\<lambda>b. block_ComputeHash H (hp b)) ` (snd ` set (ds_blocks d) \<union> set stack) - set visited))"
      by (auto intro!: card_mono)
  qed simp
next
  case (3 H hp d b stack visited result h)
  let ?f = "\<lambda>b. block_ComputeHash H (hp b)"
  have "?f ` (snd ` set (ds_blocks d) \<union> set (causal_children hp d b @ stack)) - set (h # visited)
      \<subset> ?f ` (snd ` set (ds_blocks d) \<union> set (b # stack)) - set visited"
    using 3 causal_children_stored [of _ hp d b] by fastforce
  then show ?case
    by (intro mlex_less) (simp add: psubset_card_mono)
qed

definition GetBlocksInCausalHistory ::
  "header_digest \<Rightarrow> block_heap \<Rightarrow> dag_transport \<Rightarrow> bref list \<Rightarrow> bref list" where
  "GetBlocksInCausalHistory H hp dt topBlocks = causal_traverse H hp (dt_dag dt) topBlocks [] []"

section \<open>The event loop\<close>

text \<open>\<open>runDAGTransport\<close> with the sends of \<open>BroadcastBlock\<close>: a tick, a received block, a send.\<close>

inductive transport_step :: "header_digest \<Rightarrow> block_heap \<Rightarrow> dag_transport \<Rightarrow> dag_transport \<Rightarrow> bool"
  for H hp where
  step_tick: "transport_step H hp dt (advanceDAGRound dt)"
| step_send: "transport_step H hp dt (transport_BroadcastBlock b dt)"
| step_receive: "dt_blockBroadcast dt = b # q \<Longrightarrow>
    transport_step H hp dt (processDAGBlock H hp ord b (dt\<lparr>dt_blockBroadcast := q\<rparr>))"

inductive transport_reach :: "header_digest \<Rightarrow> block_heap \<Rightarrow> dag_transport \<Rightarrow> bool" for H hp where
  transport_start: "transport_reach H hp (NewDAGTransport dag_NewDAG dur)"
| transport_more: "transport_reach H hp dt \<Longrightarrow> transport_step H hp dt dt' \<Longrightarrow> transport_reach H hp dt'"

text \<open>At most five blocks are kept per round, each of that round; the channel holds at most 100.\<close>

definition transport_inv :: "header_digest \<Rightarrow> block_heap \<Rightarrow> dag_transport \<Rightarrow> bool" where
  "transport_inv H hp dt = (gwf (dt_recentBlocks dt) \<and> dag_inv H hp (dt_dag dt) \<and>
     length (dt_blockBroadcast dt) \<le> 100 \<and>
     (\<forall>r. length (slice_at (dt_recentBlocks dt) r) \<le> 5 \<and>
       (\<forall>b \<in> set (slice_at (dt_recentBlocks dt) r). hdr_round (hd_of hp b) = r)))"

section \<open>Lemmas\<close>

lemma slice_at_gfilter:
  "gwf m \<Longrightarrow> slice_at (gfilter (\<lambda>r _. P r) m) k = (if P k then slice_at m k else [])"
  by (simp add: slice_at_def gget_gfilter split: option.split)

lemma processDAGBlock_recent:
  assumes "gwf (dt_recentBlocks dt)"
  shows "slice_at (dt_recentBlocks (processDAGBlock H hp ord b dt)) r =
    (let round = hdr_round (hd_of hp b)
     in if r < round - 3 then []
        else if r = round then (let bs = slice_at (dt_recentBlocks dt) r @ [b] in drop (length bs - 5) bs)
        else slice_at (dt_recentBlocks dt) r)"
  using assms by (auto simp: processDAGBlock_def Let_def slice_at_gfilter)

lemma processDAGBlock_inv:
  assumes "transport_inv H hp dt"
  shows "transport_inv H hp (processDAGBlock H hp ord b dt)"
proof -
  have "gwf (dt_recentBlocks (processDAGBlock H hp ord b dt))"
    using assms by (simp add: transport_inv_def processDAGBlock_def Let_def)
  moreover have "length (slice_at (dt_recentBlocks (processDAGBlock H hp ord b dt)) r) \<le> 5 \<and>
      (\<forall>x \<in> set (slice_at (dt_recentBlocks (processDAGBlock H hp ord b dt)) r). hdr_round (hd_of hp x) = r)" for r
    using assms
    by (auto simp: processDAGBlock_recent transport_inv_def Let_def dest!: in_set_dropD)
  moreover have "dag_inv H hp (dt_dag (processDAGBlock H hp ord b dt))"
    "length (dt_blockBroadcast (processDAGBlock H hp ord b dt)) \<le> 100"
    using assms by (simp_all add: transport_inv_def processDAGBlock_def Let_def dag_AddBlock_inv)
  ultimately show ?thesis
    by (simp add: transport_inv_def)
qed

lemma transport_step_inv:
  assumes "transport_step H hp dt dt'" "transport_inv H hp dt"
  shows "transport_inv H hp dt'"
  using assms
proof (induction rule: transport_step.induct)
  case (step_receive dt b q ord)
  then have "transport_inv H hp (dt\<lparr>dt_blockBroadcast := q\<rparr>)"
    by (simp add: transport_inv_def)
  then show ?case
    by (rule processDAGBlock_inv)
qed (simp_all add: transport_inv_def advanceDAGRound_def transport_BroadcastBlock_def)

lemma transport_reach_inv: "transport_reach H hp dt \<Longrightarrow> transport_inv H hp dt"
proof (induction rule: transport_reach.induct)
  case (transport_start dur)
  then show ?case
    by (simp add: transport_inv_def NewDAGTransport_def dag_reach_inv [OF dag_reach_new])
qed (rule transport_step_inv)

subsection \<open>Causal history\<close>

inductive causal_reach :: "block_heap \<Rightarrow> dag_store \<Rightarrow> bref list \<Rightarrow> bref \<Rightarrow> bool" for hp d tops where
  causal_top: "b \<in> set tops \<Longrightarrow> causal_reach hp d tops b"
| causal_ref: "causal_reach hp d tops b \<Longrightarrow> c \<in> set (causal_children hp d b) \<Longrightarrow> causal_reach hp d tops c"

definition traverse_inv ::
  "header_digest \<Rightarrow> block_heap \<Rightarrow> dag_store \<Rightarrow> bref list \<Rightarrow> bref list \<Rightarrow> hash list \<Rightarrow> bref list \<Rightarrow> bool" where
  "traverse_inv H hp d tops stack visited result =
     (let f = (\<lambda>b. block_ComputeHash H (hp b))
      in set visited = f ` set result \<and> distinct (map f result) \<and>
         (\<forall>b \<in> set result. f ` set (causal_children hp d b) \<subseteq> set visited \<union> f ` set stack) \<and>
         f ` set tops \<subseteq> set visited \<union> f ` set stack \<and>
         (\<forall>b \<in> set result \<union> set stack. causal_reach hp d tops b))"

lemma traverse_inv_skip:
  assumes "traverse_inv H hp d tops (b # stack) visited result" "block_ComputeHash H (hp b) \<in> set visited"
  shows "traverse_inv H hp d tops stack visited result"
proof -
  let ?f = "\<lambda>b. block_ComputeHash H (hp b)"
  have "set visited \<union> ?f ` set (b # stack) = set visited \<union> ?f ` set stack"
    using assms(2) by auto
  note eq = this
  have "\<forall>x \<in> set result. ?f ` set (causal_children hp d x) \<subseteq> set visited \<union> ?f ` set stack"
    "?f ` set tops \<subseteq> set visited \<union> ?f ` set stack"
    using assms(1) unfolding traverse_inv_def Let_def eq by blast+
  then show ?thesis
    using assms(1) unfolding traverse_inv_def Let_def by simp
qed

lemma traverse_inv_visit:
  assumes "traverse_inv H hp d tops (b # stack) visited result" "block_ComputeHash H (hp b) \<notin> set visited"
  shows "traverse_inv H hp d tops (causal_children hp d b @ stack)
    (block_ComputeHash H (hp b) # visited) (result @ [b])"
proof -
  let ?f = "\<lambda>b. block_ComputeHash H (hp b)"
  let ?new = "set (?f b # visited) \<union> ?f ` set (causal_children hp d b @ stack)"
  have cover: "set visited \<union> ?f ` set (b # stack) \<subseteq> ?new"
    by auto
  have "\<forall>x \<in> set (result @ [b]). ?f ` set (causal_children hp d x) \<subseteq> ?new"
  proof
    fix x assume "x \<in> set (result @ [b])"
    then consider "x \<in> set result" | "x = b"
      by auto
    then show "?f ` set (causal_children hp d x) \<subseteq> ?new"
    proof cases
      case 1
      then have "?f ` set (causal_children hp d x) \<subseteq> set visited \<union> ?f ` set (b # stack)"
        using assms(1) unfolding traverse_inv_def Let_def by blast
      then show ?thesis
        using cover by (rule order_trans)
    qed auto
  qed
  moreover have "?f ` set tops \<subseteq> ?new"
  proof -
    have "?f ` set tops \<subseteq> set visited \<union> ?f ` set (b # stack)"
      using assms(1) unfolding traverse_inv_def Let_def by blast
    then show ?thesis
      using cover by (rule order_trans)
  qed
  moreover have "set (?f b # visited) = ?f ` set (result @ [b])" "distinct (map ?f (result @ [b]))"
    using assms by (auto simp: traverse_inv_def Let_def)
  moreover have "\<forall>x \<in> set (result @ [b]) \<union> set (causal_children hp d b @ stack). causal_reach hp d tops x"
    using assms(1) by (auto simp: traverse_inv_def Let_def intro: causal_ref)
  ultimately show ?thesis
    unfolding traverse_inv_def Let_def by blast
qed

lemma causal_traverse_inv:
  assumes "traverse_inv H hp d tops stack visited result"
  shows "\<exists>visited'. traverse_inv H hp d tops [] visited' (causal_traverse H hp d stack visited result)"
  using assms
proof (induction H hp d stack visited result rule: causal_traverse.induct)
  case (2 H hp d b stack visited result)
  show ?case
  proof (cases "block_ComputeHash H (hp b) \<in> set visited")
    case True
    then show ?thesis
      using 2(1) [OF refl True traverse_inv_skip [OF "2.prems" True]] by simp
  next
    case False
    then show ?thesis
      using 2(2) [OF refl False traverse_inv_visit [OF "2.prems" False]] by simp
  qed
qed auto

lemma traverse_complete:
  assumes inv: "traverse_inv H hp d tops [] visited result" and "collision_free H hp" and "causal_reach hp d tops b"
  shows "block_ComputeHash H (hp b) \<in> set visited"
  using assms(3)
proof (induction rule: causal_reach.induct)
  case (causal_top b)
  then show ?case
    using inv by (auto simp: traverse_inv_def Let_def)
next
  case (causal_ref b c)
  then obtain b' where b': "b' \<in> set result" "block_ComputeHash H (hp b) = block_ComputeHash H (hp b')"
    using inv by (auto simp: traverse_inv_def Let_def)
  then have "hd_of hp b = hd_of hp b'"
    using \<open>collision_free H hp\<close> collision_freeD by blast
  then have "c \<in> set (causal_children hp d b')"
    using causal_ref(2) by (simp add: causal_children_def)
  then show ?case
    using inv b'(1) unfolding traverse_inv_def Let_def by auto (metis image_eqI subsetD)
qed

lemma early_round_wraps: "unat (r :: u64) < 3 \<Longrightarrow> r < - 3 \<and> - 3 \<le> r - 3"
  using u64_below_3 [of r] by (auto simp: word_less_def)

lemma uncommitted_loop_late:
  assumes "unat c > 2"
  shows "uncommitted_loop m c c = slice_at m c @ slice_at m (c - 1) @ slice_at m (c - 2)"
proof -
  have u: "unat (c - 1) = unat c - 1" "unat (c - 2) = unat c - 2" "unat (c - 3) = unat c - 3"
    using assms by (simp_all add: unat_sub_u64)
  have last: "uncommitted_loop m c (c - 3) = []"
    using assms u by (subst uncommitted_loop.simps) (auto simp: word_le_nat_alt)
  have "uncommitted_loop m c (c - 2) = slice_at m (c - 2)"
    using assms u last by (subst uncommitted_loop.simps) (simp add: word_less_nat_alt)
  moreover have "uncommitted_loop m c (c - 1) = slice_at m (c - 1) @ uncommitted_loop m c (c - 2)"
    using assms u by (subst uncommitted_loop.simps) (simp add: word_less_nat_alt word_le_nat_alt diff_le_mono2)
  moreover have "uncommitted_loop m c c = slice_at m c @ uncommitted_loop m c (c - 1)"
    using assms u by (subst uncommitted_loop.simps) (simp add: word_less_nat_alt word_le_nat_alt)
  ultimately show ?thesis
    by simp
qed

lemma uncommitted_loop_early:
  "uncommitted_loop m 0 0 = []"
  "uncommitted_loop m 1 1 = []"
  "uncommitted_loop m 2 2 = slice_at m 2 @ slice_at m 1"
proof -
  have "uncommitted_loop m 2 0 = []"
    by (simp add: uncommitted_loop.simps)
  then have "uncommitted_loop m 2 1 = slice_at m 1"
    by (subst uncommitted_loop.simps) simp
  then show "uncommitted_loop m 2 2 = slice_at m 2 @ slice_at m 1"
    by (subst uncommitted_loop.simps) simp
qed (simp_all add: uncommitted_loop.simps word_le_nat_alt unat_eq_nat_uint uint_word_ariths)

section \<open>Properties\<close>


text \<open>(C27) \<open>GetBlocksInCausalHistory\<close> returns, for a collision-free digest, exactly the causal
  history: no hash twice, only blocks reachable from the given ones through references
  that resolve, and the hash of every such block.  The traversal always ends.\<close>

theorem causal_history_exact:
  assumes "collision_free H hp"
  shows "distinct (map (\<lambda>b. block_ComputeHash H (hp b)) (GetBlocksInCausalHistory H hp dt tops))
    \<and> (\<forall>b \<in> set (GetBlocksInCausalHistory H hp dt tops). causal_reach hp (dt_dag dt) tops b)
    \<and> (\<forall>b. causal_reach hp (dt_dag dt) tops b \<longrightarrow>
        (\<exists>c \<in> set (GetBlocksInCausalHistory H hp dt tops). hd_of hp c = hd_of hp b))"
proof -
  have "traverse_inv H hp (dt_dag dt) tops tops [] []"
    by (simp add: traverse_inv_def Let_def causal_top)
  from causal_traverse_inv [OF this]
  obtain visited where inv: "traverse_inv H hp (dt_dag dt) tops [] visited (GetBlocksInCausalHistory H hp dt tops)"
    by (auto simp: GetBlocksInCausalHistory_def)
  have "\<exists>c \<in> set (GetBlocksInCausalHistory H hp dt tops). hd_of hp c = hd_of hp b"
    if reach: "causal_reach hp (dt_dag dt) tops b" for b
  proof -
    obtain c where "c \<in> set (GetBlocksInCausalHistory H hp dt tops)"
        "block_ComputeHash H (hp b) = block_ComputeHash H (hp c)"
      using traverse_complete [OF inv assms reach] inv by (auto simp: traverse_inv_def Let_def)
    then show ?thesis
      using collision_freeD [OF assms] by metis
  qed
  then show ?thesis
    using inv by (auto simp: traverse_inv_def Let_def)
qed

text \<open>In rounds 0, 1 and 2 the bound \<open>round-3\<close> wraps around, and processing a block forgets all
  rounds at once, its own included: a block created in the next round gets no
  references.\<close>

theorem transport_forgets_early_rounds:
  assumes "gwf (dt_recentBlocks dt)" "unat (hdr_round (hd_of hp b)) < 3" "r < -3"
  shows "slice_at (dt_recentBlocks (processDAGBlock H hp ord b dt)) r = []
    \<and> getDAGReferences H hp (processDAGBlock H hp ord b dt) (hdr_round (hd_of hp b) + 1) = []"
proof -
  have "x < hdr_round (hd_of hp b) - 3" if "x < - 3" for x
    using that early_round_wraps [OF assms(2)] by (auto intro: less_le_trans)
  then show ?thesis
    using early_round_wraps [OF assms(2)] assms
    by (simp add: processDAGBlock_recent getDAGReferences_def Let_def)
qed

text \<open>\<open>GetUncommittedBlocks\<close> returns nothing in rounds 0 and 1 (there \<open>currentRound-2\<close> wraps
  around), the blocks of rounds 2 and 1 in round 2, and those of three rounds afterwards.\<close>

theorem GetUncommittedBlocks_rounds:
  "GetUncommittedBlocks dt =
     (let cur = dt_currentRound dt; at = slice_at (dt_recentBlocks dt)
      in if cur \<le> 1 then [] else if cur = 2 then at 2 @ at 1
         else at cur @ at (cur - 1) @ at (cur - 2))"
proof -
  consider "unat (dt_currentRound dt) < 3" | "unat (dt_currentRound dt) > 2"
    by linarith
  then show ?thesis
  proof cases
    case 1
    then show ?thesis
      using u64_below_3 [of "dt_currentRound dt"]
      by (auto simp: GetUncommittedBlocks_def uncommitted_loop_early Let_def word_le_def)
  next
    case 2
    then have "\<not> dt_currentRound dt \<le> 1" "dt_currentRound dt \<noteq> 2"
      by (auto simp: word_le_nat_alt)
    then show ?thesis
      using 2 by (simp add: GetUncommittedBlocks_def uncommitted_loop_late Let_def)
  qed
qed

section \<open>Witnesses\<close>

definition sample_transport :: dag_transport where
  "sample_transport = advanceDAGRound (NewDAGTransport dag_NewDAG 1)"


theorem causal_history_exact_witness:
  "collision_free sample_digest sample_heap100
   \<and> (\<exists>c \<in> set (GetBlocksInCausalHistory sample_digest sample_heap100 sample_transport [1]).
        hd_of sample_heap100 c = hd_of sample_heap100 1)"
proof -
  have "causal_reach sample_heap100 (dt_dag sample_transport) [1] 1"
    by (rule causal_top) simp
  then show ?thesis
    using causal_history_exact [OF sample_collision_free, of sample_transport "[1]"] sample_collision_free
    by blast
qed

theorem transport_forgets_early_rounds_witness:
  "slice_at (dt_recentBlocks (processDAGBlock sample_digest sample_heap [] 1 sample_transport)) 1 = []"
  using transport_forgets_early_rounds [of sample_transport sample_heap 1 1 sample_digest "[]"]
  by (simp add: sample_transport_def NewDAGTransport_def advanceDAGRound_def word_less_def)

end
