(* ===== verification/Leader.thy ===== *)
theory Leader
  imports Chain_Types
begin

text \<open>
  Leader selection and vote thresholds.

  Four places of the code pick the leader of a wave by rotation over the
  validator list: \<open>isLeader\<close>/\<open>isValidLeader\<close> of \<open>core/wave_consensus.go\<close> (also
  \<open>isCurrentWaveLeader\<close> of the coordinator), \<open>getWaveLeader\<close> of
  \<open>consensus/wave_consensus.go\<close>, \<open>selectLeader\<close> of \<open>consensus/engine.go\<close> and
  \<open>StartNewWave\<close> there, which computes in \<open>uint64\<close> instead of \<open>int\<close>.  The locale
  \<open>leader_rotation\<close> is what the rest relies on; all four are interpretations.
  \<open>LeaderSelector\<close> (\<open>consensus/leader.go\<close>) hashes the wave number instead.

  The thresholds that count votes are compared through the locales
  \<open>quorum_threshold\<close> and \<open>bft_threshold\<close>.
\<close>

section \<open>Rotation over the validator list\<close>

text \<open>\<open>leaderIndex := int(wave) % len(validators); validators[leaderIndex]\<close>.\<close>

definition rotation_leader :: "address list \<Rightarrow> u64 \<Rightarrow> go_panic + address" where
  "rotation_leader vs w = (case go_rem (go_int w) (int (length vs)) of
     Inl p \<Rightarrow> Inl p
   | Inr i \<Rightarrow> go_index vs i)"

text \<open>\<open>core.WaveConsensus.isLeader\<close>, \<open>isValidLeader\<close> and the coordinator's
  \<open>isCurrentWaveLeader\<close>: no guard against an empty validator list.\<close>

definition core_isValidLeader :: "address list \<Rightarrow> address \<Rightarrow> u64 \<Rightarrow> go_panic + bool" where
  "core_isValidLeader vs proposer w = map_sum id (\<lambda>l. l = proposer) (rotation_leader vs w)"

definition core_isLeader :: "address list \<Rightarrow> address \<Rightarrow> u64 \<Rightarrow> go_panic + bool" where
  "core_isLeader vs me w = map_sum id (\<lambda>l. l = me) (rotation_leader vs w)"

definition isCurrentWaveLeader :: "address list \<Rightarrow> address \<Rightarrow> u64 \<Rightarrow> go_panic + bool" where
  "isCurrentWaveLeader vs me currentWave =
     map_sum id (\<lambda>l. l = me) (rotation_leader vs currentWave)"

text \<open>\<open>consensus.WaveConsensus.getWaveLeader\<close>, \<open>isWaveLeader\<close>, \<open>isValidWaveLeader\<close>: a node
  without validators is its own leader.\<close>

definition getWaveLeader :: "address \<Rightarrow> address list \<Rightarrow> u64 \<Rightarrow> go_panic + address" where
  "getWaveLeader me vs w = (if vs = [] then Inr me else rotation_leader vs w)"

definition isWaveLeader :: "address \<Rightarrow> address list \<Rightarrow> u64 \<Rightarrow> go_panic + bool" where
  "isWaveLeader me vs w =
     (if vs = [] then Inr True else map_sum id (\<lambda>l. l = me) (rotation_leader vs w))"

definition isValidWaveLeader :: "address \<Rightarrow> address list \<Rightarrow> address \<Rightarrow> u64 \<Rightarrow> go_panic + bool" where
  "isValidWaveLeader me vs validator w = map_sum id (\<lambda>l. l = validator) (getWaveLeader me vs w)"

text \<open>\<open>ConsensusEngine.selectLeader\<close>: the new value of \<open>currentLeader\<close>; with no validators
  the old leader stays.\<close>

definition engine_selectLeader :: "address \<Rightarrow> address list \<Rightarrow> u64 \<Rightarrow> go_panic + address" where
  "engine_selectLeader old vs w = (if vs = [] then Inr old else rotation_leader vs w)"

text \<open>The leader in \<open>ConsensusEngine.StartNewWave\<close>:
  \<open>uint64(wave.Number) % uint64(len(ce.validators))\<close>.\<close>

definition start_wave_leader :: "address list \<Rightarrow> u64 \<Rightarrow> go_panic + address" where
  "start_wave_leader vs w =
     (if vs = [] then Inl DivideByZero
      else go_index vs (int (unat (w mod word_of_nat (length vs)))))"

section \<open>\<open>LeaderSelector\<close>\<close>

record leader_selector =
  ls_validators :: "address list"
  ls_validatorSet :: "(address, bool) gomap"

definition NewLeaderSelector :: "address list \<Rightarrow> leader_selector" where
  "NewLeaderSelector vs =
     \<lparr>ls_validators = vs, ls_validatorSet = fold (\<lambda>v m. gput v True m) vs []\<rparr>"

definition UpdateValidators :: "address list \<Rightarrow> leader_selector \<Rightarrow> leader_selector" where
  "UpdateValidators vs ls = ls\<lparr>ls_validators := vs, ls_validatorSet := fold (\<lambda>v m. gput v True m) vs []\<rparr>"

definition ls_IsValidator :: "leader_selector \<Rightarrow> address \<Rightarrow> bool" where
  "ls_IsValidator ls a = (case gget (ls_validatorSet ls) a of None \<Rightarrow> False | Some b \<Rightarrow> b)"

text \<open>\<open>binary.BigEndian.Uint64\<close> reads eight bytes and panics on a shorter slice.\<close>

definition be_uint64 :: "byte list \<Rightarrow> go_panic + u64" where
  "be_uint64 bs = (if length bs < 8 then Inl IndexOutOfRange
     else Inr (fold (\<lambda>b acc. 256 * acc + ucast b) (take 8 bs) 0))"

text \<open>\<open>SelectLeader\<close>; \<open>sha\<close> is SHA-256 of everything written to the hasher.\<close>

definition SelectLeader ::
  "(byte list \<Rightarrow> hash) \<Rightarrow> leader_selector \<Rightarrow> u64 \<Rightarrow> string list \<Rightarrow> go_panic + address" where
  "SelectLeader sha ls waveNumber committedBlocks =
     (if ls_validators ls = [] then Inr []
      else let salt = concat (map bytes_of committedBlocks);
               h = sha (rev (uint64ToBytes waveNumber) @ salt)
           in case be_uint64 h of
                Inl p \<Rightarrow> Inl p
              | Inr n \<Rightarrow> go_index (ls_validators ls)
                          (int (unat (n mod word_of_nat (length (ls_validators ls))))))"

section \<open>Thresholds\<close>

text \<open>\<open>checkWaveFinalization\<close>: \<open>requiredVotes := (totalValidators / 2) + 1\<close>.\<close>

definition wave_requiredVotes :: "nat \<Rightarrow> nat" where
  "wave_requiredVotes n = n div 2 + 1"

text \<open>\<open>Engine.HasQuorum\<close>: \<open>2*TotalValidators/3 + 1\<close>.\<close>

definition engine_requiredVotes :: "nat \<Rightarrow> nat" where
  "engine_requiredVotes n = 2 * n div 3 + 1"

text \<open>\<open>NewWaveConsensus\<close> of package core: \<open>f := (len(validators) - 1) / 3\<close>; commit needs
  \<open>f + 1\<close> votes, a wave change \<open>2f + 1\<close> complaints.  Go's division truncates, so
  \<open>(0 - 1) / 3 = 0\<close>, as with the truncated subtraction of naturals.\<close>

definition core_f :: "nat \<Rightarrow> nat" where
  "core_f n = (n - 1) div 3"

definition core_commitVotes :: "nat \<Rightarrow> nat" where
  "core_commitVotes n = core_f n + 1"

section \<open>The rotation interface\<close>

locale leader_rotation =
  fixes leader :: "address list \<Rightarrow> u64 \<Rightarrow> go_panic + address"
  assumes leader_eq:
    "vs \<noteq> [] \<Longrightarrow> length vs < 2 ^ 63 \<Longrightarrow> unat w < 2 ^ 63 \<Longrightarrow>
       leader vs w = Inr (vs ! (unat w mod length vs))"
begin

lemma leader_member:
  assumes "vs \<noteq> []" "length vs < 2 ^ 63" "unat w < 2 ^ 63"
  shows "\<exists>a \<in> set vs. leader vs w = Inr a"
  using assms leader_eq nth_mem [of "unat w mod length vs" vs] by auto

lemma leader_window:
  assumes "length vs < 2 ^ 63" "unat w + length vs \<le> 2 ^ 63"
  shows "map (\<lambda>k. leader vs (w + word_of_nat k)) [0..<length vs] = map Inr (rotate (unat w) vs)"
proof (rule nth_equalityI)
  fix k assume k: "k < length (map (\<lambda>k. leader vs (w + word_of_nat k)) [0..<length vs])"
  then have k: "k < length vs"
    by simp
  then have sum: "unat w + k < 2 ^ 63"
    using assms by linarith
  have small: "unat w + k < 2 ^ 64"
    by (rule less_trans [OF sum]) simp
  then have k64: "unat (word_of_nat k :: u64) = k"
    by (intro unat_of_nat_u64) simp
  have unat: "unat (w + word_of_nat k) = unat w + k"
    using small k64 by (simp add: unat_add_u64)
  have "leader vs (w + word_of_nat k) = Inr (vs ! ((unat w + k) mod length vs))"
    using k assms(1) sum by (subst leader_eq) (auto simp only: unat list.size)
  then show "map (\<lambda>k. leader vs (w + word_of_nat k)) [0..<length vs] ! k =
      map Inr (rotate (unat w) vs) ! k"
    using k by (simp add: nth_rotate)
qed simp

end

section \<open>The threshold interfaces\<close>

text \<open>A threshold is a quorum threshold when it can be reached and two quorums always
  share a voter.\<close>

locale quorum_threshold =
  fixes q :: "nat \<Rightarrow> nat"
  assumes q_le: "0 < n \<Longrightarrow> q n \<le> n"
    and q_majority: "0 < n \<Longrightarrow> n < 2 * q n"
begin

lemma overlap:
  assumes "finite V" "V \<noteq> {}" "A \<subseteq> V" "B \<subseteq> V" "q (card V) \<le> card A" "q (card V) \<le> card B"
  shows "2 * q (card V) - card V \<le> card (A \<inter> B)"
proof -
  have fin: "finite A" "finite B"
    using assms finite_subset by blast+
  have "card A + card B = card (A \<union> B) + card (A \<inter> B)"
    using card_Un_Int [OF fin] .
  moreover have "card (A \<union> B) \<le> card V"
    using assms by (intro card_mono) auto
  ultimately show ?thesis
    using assms by linarith
qed

lemma intersect:
  assumes "finite V" "V \<noteq> {}" "A \<subseteq> V" "B \<subseteq> V" "q (card V) \<le> card A" "q (card V) \<le> card B"
  shows "A \<inter> B \<noteq> {}"
proof -
  have "0 < card V"
    using assms by (simp add: card_gt_0_iff)
  then have "0 < card (A \<inter> B)"
    using overlap [OF assms] q_majority [of "card V"] by linarith
  then show ?thesis
    by auto
qed

end

text \<open>A threshold is Byzantine when two quorums share more voters than may be faulty
  with \<open>n > 3 f\<close>.\<close>

locale bft_threshold = quorum_threshold +
  assumes q_byzantine: "0 < n \<Longrightarrow> n + (n - 1) div 3 < 2 * q n"
begin

lemma honest_overlap:
  assumes "finite V" "V \<noteq> {}" "A \<subseteq> V" "B \<subseteq> V" "q (card V) \<le> card A" "q (card V) \<le> card B"
    and "F \<subseteq> V" "card F \<le> (card V - 1) div 3"
  shows "A \<inter> B - F \<noteq> {}"
proof
  assume "A \<inter> B - F = {}"
  then have "A \<inter> B \<subseteq> F"
    by blast
  then have "card (A \<inter> B) \<le> card F"
    using assms finite_subset card_mono by metis
  moreover have "0 < card V"
    using assms by (simp add: card_gt_0_iff)
  then have "(card V - 1) div 3 < card (A \<inter> B)"
    using overlap [OF assms(1-6)] q_byzantine [of "card V"] by linarith
  ultimately show False
    using assms by linarith
qed

end

section \<open>The rotations of the code implement the interface\<close>

lemma rotation_leader_eq:
  assumes "vs \<noteq> []" "unat w < 2 ^ 63"
  shows "rotation_leader vs w = Inr (vs ! (unat w mod length vs))"
  using assms by (simp add: rotation_leader_def go_int_small go_rem_uint go_index_nat)

lemma start_wave_leader_eq:
  assumes "vs \<noteq> []" "length vs < 2 ^ 63"
  shows "start_wave_leader vs w = Inr (vs ! (unat w mod length vs))"
proof -
  have "length vs < 2 ^ 64"
    by (rule less_trans [OF assms(2)]) simp
  then have "unat (word_of_nat (length vs) :: u64) = length vs"
    by (rule unat_of_nat_u64)
  then show ?thesis
    using assms by (simp add: start_wave_leader_def unat_mod go_index_nat)
qed

interpretation core_rotation: leader_rotation rotation_leader
  by unfold_locales (rule rotation_leader_eq)

interpretation wave_rotation: leader_rotation "getWaveLeader me" for me
  by unfold_locales (simp add: getWaveLeader_def rotation_leader_eq)

interpretation engine_rotation: leader_rotation "engine_selectLeader old" for old
  by unfold_locales (simp add: engine_selectLeader_def rotation_leader_eq)

interpretation start_rotation: leader_rotation start_wave_leader
  by unfold_locales (rule start_wave_leader_eq)

interpretation wave_majority: quorum_threshold wave_requiredVotes
  by unfold_locales (auto simp: wave_requiredVotes_def)

interpretation engine_supermajority: bft_threshold engine_requiredVotes
  by unfold_locales (auto simp: engine_requiredVotes_def)

section \<open>Helper lemmas\<close>

lemma ls_set_fold: "gget (fold (\<lambda>v m. gput v True m) vs m) a = (if a \<in> set vs then Some True else gget m a)"
  by (induction vs arbitrary: m) auto

lemma ls_IsValidator_New [simp]: "ls_IsValidator (NewLeaderSelector vs) a \<longleftrightarrow> a \<in> set vs"
  by (simp add: ls_IsValidator_def NewLeaderSelector_def ls_set_fold)

lemma ls_IsValidator_Update [simp]: "ls_IsValidator (UpdateValidators vs ls) a \<longleftrightarrow> a \<in> set vs"
  by (simp add: ls_IsValidator_def UpdateValidators_def ls_set_fold)

lemma go_index_mod_mem:
  assumes "vs \<noteq> []" "length vs < 2 ^ 64"
  shows "\<exists>a \<in> set vs. go_index vs (int (unat ((n :: u64) mod word_of_nat (length vs)))) = Inr a"
proof -
  have "unat (word_of_nat (length vs) :: u64) = length vs"
    using assms(2) by (rule unat_of_nat_u64)
  then have "unat (n mod word_of_nat (length vs)) < length vs"
    using assms(1) by (simp add: unat_mod)
  then show ?thesis
    using go_index_nat nth_mem by metis
qed

section \<open>Properties\<close>

text \<open>(C33) Leadership is fair and the four rotations of the code agree: over any window of as many
  waves as there are validators, starting at any wave below the sign bit, each of them
  names every validator exactly once, in list order from the position of the first wave.\<close>

theorem leader_rotations_fair:
  assumes "length vs < 2 ^ 63" "unat w + length vs \<le> 2 ^ 63"
  shows "map (\<lambda>k. getWaveLeader me vs (w + word_of_nat k)) [0..<length vs] = map Inr (rotate (unat w) vs)
    \<and> map (\<lambda>k. engine_selectLeader old vs (w + word_of_nat k)) [0..<length vs] = map Inr (rotate (unat w) vs)
    \<and> map (\<lambda>k. start_wave_leader vs (w + word_of_nat k)) [0..<length vs] = map Inr (rotate (unat w) vs)
    \<and> map (\<lambda>k. core_isValidLeader vs a (w + word_of_nat k)) [0..<length vs]
        = map (\<lambda>l. Inr (l = a)) (rotate (unat w) vs)"
proof (intro conjI)
  have "map (\<lambda>k. core_isValidLeader vs a (w + word_of_nat k)) [0..<length vs]
      = map (map_sum id (\<lambda>l. l = a)) (map (\<lambda>k. rotation_leader vs (w + word_of_nat k)) [0..<length vs])"
    by (simp add: core_isValidLeader_def)
  then show "map (\<lambda>k. core_isValidLeader vs a (w + word_of_nat k)) [0..<length vs]
      = map (\<lambda>l. Inr (l = a)) (rotate (unat w) vs)"
    by (simp add: core_rotation.leader_window [OF assms])
qed (rule wave_rotation.leader_window [OF assms] engine_rotation.leader_window [OF assms]
    start_rotation.leader_window [OF assms])+

text \<open>From wave \<open>2^63\<close> on \<open>int(wave)\<close> is negative: whenever the remainder is not zero the
  leader computation indexes the validator list below zero and panics.\<close>

theorem rotation_leader_panics_late:
  assumes "vs \<noteq> []" "go_int w < 0" "\<not> int (length vs) dvd go_int w"
  shows "getWaveLeader me vs w = Inl IndexOutOfRange \<and> core_isValidLeader vs a w = Inl IndexOutOfRange"
proof -
  have "go_int w smod int (length vs) = - (\<bar>go_int w\<bar> mod int (length vs))"
    using assms by (simp add: smod_int_alt_def)
  moreover have "\<bar>go_int w\<bar> mod int (length vs) > 0"
    using assms by (metis dvd_abs_iff dvd_eq_mod_eq_0 length_greater_0_conv of_nat_0_less_iff order_le_less pos_mod_sign)
  ultimately have "rotation_leader vs w = Inl IndexOutOfRange"
    using assms by (simp add: rotation_leader_def go_rem_def go_index_def)
  then show ?thesis
    using assms by (simp add: getWaveLeader_def core_isValidLeader_def)
qed

text \<open>\<open>SelectLeader\<close> of a selector with a non-empty validator list returns a member of it, the
  same for every node that holds the same list, wave number and committed blocks; the
  digest has the 32 bytes of SHA-256.\<close>

theorem SelectLeader_validator:
  assumes "\<And>bs. length (sha bs) = 32" "vs \<noteq> []" "length vs < 2 ^ 64"
  shows "\<exists>a. SelectLeader sha (UpdateValidators vs ls) w committed = Inr a
    \<and> SelectLeader sha (NewLeaderSelector vs) w committed = Inr a
    \<and> ls_IsValidator (UpdateValidators vs ls) a"
proof -
  let ?h = "sha (rev (uint64ToBytes w) @ concat (map bytes_of committed))"
  obtain n where "be_uint64 ?h = Inr n"
    using assms(1) by (simp add: be_uint64_def)
  moreover obtain a where "a \<in> set vs" "go_index vs (int (unat (n mod word_of_nat (length vs)))) = Inr a"
    using go_index_mod_mem [OF assms(2,3)] by blast
  ultimately show ?thesis
    using assms(2) by (simp add: SelectLeader_def UpdateValidators_def [of vs ls] NewLeaderSelector_def
        ls_IsValidator_def ls_set_fold)
qed

text \<open>With the \<open>2n/3 + 1\<close> threshold of \<open>Engine.HasQuorum\<close> two quorums always share a validator
  outside any set of at most \<open>(n - 1) / 3\<close> faulty ones.\<close>

theorem engine_quorums_share_honest:
  assumes "finite V" "V \<noteq> {}" "A \<subseteq> V" "B \<subseteq> V" "F \<subseteq> V"
    and "engine_requiredVotes (card V) \<le> card A" "engine_requiredVotes (card V) \<le> card B"
    and "card F \<le> core_f (card V)"
  shows "A \<inter> B - F \<noteq> {}"
  using engine_supermajority.honest_overlap [OF assms(1-4,6,7,5)] assms(8) by (simp add: core_f_def)

text \<open>The majority of \<open>checkWaveFinalization\<close> guarantees a common voter, but from seven
  validators on that voter may be faulty: there are two majorities whose common members
  fit into a set of \<open>(n - 1) / 3\<close> validators.  The \<open>f + 1\<close> votes of package core do not even
  force a common voter.\<close>

theorem wave_majority_not_byzantine:
  assumes "7 \<le> n"
  shows "(\<forall>A B. A \<subseteq> {..<n} \<and> B \<subseteq> {..<n} \<and> wave_requiredVotes n \<le> card A \<and> wave_requiredVotes n \<le> card B
      \<longrightarrow> A \<inter> B \<noteq> {})
    \<and> (\<exists>A B F. A \<subseteq> {..<n} \<and> B \<subseteq> {..<n} \<and> F \<subseteq> {..<n} \<and> wave_requiredVotes n \<le> card A
      \<and> wave_requiredVotes n \<le> card B \<and> card F \<le> core_f n \<and> A \<inter> B \<subseteq> F)
    \<and> (\<exists>A B. A \<subseteq> {..<n} \<and> B \<subseteq> {..<n} \<and> core_commitVotes n \<le> card A \<and> core_commitVotes n \<le> card B
      \<and> A \<inter> B = {})"
proof (intro conjI)
  show "\<forall>A B. A \<subseteq> {..<n} \<and> B \<subseteq> {..<n} \<and> wave_requiredVotes n \<le> card A \<and> wave_requiredVotes n \<le> card B
      \<longrightarrow> A \<inter> B \<noteq> {}"
    using wave_majority.intersect [of "{..<n}"] assms by (auto simp: lessThan_empty_iff)
  let ?q = "wave_requiredVotes n"
  have "{..<?q} \<inter> {n - ?q..<n} \<subseteq> {n - ?q..<?q}" "card {n - ?q..<?q} \<le> core_f n"
    "{n - ?q..<?q} \<subseteq> {..<n}" "{..<?q} \<subseteq> {..<n}" "card {n - ?q..<n} = ?q"
    using assms by (auto simp: wave_requiredVotes_def core_f_def)
  then show "\<exists>A B F. A \<subseteq> {..<n} \<and> B \<subseteq> {..<n} \<and> F \<subseteq> {..<n} \<and> ?q \<le> card A
      \<and> ?q \<le> card B \<and> card F \<le> core_f n \<and> A \<inter> B \<subseteq> F"
    by (intro exI [of _ "{..<?q}"] exI [of _ "{n - ?q..<n}"] exI [of _ "{n - ?q..<?q}"]) auto
  let ?c = "core_commitVotes n"
  have "{..<?c} \<subseteq> {..<n}" "{?c..<2 * ?c} \<subseteq> {..<n}"
    using assms by (auto simp: core_commitVotes_def core_f_def)
  then show "\<exists>A B. A \<subseteq> {..<n} \<and> B \<subseteq> {..<n} \<and> ?c \<le> card A \<and> ?c \<le> card B \<and> A \<inter> B = {}"
    by (intro exI [of _ "{..<?c}"] exI [of _ "{?c..<2 * ?c}"]) auto
qed

section \<open>Witnesses\<close>

theorem leader_rotations_fair_witness:
  "getWaveLeader ''a'' [''a'', ''b'', ''c''] 4 = Inr ''b'' \<and> getWaveLeader ''a'' [''a'', ''b'', ''c''] 5 = Inr ''c''
   \<and> getWaveLeader ''a'' [''a'', ''b'', ''c''] 6 = Inr ''a''"
  using leader_rotations_fair [of "[''a'', ''b'', ''c'']" 4 "''a''" "[]" "[]"] by (simp add: rotate_drop_take)

theorem rotation_leader_panics_late_witness:
  "getWaveLeader ''a'' [''a'', ''b''] (2 ^ 63 + 1) = Inl IndexOutOfRange"
  using rotation_leader_panics_late [of "[''a'', ''b'']" "2 ^ 63 + 1" "''a''" "''a''"]
  by (simp add: go_int_def)

theorem SelectLeader_validator_witness:
  "\<exists>a. SelectLeader (\<lambda>bs. replicate 32 7) (UpdateValidators [''a'', ''b''] (NewLeaderSelector [])) 1 [''x''] = Inr a
    \<and> ls_IsValidator (UpdateValidators [''a'', ''b''] (NewLeaderSelector [])) a"
  using SelectLeader_validator [of "\<lambda>bs. replicate 32 7" "[''a'', ''b'']" "NewLeaderSelector []" 1 "[''x'']"] by auto

theorem engine_quorums_share_honest_witness:
  "engine_requiredVotes 4 = 3 \<and> {0, 1, 2} \<inter> {1, 2, 3} - {1} \<noteq> ({} :: nat set)"
  using engine_quorums_share_honest [of "{0, 1, 2, 3 :: nat}" "{0, 1, 2}" "{1, 2, 3}" "{1}"]
  by (simp add: engine_requiredVotes_def core_f_def)

theorem wave_majority_not_byzantine_witness:
  "\<exists>A B F. A \<subseteq> {..<7 :: nat} \<and> B \<subseteq> {..<7} \<and> F \<subseteq> {..<7} \<and> wave_requiredVotes 7 \<le> card A
     \<and> wave_requiredVotes 7 \<le> card B \<and> card F \<le> core_f 7 \<and> A \<inter> B \<subseteq> F"
  using conjunct1 [OF conjunct2 [OF wave_majority_not_byzantine [of 7]]] by simp

end
