(* ===== verification/Core_Wave.thy ===== *)
theory Core_Wave
  imports Dag_Transport Leader
begin

text \<open>
  \<open>internal/core/wave_consensus.go\<close>: the wave consensus that runs on top of the DAG
  transport.  The goroutines it starts (the timer, \<open>createProposal\<close>,
  \<open>handleProposal\<close>) are returned as a list of tasks; each handler is one atomic
  step.  \<open>createProposal\<close> writes \<open>Header.Wave\<close> of a stored block, so it returns the
  changed heap.  \<open>handleWaveTimeout\<close> calls \<open>advanceWave\<close> while it holds the
  (non-reentrant) mutex; that branch is the value \<open>Inl Deadlock\<close>.
\<close>

section \<open>State\<close>

record core_wave =
  cw_currentWave :: u64
  cw_waveTimeout :: int
  cw_validatorID :: address
  cw_validators :: "address list"
  cw_f :: nat
  cw_proposals :: "(u64, proposal) gomap"
  cw_votes :: "(u64, (hash, vote) gomap) gomap"
  cw_complaints :: "(u64, (string, complaint) gomap) gomap"
  cw_committedBlocks :: "(hash, bref) gomap"
  cw_commitOrder :: "bref list"

datatype core_task =
    TaskTimeout u64
  | TaskCreateProposal u64
  | TaskHandleProposal proposal

definition core_NewWaveConsensus :: "address \<Rightarrow> address list \<Rightarrow> int \<Rightarrow> core_wave" where
  "core_NewWaveConsensus me vs timeout =
     \<lparr>cw_currentWave = 1, cw_waveTimeout = timeout, cw_validatorID = me, cw_validators = vs,
      cw_f = core_f (length vs), cw_proposals = [], cw_votes = [], cw_complaints = [],
      cw_committedBlocks = [], cw_commitOrder = []\<rparr>"

section \<open>Waves\<close>

definition core_startNewWave :: "core_wave \<Rightarrow> go_panic + core_wave \<times> core_task list" where
  "core_startNewWave wc =
     (let wave = cw_currentWave wc;
          wc1 = wc\<lparr>cw_votes := gput wave [] (cw_votes wc), cw_complaints := gput wave [] (cw_complaints wc)\<rparr>
      in case core_isLeader (cw_validators wc) (cw_validatorID wc) wave of
           Inl p \<Rightarrow> Inl p
         | Inr leader \<Rightarrow> Inr (wc1, TaskTimeout wave # (if leader then [TaskCreateProposal wave] else [])))"

definition core_advanceWave :: "core_wave \<Rightarrow> go_panic + core_wave \<times> core_task list" where
  "core_advanceWave wc = core_startNewWave (wc\<lparr>cw_currentWave := cw_currentWave wc + 1\<rparr>)"

section \<open>Proposals\<close>

text \<open>The block with the highest round above zero; the first one of that round wins.\<close>

definition core_selectProposal :: "block_heap \<Rightarrow> bref list \<Rightarrow> bref option" where
  "core_selectProposal hp bs =
     snd (fold (\<lambda>b (maxRound, best). if hdr_round (hd_of hp b) > maxRound
                 then (hdr_round (hd_of hp b), Some b) else (maxRound, best)) bs (0, None))"

definition set_wave :: "u64 \<Rightarrow> block \<Rightarrow> block" where
  "set_wave w b = b\<lparr>blk_header := (blk_header b)\<lparr>hdr_wave := w\<rparr>\<rparr>"

definition core_createProposal ::
  "header_digest \<Rightarrow> block_heap \<Rightarrow> int \<Rightarrow> dag_transport \<Rightarrow> u64 \<Rightarrow> core_wave
     \<Rightarrow> block_heap \<times> core_wave \<times> core_task list" where
  "core_createProposal H hp now dt wave wc =
     (let uncommitted = GetUncommittedBlocks dt
      in if uncommitted = [] then (hp, wc, [])
         else case core_selectProposal hp uncommitted of
           None \<Rightarrow> (hp, wc, [])
         | Some b \<Rightarrow>
             (let hp1 = hp(b := set_wave wave (hp b));
                  p = \<lparr>prop_id = block_ComputeHash H (hp1 b), prop_block_hash = block_ComputeHash H (hp1 b),
                       prop_round = hdr_round (hd_of hp1 b), prop_wave = wave, prop_block = b,
                       prop_proposer = cw_validatorID wc, prop_time = now, prop_status = ProposalStatusPending,
                       prop_signature = \<lparr>sig_validator = [], sig_bytes = [], sig_time = 0\<rparr>\<rparr>
              in (hp1, wc\<lparr>cw_proposals := gput wave p (cw_proposals wc)\<rparr>, [TaskHandleProposal p])))"

definition core_validateProposal :: "dag_transport \<Rightarrow> core_wave \<Rightarrow> proposal \<Rightarrow> go_panic + bool" where
  "core_validateProposal dt wc p = (case transport_GetBlock dt (prop_block_hash p) of
     Inl _ \<Rightarrow> Inr False
   | Inr _ \<Rightarrow> core_isValidLeader (cw_validators wc) (prop_proposer p) (prop_wave p))"

section \<open>Commit\<close>

definition core_cleanupOldWaveData :: "u64 \<Rightarrow> core_wave \<Rightarrow> core_wave" where
  "core_cleanupOldWaveData currentWave wc =
     (let old = filter (\<lambda>w. w < currentWave - 5) (map fst (cw_proposals wc))
      in wc\<lparr>cw_proposals := gdel_all old (cw_proposals wc), cw_votes := gdel_all old (cw_votes wc),
            cw_complaints := gdel_all old (cw_complaints wc)\<rparr>)"

definition core_limitCommittedBlocks :: "header_digest \<Rightarrow> block_heap \<Rightarrow> core_wave \<Rightarrow> core_wave" where
  "core_limitCommittedBlocks H hp wc =
     (let n = length (cw_commitOrder wc)
      in if n > 100
         then wc\<lparr>cw_committedBlocks := gdel_all (map (\<lambda>b. block_ComputeHash H (hp b)) (take (n - 100) (cw_commitOrder wc)))
                   (cw_committedBlocks wc),
                 cw_commitOrder := drop (n - 100) (cw_commitOrder wc)\<rparr>
         else wc)"

definition core_commitBlock :: "header_digest \<Rightarrow> block_heap \<Rightarrow> bref \<Rightarrow> core_wave \<Rightarrow> core_wave" where
  "core_commitBlock H hp b wc =
     (let h = block_ComputeHash H (hp b)
      in if ghas (cw_committedBlocks wc) h then wc
         else wc\<lparr>cw_committedBlocks := gput h b (cw_committedBlocks wc),
                 cw_commitOrder := cw_commitOrder wc @ [b]\<rparr>)"

definition core_commitProposal ::
  "header_digest \<Rightarrow> block_heap \<Rightarrow> dag_transport \<Rightarrow> u64 \<Rightarrow> proposal \<Rightarrow> core_wave
     \<Rightarrow> go_panic + core_wave \<times> core_task list" where
  "core_commitProposal H hp dt wave p wc =
     (let causal = GetBlocksInCausalHistory H hp dt [prop_block p];
          wc1 = fold (core_commitBlock H hp) causal wc
      in core_advanceWave (core_limitCommittedBlocks H hp (core_cleanupOldWaveData wave wc1)))"

definition core_checkCommitCondition ::
  "header_digest \<Rightarrow> block_heap \<Rightarrow> dag_transport \<Rightarrow> u64 \<Rightarrow> core_wave
     \<Rightarrow> go_panic + core_wave \<times> core_task list" where
  "core_checkCommitCondition H hp dt wave wc =
     (case gget (cw_proposals wc) wave of
        None \<Rightarrow> Inr (wc, [])
      | Some p \<Rightarrow>
          let voteCount = length (filter (\<lambda>(_, v). vote_type v = VoteTypeApprove) (slice_at (cw_votes wc) wave))
          in if voteCount \<ge> cw_f wc + 1 then core_commitProposal H hp dt wave p wc else Inr (wc, []))"

text \<open>\<open>handleProposal\<close>; a vote for a wave whose vote map is gone writes to a nil map.\<close>

definition core_handleProposal ::
  "header_digest \<Rightarrow> block_heap \<Rightarrow> int \<Rightarrow> dag_transport \<Rightarrow> proposal \<Rightarrow> core_wave
     \<Rightarrow> go_panic + core_wave \<times> core_task list" where
  "core_handleProposal H hp now dt p wc =
     (case core_validateProposal dt wc p of
        Inl e \<Rightarrow> Inl e
      | Inr False \<Rightarrow> Inr (wc, [])
      | Inr True \<Rightarrow>
          (let wave = prop_wave p;
               v = \<lparr>vote_block_hash = prop_block_hash p, vote_round = prop_round p, vote_wave = wave,
                    vote_validator = cw_validatorID wc, vote_time = now, vote_proposal_id = prop_id p,
                    vote_block = None, vote_type = VoteTypeApprove,
                    vote_signature = \<lparr>sig_validator = [], sig_bytes = [], sig_time = 0\<rparr>\<rparr>
           in case gget (cw_votes wc) wave of
                None \<Rightarrow> Inl NilMapWrite
              | Some vs \<Rightarrow> core_checkCommitCondition H hp dt wave
                  (wc\<lparr>cw_votes := gput wave (gput (prop_id p) v vs) (cw_votes wc)\<rparr>)))"

section \<open>Timeout\<close>

text \<open>\<open>string(wave)\<close> converts an integer to the UTF-8 text of that code point; anything that is
  not a code point becomes U+FFFD.\<close>

definition rune_string :: "nat \<Rightarrow> string" where
  "rune_string n =
     (if n < 128 then [char_of n]
      else if n < 2048 then [char_of (192 + n div 64), char_of (128 + n mod 64)]
      else if 55296 \<le> n \<and> n < 57344 \<or> n > 1114111 then [char_of (239 :: nat), char_of (191 :: nat), char_of (189 :: nat)]
      else if n < 65536 then [char_of (224 + n div 4096), char_of (128 + n div 64 mod 64), char_of (128 + n mod 64)]
      else [char_of (240 + n div 262144), char_of (128 + n div 4096 mod 64),
            char_of (128 + n div 64 mod 64), char_of (128 + n mod 64)])"

definition complaint_key :: "u64 \<Rightarrow> string" where
  "complaint_key wave = ''complaint_'' @ rune_string (unat wave)"

definition core_handleWaveTimeout :: "int \<Rightarrow> u64 \<Rightarrow> core_wave \<Rightarrow> go_panic + core_wave" where
  "core_handleWaveTimeout now wave wc =
     (let c = \<lparr>cmpl_id = bytes_of (complaint_key wave), cmpl_block_hash = [], cmpl_validator = cw_validatorID wc,
               cmpl_round = 0, cmpl_wave = wave, cmpl_time = now, cmpl_reason = ''Wave timeout'',
               cmpl_signature = \<lparr>sig_validator = [], sig_bytes = [], sig_time = 0\<rparr>\<rparr>
      in case gget (cw_complaints wc) wave of
           None \<Rightarrow> Inl NilMapWrite
         | Some cs \<Rightarrow>
             (let cs1 = gput (complaint_key wave) c cs
              in if glen cs1 \<ge> 2 * cw_f wc + 1 then Inl Deadlock
                 else Inr (wc\<lparr>cw_complaints := gput wave cs1 (cw_complaints wc)\<rparr>)))"

section \<open>Queries\<close>

definition core_GetCurrentWave :: "core_wave \<Rightarrow> u64" where
  "core_GetCurrentWave wc = cw_currentWave wc"

definition core_GetCommittedBlocks :: "core_wave \<Rightarrow> bref list" where
  "core_GetCommittedBlocks wc = cw_commitOrder wc"

definition core_GetBlockCommitStatus :: "core_wave \<Rightarrow> hash \<Rightarrow> bool" where
  "core_GetBlockCommitStatus wc h = ghas (cw_committedBlocks wc) h"

section \<open>Reachable states\<close>

text \<open>The handlers in any order, on any state of the transport and of the block heap.\<close>

inductive core_wave_reach :: "header_digest \<Rightarrow> core_wave \<Rightarrow> bool" for H where
  cw_new: "core_startNewWave (core_NewWaveConsensus me vs timeout) = Inr (wc, ts) \<Longrightarrow> core_wave_reach H wc"
| cw_create: "core_wave_reach H wc \<Longrightarrow> core_createProposal H hp now dt w wc = (hp', wc', ts) \<Longrightarrow>
    core_wave_reach H wc'"
| cw_handle: "core_wave_reach H wc \<Longrightarrow> core_handleProposal H hp now dt p wc = Inr (wc', ts) \<Longrightarrow>
    core_wave_reach H wc'"
| cw_timeout: "core_wave_reach H wc \<Longrightarrow> core_handleWaveTimeout now w wc = Inr wc' \<Longrightarrow> core_wave_reach H wc'"

text \<open>A node only ever records its own complaint, under one key per wave.\<close>

definition own_complaints :: "(u64, (string, complaint) gomap) gomap \<Rightarrow> bool" where
  "own_complaints m = (\<forall>w cs. gget m w = Some cs \<longrightarrow> gwf cs \<and> gkeys cs \<subseteq> {complaint_key w})"

definition core_wave_inv :: "core_wave \<Rightarrow> bool" where
  "core_wave_inv wc = (cw_f wc = core_f (length (cw_validators wc)) \<and> own_complaints (cw_complaints wc))"

lemma own_complaints_simps [simp]:
  "own_complaints []"
  "own_complaints m \<Longrightarrow> own_complaints (gput w [] m)"
  "own_complaints m \<Longrightarrow> own_complaints (gdel_all ws m)"
  "own_complaints m \<Longrightarrow> gget m w = Some cs \<Longrightarrow> own_complaints (gput w (gput (complaint_key w) c cs) m)"
  unfolding own_complaints_def by (simp, simp, simp, simp, blast?)

lemma core_startNewWave_inv:
  "core_startNewWave wc = Inr (wc', ts) \<Longrightarrow> core_wave_inv wc \<Longrightarrow> core_wave_inv wc'"
  by (auto simp: core_startNewWave_def core_wave_inv_def Let_def split: sum.splits if_splits)

lemma core_advanceWave_inv:
  "core_advanceWave wc = Inr (wc', ts) \<Longrightarrow> core_wave_inv wc \<Longrightarrow> core_wave_inv wc'"
  unfolding core_advanceWave_def by (erule core_startNewWave_inv) (simp add: core_wave_inv_def)

lemma core_commitBlocks_other:
  "cw_f (fold (core_commitBlock H hp) bs wc) = cw_f wc"
  "cw_validators (fold (core_commitBlock H hp) bs wc) = cw_validators wc"
  "cw_complaints (fold (core_commitBlock H hp) bs wc) = cw_complaints wc"
  by (induction bs arbitrary: wc) (simp_all add: core_commitBlock_def Let_def)

lemma core_commitProposal_inv:
  assumes "core_commitProposal H hp dt w p wc = Inr (wc', ts)" "core_wave_inv wc"
  shows "core_wave_inv wc'"
proof (rule core_advanceWave_inv)
  let ?wc = "fold (core_commitBlock H hp) (GetBlocksInCausalHistory H hp dt [prop_block p]) wc"
  show "core_advanceWave (core_limitCommittedBlocks H hp (core_cleanupOldWaveData w ?wc)) = Inr (wc', ts)"
    using assms(1) by (simp add: core_commitProposal_def)
  show "core_wave_inv (core_limitCommittedBlocks H hp (core_cleanupOldWaveData w ?wc))"
    using assms(2) by (simp add: core_wave_inv_def core_limitCommittedBlocks_def core_cleanupOldWaveData_def
        Let_def core_commitBlocks_other)
qed

lemma core_handleProposal_inv:
  assumes "core_handleProposal H hp now dt p wc = Inr (wc', ts)" "core_wave_inv wc"
  shows "core_wave_inv wc'"
proof -
  have "core_wave_inv (wc\<lparr>cw_votes := m\<rparr>)" for m
    using assms(2) by (simp add: core_wave_inv_def)
  then show ?thesis
    using assms
    by (auto simp: core_handleProposal_def core_checkCommitCondition_def Let_def
        split: sum.splits bool.splits option.splits if_splits intro: core_commitProposal_inv)
qed

lemma core_handleWaveTimeout_inv:
  "core_handleWaveTimeout now w wc = Inr wc' \<Longrightarrow> core_wave_inv wc \<Longrightarrow> core_wave_inv wc'"
  by (auto simp: core_handleWaveTimeout_def core_wave_inv_def Let_def split: option.splits if_splits)

lemma core_createProposal_inv:
  "core_createProposal H hp now dt w wc = (hp', wc', ts) \<Longrightarrow> core_wave_inv wc \<Longrightarrow> core_wave_inv wc'"
  by (auto simp: core_createProposal_def core_wave_inv_def Let_def split: option.splits if_splits)

lemma core_wave_reach_inv: "core_wave_reach H wc \<Longrightarrow> core_wave_inv wc"
proof (induction rule: core_wave_reach.induct)
  case (cw_new me vs timeout wc ts)
  then show ?case
    by (elim core_startNewWave_inv) (simp add: core_wave_inv_def core_NewWaveConsensus_def)
qed (auto intro: core_createProposal_inv core_handleProposal_inv core_handleWaveTimeout_inv)

section \<open>Commit order\<close>

text \<open>The map of committed blocks and the commit order hold the same hashes, none twice.\<close>

definition commit_inv :: "header_digest \<Rightarrow> block_heap \<Rightarrow> core_wave \<Rightarrow> bool" where
  "commit_inv H hp wc = (gwf (cw_committedBlocks wc) \<and>
     distinct (map (\<lambda>b. block_ComputeHash H (hp b)) (cw_commitOrder wc)) \<and>
     gkeys (cw_committedBlocks wc) = (\<lambda>b. block_ComputeHash H (hp b)) ` set (cw_commitOrder wc))"

lemma core_commitBlock_inv:
  "commit_inv H hp wc \<Longrightarrow> commit_inv H hp (core_commitBlock H hp b wc)"
  by (auto simp: commit_inv_def core_commitBlock_def Let_def ghas_gkeys)

lemma core_commitBlocks_inv:
  "commit_inv H hp wc \<Longrightarrow> commit_inv H hp (fold (core_commitBlock H hp) bs wc)"
  by (induction bs arbitrary: wc) (auto simp: core_commitBlock_inv)

lemma core_commitBlock_fields:
  "cw_commitOrder (core_commitBlock H hp b wc) = cw_commitOrder wc @
     (if ghas (cw_committedBlocks wc) (block_ComputeHash H (hp b)) then [] else [b])"
  "gkeys (cw_committedBlocks (core_commitBlock H hp b wc)) =
     insert (block_ComputeHash H (hp b)) (gkeys (cw_committedBlocks wc))"
  by (auto simp: core_commitBlock_def Let_def ghas_gkeys)

lemma core_commitBlocks_order:
  "\<exists>new. cw_commitOrder (fold (core_commitBlock H hp) bs wc) = cw_commitOrder wc @ new \<and> set new \<subseteq> set bs"
proof (induction bs arbitrary: wc)
  case (Cons b bs)
  obtain new where "cw_commitOrder (fold (core_commitBlock H hp) (b # bs) wc) =
      cw_commitOrder (core_commitBlock H hp b wc) @ new" "set new \<subseteq> set bs"
    using Cons [of "core_commitBlock H hp b wc"] by auto
  then show ?case
    by (auto simp: core_commitBlock_fields split: if_splits)
qed simp

lemma core_commitBlocks_keys:
  "gkeys (cw_committedBlocks (fold (core_commitBlock H hp) bs wc)) =
     gkeys (cw_committedBlocks wc) \<union> (\<lambda>b. block_ComputeHash H (hp b)) ` set bs"
  by (induction bs arbitrary: wc) (auto simp: core_commitBlock_fields)

lemma core_limit_inv:
  assumes "commit_inv H hp wc"
  shows "commit_inv H hp (core_limitCommittedBlocks H hp wc)"
proof (cases "length (cw_commitOrder wc) > 100")
  case True
  let ?f = "\<lambda>b. block_ComputeHash H (hp b)"
  let ?n = "length (cw_commitOrder wc) - 100"
  have split: "map ?f (cw_commitOrder wc) = map ?f (take ?n (cw_commitOrder wc)) @ map ?f (drop ?n (cw_commitOrder wc))"
    by (metis append_take_drop_id map_append)
  have "distinct (map ?f (take ?n (cw_commitOrder wc)) @ map ?f (drop ?n (cw_commitOrder wc)))"
    using assms split by (simp add: commit_inv_def)
  moreover have "gkeys (cw_committedBlocks wc) =
      set (map ?f (take ?n (cw_commitOrder wc))) \<union> set (map ?f (drop ?n (cw_commitOrder wc)))"
    using assms by (metis commit_inv_def set_append set_map split)
  ultimately show ?thesis
    using True assms by (auto simp: commit_inv_def core_limitCommittedBlocks_def Let_def)
qed (simp add: core_limitCommittedBlocks_def assms)

section \<open>Properties\<close>

text \<open>The leader never accepts its own proposal: \<open>createProposal\<close> writes the wave number into
  the header of a stored block and proposes the hash of the changed header, but the DAG
  still holds the block under the old hash, so \<open>handleProposal\<close> finds no such block and
  neither votes nor commits.  The digest must not map the changed header to the hash of a
  different header of the heap.\<close>

theorem core_own_proposal_rejected:
  assumes "dag_inv H hp (dt_dag dt)"
    and "\<forall>h c. dag_GetBlock (dt_dag dt) h = Inr c \<longrightarrow> hdr_wave (hd_of hp c) \<noteq> w"
    and "\<forall>b c. block_ComputeHash H (hp c) = block_ComputeHash H (set_wave w (hp b)) \<longrightarrow>
           hd_of hp c = blk_header (set_wave w (hp b))"
    and "core_createProposal H hp now dt w wc = (hp', wc', [TaskHandleProposal p])"
  shows "core_handleProposal H hp' now' dt p wc' = Inr (wc', [])"
proof -
  obtain b where p: "prop_block_hash p = block_ComputeHash H (set_wave w (hp b))"
    using assms(4) by (auto simp: core_createProposal_def Let_def split: if_splits option.splits)
  have "transport_GetBlock dt (prop_block_hash p) \<noteq> Inr c" for c
  proof
    assume found: "transport_GetBlock dt (prop_block_hash p) = Inr c"
    then have "block_ComputeHash H (hp c) = prop_block_hash p"
      using assms(1) by (auto simp: transport_GetBlock_def dag_GetBlock_def dag_inv_def hash_agrees_def split: option.splits)
    then have "hd_of hp c = blk_header (set_wave w (hp b))"
      using assms(3) p by simp
    then have "hdr_wave (hd_of hp c) = w"
      by (simp add: set_wave_def)
    then show False
      using assms(2) found by (simp add: transport_GetBlock_def)
  qed
  then obtain e where "transport_GetBlock dt (prop_block_hash p) = Inl e"
    by (cases "transport_GetBlock dt (prop_block_hash p)") auto
  then show ?thesis
    by (simp add: core_handleProposal_def core_validateProposal_def)
qed

text \<open>A wave timeout never advances the wave: a node records one complaint per wave, its own, so
  with at most three validators the threshold \<open>2f+1 = 1\<close> is met and \<open>advanceWave\<close> blocks on the
  mutex that \<open>handleWaveTimeout\<close> holds, and with four or more the threshold is out of reach.\<close>

theorem core_timeout_never_advances:
  assumes "core_wave_reach H wc" "gget (cw_complaints wc) w = Some cs"
  shows "if length (cw_validators wc) \<le> 3 then core_handleWaveTimeout now w wc = Inl Deadlock
    else \<exists>wc'. core_handleWaveTimeout now w wc = Inr wc' \<and> cw_currentWave wc' = cw_currentWave wc"
proof -
  let ?c = "\<lambda>c. gput (complaint_key w) c cs"
  have inv: "core_wave_inv wc"
    using core_wave_reach_inv [OF assms(1)] .
  have "glen (?c c) = 1" for c
  proof -
    have "gwf cs" "gkeys cs \<subseteq> {complaint_key w}"
      using inv assms(2) by (auto simp: core_wave_inv_def own_complaints_def)
    then have one: "insert (complaint_key w) (gkeys cs) = {complaint_key w}" and wf: "gwf (?c c)"
      by auto
    show ?thesis
      unfolding glen_card [OF wf] gkeys_gput one by simp
  qed
  moreover have "cw_f wc = 0 \<longleftrightarrow> length (cw_validators wc) \<le> 3"
    using inv by (auto simp: core_wave_inv_def core_f_def)
  ultimately show ?thesis
    using assms(2) by (auto simp: core_handleWaveTimeout_def Let_def)
qed

text \<open>(C32) Committing keeps the map of committed blocks and the commit order consistent and within 100
  blocks, appends only blocks of the proposal's causal history, drops only from the front,
  and moves to the next wave.\<close>

theorem core_commit_consistent:
  assumes "commit_inv H hp wc" "core_commitProposal H hp dt w p wc = Inr (wc', ts)"
  shows "length (core_GetCommittedBlocks wc') \<le> 100
    \<and> (\<forall>h. core_GetBlockCommitStatus wc' h \<longleftrightarrow>
          (\<exists>b \<in> set (core_GetCommittedBlocks wc'). block_ComputeHash H (hp b) = h))
    \<and> (\<exists>k new. core_GetCommittedBlocks wc' = drop k (core_GetCommittedBlocks wc @ new)
          \<and> set new \<subseteq> set (GetBlocksInCausalHistory H hp dt [prop_block p]))
    \<and> core_GetCurrentWave wc' = core_GetCurrentWave wc + 1"
proof -
  let ?h = "GetBlocksInCausalHistory H hp dt [prop_block p]"
  let ?c = "fold (core_commitBlock H hp) ?h wc"
  let ?l = "core_limitCommittedBlocks H hp (core_cleanupOldWaveData w ?c)"
  have cleanup: "cw_commitOrder (core_cleanupOldWaveData w x) = cw_commitOrder x"
      "cw_committedBlocks (core_cleanupOldWaveData w x) = cw_committedBlocks x" for x
    by (simp_all add: core_cleanupOldWaveData_def Let_def)
  have "commit_inv H hp (core_cleanupOldWaveData w ?c)"
    using core_commitBlocks_inv [OF assms(1), of ?h] by (simp add: commit_inv_def cleanup)
  then have inv: "commit_inv H hp ?l"
    by (rule core_limit_inv)
  have same: "cw_commitOrder wc' = cw_commitOrder ?l" "cw_committedBlocks wc' = cw_committedBlocks ?l"
      "cw_currentWave wc' = cw_currentWave ?l + 1"
    using assms(2) by (auto simp: core_commitProposal_def core_advanceWave_def core_startNewWave_def Let_def
        split: sum.splits if_splits)
  have wave: "cw_currentWave ?l = cw_currentWave wc"
  proof -
    have "cw_currentWave (fold (core_commitBlock H hp) bs wc) = cw_currentWave wc" for bs
      by (induction bs arbitrary: wc) (simp_all add: core_commitBlock_def Let_def)
    then show ?thesis
      by (simp add: core_limitCommittedBlocks_def core_cleanupOldWaveData_def Let_def)
  qed
  obtain new where new: "cw_commitOrder ?c = cw_commitOrder wc @ new" "set new \<subseteq> set ?h"
    using core_commitBlocks_order by blast
  have "cw_commitOrder ?l = drop (length (cw_commitOrder ?c) - 100) (cw_commitOrder ?c)"
    by (simp add: core_limitCommittedBlocks_def Let_def cleanup)
  note limit = this
  have "\<exists>k new. cw_commitOrder ?l = drop k (cw_commitOrder wc @ new) \<and> set new \<subseteq> set ?h"
    using limit new by metis
  moreover have "length (cw_commitOrder ?l) \<le> 100"
    unfolding limit by simp
  ultimately show ?thesis
    using inv same wave
    by (auto simp: core_GetCommittedBlocks_def core_GetBlockCommitStatus_def core_GetCurrentWave_def
        commit_inv_def ghas_gkeys)
qed

text \<open>In waves 0 to 4 the bound \<open>currentWave-5\<close> wraps around, and the clean-up after a commit
  deletes the proposal, the votes and the complaints of every wave that has a proposal.\<close>

theorem core_cleanup_wraps_early:
  assumes "unat w < 5" "v \<in> gkeys (cw_proposals wc)" "v < - 5"
  shows "gget (cw_proposals (core_cleanupOldWaveData w wc)) v = None
    \<and> gget (cw_votes (core_cleanupOldWaveData w wc)) v = None
    \<and> gget (cw_complaints (core_cleanupOldWaveData w wc)) v = None"
proof -
  have "unat w = 0 \<or> unat w = 1 \<or> unat w = 2 \<or> unat w = 3 \<or> unat w = 4"
    using assms(1) by linarith
  then have "w = 0 \<or> w = 1 \<or> w = 2 \<or> w = 3 \<or> w = 4"
    by (simp add: word_unat_eq_iff)
  then have "- 5 \<le> w - 5"
    by (auto simp: word_le_nat_alt unat_eq_nat_uint uint_word_ariths)
  then have "v < w - 5"
    using assms(3) by (rule less_le_trans [rotated])
  then show ?thesis
    using assms(2) by (simp add: core_cleanupOldWaveData_def Let_def gkeys_def)
qed

section \<open>Witnesses\<close>

definition sample_wave :: core_wave where
  "sample_wave = core_NewWaveConsensus ''v0'' [''v0'', ''v1''] 3"

definition sample_wave_transport :: dag_transport where
  "sample_wave_transport = \<lparr>dt_dag = \<lparr>ds_blocks = sample_index [2], ds_references = [], ds_height = 1,
     ds_maxBlocks = 20\<rparr>, dt_currentRound = 2, dt_roundDuration = 1, dt_blockBroadcast = [],
     dt_recentBlocks = [(2, [2])]\<rparr>"

definition sample_proposal :: "u64 \<Rightarrow> proposal" where
  "sample_proposal w = \<lparr>prop_id = block_ComputeHash sample_digest (set_wave w (sample_heap 2)),
     prop_block_hash = block_ComputeHash sample_digest (set_wave w (sample_heap 2)),
     prop_round = 2, prop_wave = w, prop_block = 2, prop_proposer = ''v0'', prop_time = 0,
     prop_status = ProposalStatusPending,
     prop_signature = \<lparr>sig_validator = [], sig_bytes = [], sig_time = 0\<rparr>\<rparr>"

lemma sample_createProposal:
  "core_createProposal sample_digest sample_heap 0 sample_wave_transport 1 sample_wave =
     (sample_heap(2 := set_wave 1 (sample_heap 2)),
      sample_wave\<lparr>cw_proposals := gput 1 (sample_proposal 1) (cw_proposals sample_wave)\<rparr>,
      [TaskHandleProposal (sample_proposal 1)])"
proof -
  have un: "GetUncommittedBlocks sample_wave_transport = [2]"
    by (simp add: GetUncommittedBlocks_def sample_wave_transport_def uncommitted_loop_early slice_at_def gget_def)
  have "core_selectProposal sample_heap [2] = Some 2"
    by (simp add: core_selectProposal_def)
  then show ?thesis
    by (simp add: core_createProposal_def Let_def un sample_proposal_def sample_wave_def core_NewWaveConsensus_def set_wave_def)
qed

theorem core_own_proposal_rejected_witness:
  "core_handleProposal sample_digest (sample_heap(2 := set_wave 1 (sample_heap 2))) 0 sample_wave_transport
     (sample_proposal 1) (sample_wave\<lparr>cw_proposals := gput 1 (sample_proposal 1) (cw_proposals sample_wave)\<rparr>)
   = Inr (sample_wave\<lparr>cw_proposals := gput 1 (sample_proposal 1) (cw_proposals sample_wave)\<rparr>, [])"
proof (rule core_own_proposal_rejected [OF _ _ _ sample_createProposal])
  have get: "gget (ds_blocks (dt_dag sample_wave_transport)) h = Some b \<longleftrightarrow> b = 2 \<and> h = sample_key 2" for h b
    by (simp add: sample_wave_transport_def gget_sample_index) auto
  show "dag_inv sample_digest sample_heap (dt_dag sample_wave_transport)"
    unfolding dag_inv_def hash_agrees_def get by (simp add: sample_wave_transport_def gwf_sample_index)
  show "\<forall>h c. dag_GetBlock (dt_dag sample_wave_transport) h = Inr c \<longrightarrow> hdr_wave (hd_of sample_heap c) \<noteq> 1"
    by simp
  show "\<forall>b c. block_ComputeHash sample_digest (sample_heap c) =
        block_ComputeHash sample_digest (set_wave 1 (sample_heap b)) \<longrightarrow>
      hd_of sample_heap c = blk_header (set_wave 1 (sample_heap b))"
    by (simp add: set_wave_def block_ComputeHash_def sample_digest_def sample_key_def uint64ToBytes_inj append_eq_append_conv)
qed

lemma sample_wave_started:
  "\<exists>wc ts. core_startNewWave sample_wave = Inr (wc, ts) \<and> gget (cw_complaints wc) 1 = Some []
     \<and> cw_validators wc = [''v0'', ''v1'']"
  by (simp add: core_startNewWave_def sample_wave_def core_NewWaveConsensus_def core_isLeader_def
      rotation_leader_eq Let_def)

theorem core_timeout_never_advances_witness:
  "\<exists>wc. core_wave_reach sample_digest wc \<and> core_handleWaveTimeout 0 1 wc = Inl Deadlock"
proof -
  obtain wc ts where wc: "core_startNewWave sample_wave = Inr (wc, ts)" "gget (cw_complaints wc) 1 = Some []"
      "cw_validators wc = [''v0'', ''v1'']"
    using sample_wave_started by blast
  have reach: "core_wave_reach sample_digest wc"
    using wc(1) unfolding sample_wave_def by (rule cw_new)
  then show ?thesis
    using core_timeout_never_advances [OF reach wc(2)] wc(3) by auto
qed

theorem core_commit_consistent_witness:
  "\<exists>wc' ts. core_commitProposal sample_digest sample_heap sample_wave_transport 1 (sample_proposal 1) sample_wave = Inr (wc', ts)
     \<and> length (core_GetCommittedBlocks wc') \<le> 100"
proof -
  have "commit_inv sample_digest sample_heap sample_wave"
    by (simp add: commit_inv_def sample_wave_def core_NewWaveConsensus_def)
  moreover have "\<exists>r. core_commitProposal sample_digest sample_heap sample_wave_transport 1 (sample_proposal 1) sample_wave = Inr r"
  proof -
    have "cw_validators (fold (core_commitBlock sample_digest sample_heap) bs wc) = cw_validators wc"
      "cw_currentWave (fold (core_commitBlock sample_digest sample_heap) bs wc) = cw_currentWave wc" for bs wc
      by (induction bs arbitrary: wc) (simp_all add: core_commitBlock_def Let_def)
    then show ?thesis
      by (simp add: core_commitProposal_def core_advanceWave_def core_startNewWave_def core_limitCommittedBlocks_def
          core_cleanupOldWaveData_def core_isLeader_def rotation_leader_eq Let_def sample_wave_def core_NewWaveConsensus_def)
  qed
  ultimately show ?thesis
    using core_commit_consistent by (metis surj_pair)
qed

theorem core_cleanup_wraps_early_witness:
  "gget (cw_proposals (core_cleanupOldWaveData 1 (sample_wave\<lparr>cw_proposals := [(1, sample_proposal 1)]\<rparr>))) 1 = None"
  using core_cleanup_wraps_early [of 1 1 "sample_wave\<lparr>cw_proposals := [(1, sample_proposal 1)]\<rparr>"]
  by (simp add: gkeys_def word_less_def)

end
