(* ===== verification/Hex.thy ===== *)
theory Hex
  imports Chain_Types
begin

text \<open>
  The text form of hashes: \<open>fmt.Sprintf("%x", bs)\<close> writes two lower-case hexadecimal
  digits per byte, and \<open>hex.DecodeString\<close> reads them back.  The wave consensus keys its
  maps by this text, and the remote DAG reader recovers block hashes from it.
\<close>

definition hex_digit :: "nat \<Rightarrow> char" where
  "hex_digit n = (if n < 10 then char_of (48 + n) else char_of (87 + n))"

definition hex_of :: "byte list \<Rightarrow> string" where
  "hex_of bs = concat (map (\<lambda>b. [hex_digit (unat b div 16), hex_digit (unat b mod 16)]) bs)"

text \<open>\<open>fromHexChar\<close> of \<open>encoding/hex\<close>: digits and letters of either case.\<close>

definition hex_value :: "char \<Rightarrow> nat option" where
  "hex_value c = (let n = of_char c :: nat in
     if 48 \<le> n \<and> n \<le> 57 then Some (n - 48)
     else if 97 \<le> n \<and> n \<le> 102 then Some (n - 87)
     else if 65 \<le> n \<and> n \<le> 70 then Some (n - 55)
     else None)"

fun hex_DecodeString :: "string \<Rightarrow> byte list option" where
  "hex_DecodeString [] = Some []"
| "hex_DecodeString [c] = None"
| "hex_DecodeString (c # d # s) = (case (hex_value c, hex_value d, hex_DecodeString s) of
     (Some a, Some b, Some bs) \<Rightarrow> Some (word_of_nat (16 * a + b) # bs)
   | _ \<Rightarrow> None)"

lemma hex_value_digit: "n < 16 \<Longrightarrow> hex_value (hex_digit n) = Some n"
  by (auto simp: hex_value_def hex_digit_def Let_def)

lemma hex_of_simps [simp]:
  "hex_of [] = []"
  "hex_of (b # bs) = hex_digit (unat b div 16) # hex_digit (unat b mod 16) # hex_of bs"
  by (simp_all add: hex_of_def)

lemma length_hex_of [simp]: "length (hex_of bs) = 2 * length bs"
  by (induction bs) auto

lemma hex_round_trip: "hex_DecodeString (hex_of bs) = Some bs"
proof (induction bs)
  case (Cons b bs)
  have "unat b < 256"
    using unsigned_less [of b, where ?'a = nat] by simp
  then have "unat b div 16 < 16"
    by simp
  then show ?case
    using Cons by (simp add: hex_value_digit)
qed simp

lemma hex_of_inj [simp]: "hex_of a = hex_of b \<longleftrightarrow> a = b"
  by (metis hex_round_trip option.inject)

lemma hex_digit_not_underscore: "n < 16 \<Longrightarrow> hex_digit n \<noteq> CHR ''_''"
proof
  assume "n < 16" "hex_digit n = CHR ''_''"
  then have "hex_value (CHR ''_'') = Some n"
    using hex_value_digit by metis
  then show False
    by (simp add: hex_value_def)
qed

lemma hex_of_no_underscore: "CHR ''_'' \<notin> set (hex_of bs)"
proof (induction bs)
  case (Cons b bs)
  have "unat b < 256"
    using unsigned_less [of b, where ?'a = nat] by simp
  then have "unat b div 16 < 16" "unat b mod 16 < 16"
    by simp_all
  then show ?case
    using Cons hex_digit_not_underscore by (metis hex_of_simps(2) set_ConsD)
qed simp

text \<open>The key \<open>fmt.Sprintf("%s_%s", hex, voter)\<close> determines both parts, since no hexadecimal digit is
  an underscore.\<close>

definition voter_key :: "hash \<Rightarrow> address \<Rightarrow> string" where
  "voter_key h voter = hex_of h @ ''_'' @ voter"

lemma takeWhile_hex: "takeWhile (\<lambda>c. c \<noteq> CHR ''_'') (voter_key h v) = hex_of h"
proof -
  have "c \<noteq> CHR ''_''" if "c \<in> set (hex_of h)" for c
    using that hex_of_no_underscore by metis
  then show ?thesis
    by (simp add: voter_key_def)
qed

lemma voter_key_inj [simp]: "voter_key h v = voter_key g w \<longleftrightarrow> h = g \<and> v = w"
proof
  assume eq: "voter_key h v = voter_key g w"
  then have "hex_of h = hex_of g"
    by (metis takeWhile_hex)
  then show "h = g \<and> v = w"
    using eq by (simp add: voter_key_def)
qed simp

lemma voter_key_not_hex [simp]: "voter_key h v \<noteq> hex_of g" "hex_of g \<noteq> voter_key h v"
proof -
  have "CHR ''_'' \<in> set (voter_key h v)"
    by (simp add: voter_key_def)
  then show "voter_key h v \<noteq> hex_of g" "hex_of g \<noteq> voter_key h v"
    using hex_of_no_underscore by metis+
qed

end
