(* ===== verification/Wave_Consensus.thy ===== *)
theory Wave_Consensus
  imports Hex Core_Dag Leader
begin

text \<open>
  \<open>internal/consensus/wave_consensus.go\<close>: the wave consensus that the nodes run over the
  blocks of DAG sync.  A leader picks an unprocessed block of the highest round, every
  validator votes for it, and a majority of commit votes finalises the wave and confirms
  the block, what it references and the DAG blocks of its round and earlier.

  Messages and goroutines are returned: a handler yields the new state, the messages it
  broadcasts and the goroutines it starts.  \<open>hp\<close> is the block heap, \<open>H\<close> the header digest,
  \<open>recent\<close> what \<open>DAGReader.GetRecentBlocks\<close> returns during the handler, and \<open>cap\<close> the
  capacity of the slice that holds a hash, which decides whether \<open>hash[:8]\<close> panics.
\<close>

section \<open>State and messages\<close>

record wave_vote =
  wv_wave :: u64
  wv_hash :: hash
  wv_voter :: address
  wv_type :: string
  wv_time :: int

record wave_message =
  wm_type :: string
  wm_vote :: "wave_vote option"
  wm_wave :: u64
  wm_blocks :: "bref list"
  wm_validator :: address
  wm_time :: int

record wave_consensus =
  wc_validatorID :: address
  wc_validators :: "address list"
  wc_currentWave :: u64
  wc_waveBlocks :: "(u64, bref list) gomap"
  wc_waveVotes :: "(u64, (string, wave_vote) gomap) gomap"
  wc_finalizedWaves :: "(u64, bool) gomap"
  wc_confirmedBlocks :: "(string, bool) gomap"
  wc_maxWaves :: int
  wc_maxConfirmedBlocks :: int

datatype wave_task =
    TaskCleanup
  | TaskProcessWave u64
  | TaskCheckFinalization u64

definition NewWaveConsensus :: "address \<Rightarrow> address list \<Rightarrow> wave_consensus" where
  "NewWaveConsensus me vs = \<lparr>wc_validatorID = me, wc_validators = vs, wc_currentWave = 0,
     wc_waveBlocks = [], wc_waveVotes = [], wc_finalizedWaves = [], wc_confirmedBlocks = [],
     wc_maxWaves = 10, wc_maxConfirmedBlocks = 100\<rparr>"

text \<open>\<open>m[k]\<close> of a \<open>map[K]bool\<close>.\<close>

definition flag :: "('k, bool) gomap \<Rightarrow> 'k \<Rightarrow> bool" where
  "flag m k = (gget m k = Some True)"

section \<open>Waves and leaders\<close>

definition wave_advanceWave :: "wave_consensus \<Rightarrow> go_panic + wave_consensus \<times> wave_task list" where
  "wave_advanceWave wc =
     (if wc_currentWave wc > 0 \<and> \<not> flag (wc_finalizedWaves wc) (wc_currentWave wc) then Inr (wc, [])
      else let w = wc_currentWave wc + 1;
               cleanup = (if w mod 2 = 0 then [TaskCleanup] else [])
           in case isWaveLeader (wc_validatorID wc) (wc_validators wc) w of
                Inl p \<Rightarrow> Inl p
              | Inr leader \<Rightarrow> Inr (wc\<lparr>wc_currentWave := w\<rparr>, cleanup @ (if leader then [TaskProcessWave w] else [])))"

section \<open>Voting\<close>

text \<open>The hash that identifies a block in the vote maps: \<open>OriginalHash\<close> when the block came from
  the DAG API, the header hash otherwise.\<close>

definition vote_hash :: "header_digest \<Rightarrow> block \<Rightarrow> hash" where
  "vote_hash H b = (if blk_original_hash b \<noteq> [] then blk_original_hash b else block_ComputeHash H b)"

definition votes_at :: "wave_consensus \<Rightarrow> u64 \<Rightarrow> (string, wave_vote) gomap" where
  "votes_at wc w = slice_at (wc_waveVotes wc) w"

definition store_vote :: "u64 \<Rightarrow> string \<Rightarrow> wave_vote \<Rightarrow> wave_consensus \<Rightarrow> wave_consensus" where
  "store_vote w k v wc = wc\<lparr>wc_waveVotes := gput w (gput k v (votes_at wc w)) (wc_waveVotes wc)\<rparr>"

definition broadcastVote :: "address \<Rightarrow> int \<Rightarrow> wave_vote \<Rightarrow> wave_message" where
  "broadcastVote me now v = \<lparr>wm_type = ''vote'', wm_vote = Some v, wm_wave = wv_wave v, wm_blocks = [],
     wm_validator = me, wm_time = now\<rparr>"

definition broadcastWaveBlocks :: "address \<Rightarrow> int \<Rightarrow> u64 \<Rightarrow> bref list \<Rightarrow> wave_message" where
  "broadcastWaveBlocks me now w bs = \<lparr>wm_type = ''wave_blocks'', wm_vote = None, wm_wave = w, wm_blocks = bs,
     wm_validator = me, wm_time = now\<rparr>"

definition voteOnBlock ::
  "header_digest \<Rightarrow> block_heap \<Rightarrow> (hash \<Rightarrow> nat) \<Rightarrow> int \<Rightarrow> u64 \<Rightarrow> bref \<Rightarrow> wave_consensus
     \<Rightarrow> go_panic + wave_consensus \<times> wave_message list \<times> wave_task list" where
  "voteOnBlock H hp cap now w b wc =
     (let h = vote_hash H (hp b);
          v = \<lparr>wv_wave = w, wv_hash = h, wv_voter = wc_validatorID wc, wv_type = ''commit'', wv_time = now\<rparr>
      in if cap h < 8 then Inl SliceBoundsOutOfRange
         else Inr (store_vote w (hex_of h) v wc, [broadcastVote (wc_validatorID wc) now v],
                   [TaskCheckFinalization w]))"

definition handleReceivedVote ::
  "(hash \<Rightarrow> nat) \<Rightarrow> wave_vote option \<Rightarrow> address \<Rightarrow> wave_consensus
     \<Rightarrow> go_panic + wave_consensus \<times> wave_task list" where
  "handleReceivedVote cap vote fromValidator wc =
     (case vote of
        None \<Rightarrow> Inr (wc, [])
      | Some v \<Rightarrow>
          if wv_voter v \<notin> set (wc_validators wc) then Inr (wc, [])
          else if cap (wv_hash v) < 8 then Inl SliceBoundsOutOfRange
          else Inr (store_vote (wv_wave v) (voter_key (wv_hash v) (wv_voter v)) v wc,
                    [TaskCheckFinalization (wv_wave v)]))"

fun voteOnBlocks ::
  "header_digest \<Rightarrow> block_heap \<Rightarrow> (hash \<Rightarrow> nat) \<Rightarrow> int \<Rightarrow> u64 \<Rightarrow> bref list \<Rightarrow> wave_consensus
     \<Rightarrow> go_panic + wave_consensus \<times> wave_message list \<times> wave_task list" where
  "voteOnBlocks H hp cap now w [] wc = Inr (wc, [], [])"
| "voteOnBlocks H hp cap now w (b # bs) wc =
     (case voteOnBlock H hp cap now w b wc of
        Inl p \<Rightarrow> Inl p
      | Inr (wc1, ms, ts) \<Rightarrow> map_sum id (\<lambda>(wc2, ms', ts'). (wc2, ms @ ms', ts @ ts'))
          (voteOnBlocks H hp cap now w bs wc1))"

definition handleReceivedWaveBlocks ::
  "header_digest \<Rightarrow> block_heap \<Rightarrow> (hash \<Rightarrow> nat) \<Rightarrow> int \<Rightarrow> u64 \<Rightarrow> bref list \<Rightarrow> address \<Rightarrow> wave_consensus
     \<Rightarrow> go_panic + wave_consensus \<times> wave_message list \<times> wave_task list" where
  "handleReceivedWaveBlocks H hp cap now w bs fromValidator wc =
     (if bs = [] then Inr (wc, [], [])
      else case isValidWaveLeader (wc_validatorID wc) (wc_validators wc) fromValidator w of
             Inl p \<Rightarrow> Inl p
           | Inr False \<Rightarrow> Inr (wc, [], [])
           | Inr True \<Rightarrow> voteOnBlocks H hp cap now w bs wc)"

definition handleWaveMessage ::
  "header_digest \<Rightarrow> block_heap \<Rightarrow> (hash \<Rightarrow> nat) \<Rightarrow> int \<Rightarrow> wave_message \<Rightarrow> wave_consensus
     \<Rightarrow> go_panic + wave_consensus \<times> wave_message list \<times> wave_task list" where
  "handleWaveMessage H hp cap now m wc =
     (if wm_type m = ''vote''
      then map_sum id (\<lambda>(wc', ts). (wc', [], ts)) (handleReceivedVote cap (wm_vote m) (wm_validator m) wc)
      else if wm_type m = ''wave_blocks''
      then handleReceivedWaveBlocks H hp cap now (wm_wave m) (wm_blocks m) (wm_validator m) wc
      else Inr (wc, [], []))"

section \<open>The leader's step\<close>

text \<open>Whether a block was the block of a finalised wave; the outcome does not depend on the order in
  which the finalised waves are visited.\<close>

definition alreadyProcessed :: "header_digest \<Rightarrow> block_heap \<Rightarrow> wave_consensus \<Rightarrow> bref \<Rightarrow> bool" where
  "alreadyProcessed H hp wc b =
     list_ex (\<lambda>(w, _). list_ex (\<lambda>x. block_ComputeHash H (hp x) = block_ComputeHash H (hp b))
       (slice_at (wc_waveBlocks wc) w)) (wc_finalizedWaves wc)"

definition collect_candidate ::
  "header_digest \<Rightarrow> block_heap \<Rightarrow> wave_consensus \<Rightarrow> bref \<Rightarrow> u64 \<times> bref list \<Rightarrow> u64 \<times> bref list" where
  "collect_candidate H hp wc b = (\<lambda>(highest, cands).
     if alreadyProcessed H hp wc b then (highest, cands)
     else if hdr_round (hd_of hp b) > highest then (hdr_round (hd_of hp b), [b])
     else if hdr_round (hd_of hp b) = highest then (highest, cands @ [b])
     else (highest, cands))"

definition candidateBlocks :: "header_digest \<Rightarrow> block_heap \<Rightarrow> wave_consensus \<Rightarrow> bref list \<Rightarrow> bref list" where
  "candidateBlocks H hp wc recent = snd (fold (collect_candidate H hp wc) recent (0, []))"

definition write_wave :: "u64 \<Rightarrow> bref \<Rightarrow> block_heap \<Rightarrow> block_heap" where
  "write_wave w b hp = hp(b := (hp b)\<lparr>blk_header := (hd_of hp b)\<lparr>hdr_wave := w\<rparr>\<rparr>)"

definition processWave ::
  "header_digest \<Rightarrow> block_heap \<Rightarrow> (hash \<Rightarrow> nat) \<Rightarrow> int \<Rightarrow> bref list \<Rightarrow> u64 \<Rightarrow> wave_consensus
     \<Rightarrow> go_panic + block_heap \<times> wave_consensus \<times> wave_message list \<times> wave_task list" where
  "processWave H hp cap now recent w wc =
     (case isWaveLeader (wc_validatorID wc) (wc_validators wc) w of
        Inl p \<Rightarrow> Inl p
      | Inr False \<Rightarrow> Inr (hp, wc, [], [])
      | Inr True \<Rightarrow>
          if recent = [] then Inr (hp, wc, [], [])
          else let cands = candidateBlocks H hp wc recent
               in if cands = [] then Inr (hp, wc\<lparr>wc_finalizedWaves := gput w True (wc_finalizedWaves wc)\<rparr>, [], [])
                  else case go_rem (go_int w) (int (length cands)) of
                    Inl p \<Rightarrow> Inl p
                  | Inr i \<Rightarrow> (case go_index cands i of
                      Inl p \<Rightarrow> Inl p
                    | Inr b \<Rightarrow>
                       (let hp1 = write_wave w b hp;
                            wc1 = wc\<lparr>wc_waveBlocks := gput w [b] (wc_waveBlocks wc),
                                     wc_waveVotes := gput w (votes_at wc w) (wc_waveVotes wc)\<rparr>
                        in map_sum id (\<lambda>(wc2, ms, ts). (hp1, wc2, ms @ [broadcastWaveBlocks (wc_validatorID wc) now w [b]], ts))
                             (voteOnBlock H hp1 cap now w b wc1))))"

section \<open>Confirmation\<close>

text \<open>\<open>findBlockByHash\<close>: the first match over the waves in the order \<open>ord\<close> of the range.\<close>

definition findBlockByHash ::
  "header_digest \<Rightarrow> block_heap \<Rightarrow> u64 list \<Rightarrow> (u64, bref list) gomap \<Rightarrow> hash \<Rightarrow> bref option" where
  "findBlockByHash H hp ord blocks h =
     find (\<lambda>b. hex_of (vote_hash H (hp b)) = hex_of h) (concat (range_vals ord blocks))"

text \<open>\<open>m[k] = true\<close> with the log line \<open>k[:16]\<close> after it, which panics for a shorter key.\<close>

definition confirm_key :: "string \<Rightarrow> (string, bool) gomap \<Rightarrow> go_panic + (string, bool) gomap" where
  "confirm_key k m = (if length k < 16 then Inl SliceBoundsOutOfRange else Inr (gput k True m))"

text \<open>The last loop of \<open>confirmBlockAndReferences\<close>: the recent DAG blocks up to a round.\<close>

fun confirm_dag ::
  "header_digest \<Rightarrow> block_heap \<Rightarrow> u64 \<Rightarrow> bref list \<Rightarrow> (string, bool) gomap \<Rightarrow> go_panic + (string, bool) gomap" where
  "confirm_dag H hp round [] m = Inr m"
| "confirm_dag H hp round (b # bs) m =
     (let k = hex_of (vote_hash H (hp b))
      in if hdr_round (hd_of hp b) \<le> round \<and> \<not> flag m k
         then case confirm_key k m of Inl p \<Rightarrow> Inl p | Inr m1 \<Rightarrow> confirm_dag H hp round bs m1
         else confirm_dag H hp round bs m)"

text \<open>The recursion of \<open>confirmBlockAndReferences\<close> with its call stack made explicit: a block still to
  be confirmed, a reference still to be followed, and the DAG-level loop that runs after
  the references of a block.\<close>

datatype confirm_work =
    WorkBlock bref
  | WorkRef hash
  | WorkDag u64

fun work_block :: "confirm_work \<Rightarrow> bref option" where
  "work_block (WorkBlock b) = Some b"
| "work_block (WorkRef _) = None"
| "work_block (WorkDag _) = None"

fun work_weight :: "confirm_work \<Rightarrow> nat" where
  "work_weight (WorkBlock _) = 1"
| "work_weight (WorkRef _) = 2"
| "work_weight (WorkDag _) = 1"

definition open_keys ::
  "header_digest \<Rightarrow> block_heap \<Rightarrow> (u64, bref list) gomap \<Rightarrow> confirm_work list \<Rightarrow> (string, bool) gomap \<Rightarrow> string set" where
  "open_keys H hp blocks work m =
     (\<lambda>b. hex_of (vote_hash H (hp b))) ` (\<Union> (set ` snd ` set blocks) \<union> set (List.map_filter work_block work))
       - {k. flag m k}"

lemma finite_open_keys [simp]: "finite (open_keys H hp blocks work m)"
  by (simp add: open_keys_def)

lemma findBlockByHash_Some:
  assumes "findBlockByHash H hp ord blocks h = Some b"
  shows "vote_hash H (hp b) = h" "b \<in> \<Union> (set ` snd ` set blocks)"
proof -
  have b: "b \<in> set (concat (range_vals ord blocks))" "hex_of (vote_hash H (hp b)) = hex_of h"
    using find_SomeD [OF assms [unfolded findBlockByHash_def]] by simp_all
  then show "vote_hash H (hp b) = h"
    by simp
  obtain k bs where "map_of blocks k = Some bs" "b \<in> set bs"
    using b(1) by (auto simp: set_range_vals gget_def)
  then show "b \<in> \<Union> (set ` snd ` set blocks)"
    by (force dest: map_of_SomeD)
qed

lemma flag_gput [simp]: "flag (gput k True m) k' \<longleftrightarrow> k' = k \<or> flag m k'"
  by (simp add: flag_def)

lemma confirm_key_flag: "confirm_key k m = Inr m' \<Longrightarrow> flag m' k' \<longleftrightarrow> k' = k \<or> flag m k'"
  by (auto simp: confirm_key_def split: if_splits)

lemma confirm_dag_flag: "confirm_dag H hp round bs m = Inr m' \<Longrightarrow> flag m k \<Longrightarrow> flag m' k"
  by (induction bs arbitrary: m)
    (auto simp: Let_def confirm_key_flag split: if_splits sum.splits)

lemma open_keys_mono:
  assumes "\<And>k. flag m k \<Longrightarrow> flag m' k"
    and "set (List.map_filter work_block work') \<subseteq> \<Union> (set ` snd ` set blocks) \<union> set (List.map_filter work_block work)"
  shows "open_keys H hp blocks work' m' \<subseteq> open_keys H hp blocks work m"
  unfolding open_keys_def
proof (rule Diff_mono)
  show "(\<lambda>b. hex_of (vote_hash H (hp b))) ` (\<Union> (set ` snd ` set blocks) \<union> set (List.map_filter work_block work'))
      \<subseteq> (\<lambda>b. hex_of (vote_hash H (hp b))) ` (\<Union> (set ` snd ` set blocks) \<union> set (List.map_filter work_block work))"
    using assms(2) by (intro image_mono) blast
qed (use assms(1) in blast)

lemmas open_keys_card = card_mono [OF finite_open_keys open_keys_mono]

lemma map_filter_work_refs [simp]:
  "List.map_filter work_block (map (\<lambda>r. WorkRef (f r)) rs @ work) = List.map_filter work_block work"
  by (induction rs) (simp_all add: map_filter_simps)

lemma open_keys_visit:
  assumes "\<not> flag m (hex_of (vote_hash H (hp b)))" "confirm_key (hex_of (vote_hash H (hp b))) m = Inr m'"
  shows "card (open_keys H hp blocks (map (\<lambda>r. WorkRef (f r)) rs @ WorkDag round # work) m')
    < card (open_keys H hp blocks (WorkBlock b # work) m)"
proof (rule psubset_card_mono)
  let ?k = "hex_of (vote_hash H (hp b))"
  have "open_keys H hp blocks (map (\<lambda>r. WorkRef (f r)) rs @ WorkDag round # work) m'
      \<subseteq> open_keys H hp blocks (WorkBlock b # work) m"
    using confirm_key_flag [OF assms(2)] by (intro open_keys_mono) (auto simp: map_filter_simps)
  moreover have "?k \<in> open_keys H hp blocks (WorkBlock b # work) m"
    using assms(1) by (simp add: open_keys_def map_filter_simps del: hex_of_inj)
  moreover have "?k \<notin> open_keys H hp blocks (map (\<lambda>r. WorkRef (f r)) rs @ WorkDag round # work) m'"
    using confirm_key_flag [OF assms(2)] by (simp add: open_keys_def)
  ultimately show "open_keys H hp blocks (map (\<lambda>r. WorkRef (f r)) rs @ WorkDag round # work) m'
      \<subset> open_keys H hp blocks (WorkBlock b # work) m"
    by blast
qed simp

function confirm_loop ::
  "header_digest \<Rightarrow> block_heap \<Rightarrow> u64 list \<Rightarrow> (u64, bref list) gomap \<Rightarrow> bref list \<Rightarrow> confirm_work list
     \<Rightarrow> (string, bool) gomap \<Rightarrow> go_panic + (string, bool) gomap" where
  "confirm_loop H hp ord blocks recent [] m = Inr m"
| "confirm_loop H hp ord blocks recent (WorkBlock b # work) m =
     (let k = hex_of (vote_hash H (hp b))
      in if flag m k then confirm_loop H hp ord blocks recent work m
         else case confirm_key k m of
           Inl p \<Rightarrow> Inl p
         | Inr m1 \<Rightarrow> confirm_loop H hp ord blocks recent
             (map (\<lambda>r. WorkRef (ref_hash r)) (hdr_references (hd_of hp b)) @ WorkDag (hdr_round (hd_of hp b)) # work) m1)"
| "confirm_loop H hp ord blocks recent (WorkRef h # work) m =
     (case findBlockByHash H hp ord blocks h of
        Some b \<Rightarrow> if length (hex_of h) < 16 then Inl SliceBoundsOutOfRange
                  else confirm_loop H hp ord blocks recent (WorkBlock b # work) m
      | None \<Rightarrow> if flag m (hex_of h) then confirm_loop H hp ord blocks recent work m
                else (case confirm_key (hex_of h) m of
                        Inl p \<Rightarrow> Inl p
                      | Inr m1 \<Rightarrow> confirm_loop H hp ord blocks recent work m1))"
| "confirm_loop H hp ord blocks recent (WorkDag round # work) m =
     (case confirm_dag H hp round recent m of
        Inl p \<Rightarrow> Inl p
      | Inr m1 \<Rightarrow> confirm_loop H hp ord blocks recent work m1)"
  by pat_completeness auto
termination
proof (relation "(\<lambda>(H, hp, ord, blocks, recent, work, m). card (open_keys H hp blocks work m))
    <*mlex*> measure (\<lambda>(H, hp, ord, blocks, recent, work, m). sum_list (map work_weight work))", goal_cases)
  case 1
  show ?case
    by (intro wf_mlex) simp
next
  case 2
  show ?case
    by (rule mlex_leq) (auto simp: map_filter_simps intro!: open_keys_card)
next
  case 3
  then show ?case
    by (intro mlex_less) (simp add: open_keys_visit)
next
  case 4
  then show ?case
    by (intro mlex_leq) (auto simp: map_filter_simps intro!: open_keys_card)
next
  case 5
  then show ?case
    by (intro mlex_leq) (auto simp: map_filter_simps confirm_key_flag intro!: open_keys_card)
next
  case 6
  then show ?case
    by (intro mlex_leq) (auto simp: map_filter_simps dest!: findBlockByHash_Some(2) intro!: open_keys_card)
next
  case 7
  then show ?case
    by (intro mlex_leq) (auto simp: map_filter_simps dest: confirm_dag_flag intro!: open_keys_card)
qed

definition confirmBlockAndReferences ::
  "header_digest \<Rightarrow> block_heap \<Rightarrow> u64 list \<Rightarrow> bref list \<Rightarrow> bref \<Rightarrow> wave_consensus \<Rightarrow> go_panic + wave_consensus" where
  "confirmBlockAndReferences H hp ord recent b wc =
     map_sum id (\<lambda>m. wc\<lparr>wc_confirmedBlocks := m\<rparr>)
       (confirm_loop H hp ord (wc_waveBlocks wc) recent [WorkBlock b] (wc_confirmedBlocks wc))"

section \<open>Finalisation\<close>

text \<open>Grouping the votes of a wave by block and voter, in the order of the range.\<close>

definition group_vote ::
  "wave_vote \<Rightarrow> (string, (address, wave_vote) gomap) gomap \<Rightarrow> (string, (address, wave_vote) gomap) gomap" where
  "group_vote v m = gput (hex_of (wv_hash v)) (gput (wv_voter v) v (slice_at m (hex_of (wv_hash v)))) m"

definition group_votes :: "wave_vote list \<Rightarrow> (string, (address, wave_vote) gomap) gomap" where
  "group_votes vs = fold group_vote vs []"

definition commit_count :: "(address, wave_vote) gomap \<Rightarrow> nat" where
  "commit_count vs = length (filter (\<lambda>(_, v). wv_type v = ''commit'') vs)"

text \<open>The loop over the groups: how many blocks reached the threshold, and which of them are the
  wave's blocks.\<close>

fun finalize_scan ::
  "header_digest \<Rightarrow> block_heap \<Rightarrow> nat \<Rightarrow> bref list \<Rightarrow> (string \<times> (address, wave_vote) gomap) list
     \<Rightarrow> go_panic + nat \<times> bref list" where
  "finalize_scan H hp required blocks [] = Inr (0, [])"
| "finalize_scan H hp required blocks ((key, votes) # groups) =
     (if commit_count votes \<ge> required
      then if length key < 16 then Inl SliceBoundsOutOfRange
           else map_sum id (\<lambda>(n, bs). (Suc n,
                  (case find (\<lambda>b. hex_of (vote_hash H (hp b)) = key) blocks of None \<Rightarrow> bs | Some b \<Rightarrow> b # bs)))
                (finalize_scan H hp required blocks groups)
      else finalize_scan H hp required blocks groups)"

fun confirm_all ::
  "header_digest \<Rightarrow> block_heap \<Rightarrow> u64 list \<Rightarrow> bref list \<Rightarrow> bref list \<Rightarrow> wave_consensus \<Rightarrow> go_panic + wave_consensus" where
  "confirm_all H hp ord recent [] wc = Inr wc"
| "confirm_all H hp ord recent (b # bs) wc =
     (case confirmBlockAndReferences H hp ord recent b wc of
        Inl p \<Rightarrow> Inl p
      | Inr wc1 \<Rightarrow> confirm_all H hp ord recent bs wc1)"

text \<open>\<open>checkWaveFinalization\<close>: \<open>ordv\<close> and \<open>ordb\<close> are the orders in which the votes of the wave and
  the groups are visited, \<open>ordw\<close> the one of \<open>findBlockByHash\<close>.\<close>

definition checkWaveFinalization ::
  "header_digest \<Rightarrow> block_heap \<Rightarrow> string list \<Rightarrow> string list \<Rightarrow> u64 list \<Rightarrow> bref list \<Rightarrow> u64 \<Rightarrow> wave_consensus
     \<Rightarrow> go_panic + wave_consensus" where
  "checkWaveFinalization H hp ordv ordb ordw recent w wc =
     (if flag (wc_finalizedWaves wc) w then Inr wc
      else case gget (wc_waveVotes wc) w of
        None \<Rightarrow> Inr wc
      | Some votes \<Rightarrow>
          (let groups = group_votes (range_vals ordv votes);
               required = wave_requiredVotes (length (wc_validators wc))
           in case finalize_scan H hp required (slice_at (wc_waveBlocks wc) w) (range_items ordb groups) of
                Inl p \<Rightarrow> Inl p
              | Inr (n, bs) \<Rightarrow>
                  if n > 0
                  then confirm_all H hp ordw recent bs
                         (wc\<lparr>wc_finalizedWaves := gput w True (wc_finalizedWaves wc)\<rparr>)
                  else Inr wc))"

section \<open>Clean-up and limits\<close>

definition wave_cleanupOldWaves :: "u64 list \<Rightarrow> string list \<Rightarrow> wave_consensus \<Rightarrow> wave_consensus" where
  "wave_cleanupOldWaves ordw ordc wc =
     (let wc1 =
        (if int (glen (wc_waveBlocks wc)) > wc_maxWaves wc
         then let waves = sort_slice (<) (map fst (range_items ordw (wc_waveBlocks wc)));
                  half = wc_maxWaves wc sdiv 2;
                  keep = (if half < 10 then 10 else half);
                  n = int (length waves) - keep;
                  old = (if n > 0 then take (nat n) waves else [])
              in wc\<lparr>wc_waveBlocks := gdel_all old (wc_waveBlocks wc), wc_waveVotes := gdel_all old (wc_waveVotes wc),
                    wc_finalizedWaves := gdel_all old (wc_finalizedWaves wc)\<rparr>
         else wc)
      in if int (glen (wc_confirmedBlocks wc1)) > wc_maxConfirmedBlocks wc1
         then let hashes = map fst (range_items ordc (wc_confirmedBlocks wc1));
                  half = wc_maxConfirmedBlocks wc1 sdiv 2;
                  keep = (if half < 100 then 100 else half);
                  n = int (length hashes) - keep;
                  old = (if n > 0 then take (nat n) hashes else [])
              in wc1\<lparr>wc_confirmedBlocks := gdel_all old (wc_confirmedBlocks wc1)\<rparr>
         else wc1)"

definition wave_SetMemoryLimits :: "int \<Rightarrow> int \<Rightarrow> wave_consensus \<Rightarrow> wave_consensus" where
  "wave_SetMemoryLimits maxWaves maxConfirmed wc =
     wc\<lparr>wc_maxWaves := maxWaves, wc_maxConfirmedBlocks := maxConfirmed\<rparr>"

section \<open>Status queries\<close>

definition wave_GetCurrentWave :: "wave_consensus \<Rightarrow> u64" where
  "wave_GetCurrentWave wc = wc_currentWave wc"

datatype confirmation = StatusNotFound | StatusFinalized | StatusPending | StatusConfirming | StatusVoting | StatusProposed

record block_status =
  bs_status :: confirmation
  bs_wave :: "u64 option"
  bs_is_finalized :: bool
  bs_transitively :: bool
  bs_commit_votes :: nat
  bs_total_votes :: nat
  bs_required_votes :: nat

definition count_block_votes :: "string \<Rightarrow> (string, wave_vote) gomap \<Rightarrow> nat \<times> nat" where
  "count_block_votes key votes =
     (let mine = filter (\<lambda>(_, v). hex_of (wv_hash v) = key) votes
      in (length mine, length (filter (\<lambda>(_, v). wv_type v = ''commit'') mine)))"

text \<open>The wave of a block: the first match over the waves in range order.\<close>

definition find_block_wave ::
  "header_digest \<Rightarrow> block_heap \<Rightarrow> u64 list \<Rightarrow> (u64, bref list) gomap \<Rightarrow> string \<Rightarrow> u64 option" where
  "find_block_wave H hp ord blocks key =
     map_option fst (find (\<lambda>(w, bs). list_ex (\<lambda>b. hex_of (block_ComputeHash H (hp b)) = key
        \<or> hex_of (blk_original_hash (hp b)) = key) bs) (range_items ord blocks))"

definition status_in_wave :: "wave_consensus \<Rightarrow> string \<Rightarrow> u64 \<Rightarrow> block_status" where
  "status_in_wave wc key w =
     (let trans = flag (wc_confirmedBlocks wc) key;
          final = flag (wc_finalizedWaves wc) w;
          (total, commits) = count_block_votes key (votes_at wc w);
          required = wave_requiredVotes (length (wc_validators wc))
      in \<lparr>bs_status = (if trans \<or> final then StatusFinalized
                      else if w > wc_currentWave wc then StatusPending
                      else if commits \<ge> required then StatusConfirming
                      else if total > 0 then StatusVoting else StatusProposed),
          bs_wave = Some w, bs_is_finalized = (trans \<or> final), bs_transitively = trans,
          bs_commit_votes = commits, bs_total_votes = total, bs_required_votes = required\<rparr>)"

definition GetBlockConfirmationStatus ::
  "header_digest \<Rightarrow> block_heap \<Rightarrow> u64 list \<Rightarrow> wave_consensus \<Rightarrow> string \<Rightarrow> block_status" where
  "GetBlockConfirmationStatus H hp ord wc key =
     (case find_block_wave H hp ord (wc_waveBlocks wc) key of
        None \<Rightarrow> (let trans = flag (wc_confirmedBlocks wc) key in
          \<lparr>bs_status = (if trans then StatusFinalized else StatusNotFound), bs_wave = None,
           bs_is_finalized = trans, bs_transitively = trans, bs_commit_votes = 0, bs_total_votes = 0,
           bs_required_votes = 0\<rparr>)
      | Some w \<Rightarrow> status_in_wave wc key w)"

definition all_blocks_status ::
  "header_digest \<Rightarrow> block_heap \<Rightarrow> u64 list \<Rightarrow> wave_consensus \<Rightarrow> (string, block_status) gomap" where
  "all_blocks_status H hp ord wc =
     fold (\<lambda>(w, bs) m. fold (\<lambda>b m. let key = hex_of (vote_hash H (hp b)) in gput key (status_in_wave wc key w) m) bs m)
       (range_items ord (wc_waveBlocks wc)) []"

definition GetAllBlocksConfirmationStatus ::
  "header_digest \<Rightarrow> block_heap \<Rightarrow> u64 list \<Rightarrow> string list \<Rightarrow> wave_consensus \<Rightarrow> (string, block_status) gomap" where
  "GetAllBlocksConfirmationStatus H hp ord ordc wc =
     fold (\<lambda>(key, confirmed) m. if confirmed \<and> \<not> ghas m key
             then gput key \<lparr>bs_status = StatusFinalized, bs_wave = None, bs_is_finalized = True, bs_transitively = True,
                    bs_commit_votes = 0, bs_total_votes = 0, bs_required_votes = 0\<rparr> m else m)
       (range_items ordc (wc_confirmedBlocks wc)) (all_blocks_status H hp ord wc)"

end
