(* ===== verification/Wave_Safety.thy ===== *)
theory Wave_Safety
  imports Wave_Consensus
begin

text \<open>
  What the wave consensus guarantees and what it does not: which votes a finalised
  wave rests on, when a majority finalises it, what is confirmed, how waves advance,
  and how equivocation and forged voters enter.
\<close>

section \<open>Votes and groups\<close>

definition commit_voters :: "wave_consensus \<Rightarrow> u64 \<Rightarrow> hash \<Rightarrow> address set" where
  "commit_voters wc w h = {a. \<exists>k v. gget (votes_at wc w) k = Some v \<and> wv_hash v = h \<and> wv_voter v = a
     \<and> wv_type v = ''commit''}"

lemma finite_commit_voters [simp]: "finite (commit_voters wc w h)"
proof (rule finite_subset)
  show "commit_voters wc w h \<subseteq> wv_voter ` snd ` set (votes_at wc w)"
    by (force simp: commit_voters_def gget_def dest: map_of_SomeD)
qed simp

text \<open>Grouping keeps only votes of the list, under their own block and voter, and has an entry for
  each of them.\<close>

definition groups_ok :: "wave_vote list \<Rightarrow> (string, (address, wave_vote) gomap) gomap \<Rightarrow> bool" where
  "groups_ok vs m = (gwf m \<and> (\<forall>k. gwf (slice_at m k)) \<and>
     (\<forall>k a v. gget (slice_at m k) a = Some v \<longrightarrow> v \<in> set vs \<and> hex_of (wv_hash v) = k \<and> wv_voter v = a) \<and>
     (\<forall>v \<in> set vs. gget (slice_at m (hex_of (wv_hash v))) (wv_voter v) \<noteq> None))"

lemma groups_ok_vote: "groups_ok vs m \<Longrightarrow> groups_ok (vs @ [v]) (group_vote v m)"
  unfolding groups_ok_def group_vote_def by (auto split: if_splits) (metis hex_of_inj)

lemma groups_ok_fold: "groups_ok vs m \<Longrightarrow> groups_ok (vs @ ws) (fold group_vote ws m)"
proof (induction ws arbitrary: vs m)
  case (Cons w ws)
  then show ?case
    using Cons.IH [OF groups_ok_vote [OF Cons.prems, of w]] by simp
qed simp

lemma groups_ok_group_votes: "groups_ok vs (group_votes vs)"
  using groups_ok_fold [of "[]" "[]" vs] by (simp add: group_votes_def groups_ok_def)

lemma commit_count_card:
  assumes "gwf vs"
  shows "commit_count vs = card {a. \<exists>v. gget vs a = Some v \<and> wv_type v = ''commit''}"
proof -
  let ?f = "filter (\<lambda>(_, v). wv_type v = ''commit'') vs"
  have "distinct (map fst ?f)"
    using assms by (simp add: gwf_def distinct_map_filter)
  then have "commit_count vs = card (set (map fst ?f))"
    by (metis commit_count_def distinct_card length_map)
  also have "set (map fst ?f) = {a. \<exists>v. gget vs a = Some v \<and> wv_type v = ''commit''}"
    using assms by (force simp: gget_set)
  finally show ?thesis .
qed

lemma commit_count_group:
  assumes "groups_ok (range_vals ord (votes_at wc w)) m"
  shows "commit_count (slice_at m (hex_of h)) \<le> card (commit_voters wc w h)"
proof -
  have "{a. \<exists>v. gget (slice_at m (hex_of h)) a = Some v \<and> wv_type v = ''commit''} \<subseteq> commit_voters wc w h"
    using assms by (fastforce simp: groups_ok_def commit_voters_def set_range_vals)
  then show ?thesis
    using assms by (simp add: groups_ok_def commit_count_card card_mono)
qed

lemma group_key_is_hash:
  assumes "groups_ok vs m" "(k, g) \<in> set m" "0 < commit_count g"
  shows "\<exists>h. k = hex_of h \<and> g = slice_at m k"
proof -
  have get: "gget m k = Some g"
    using assms(1,2) by (simp add: groups_ok_def gget_set)
  then have slice: "slice_at m k = g"
    by (simp add: slice_at_def)
  have "gwf g"
    using assms(1) slice by (metis groups_ok_def)
  then have "0 < card {a. \<exists>v. gget g a = Some v \<and> wv_type v = ''commit''}"
    using assms(3) by (simp only: commit_count_card)
  then obtain a v where "gget (slice_at m k) a = Some v"
    using slice by (auto simp: card_gt_0_iff)
  then show ?thesis
    using assms(1) slice by (metis groups_ok_def)
qed

section \<open>The scan over the groups\<close>

lemma finalize_scan_positive:
  "finalize_scan H hp req blocks gs = Inr (n, bs) \<Longrightarrow> 0 < n \<Longrightarrow> \<exists>(k, g) \<in> set gs. req \<le> commit_count g"
  by (induction gs arbitrary: n bs) (fastforce split: if_splits simp: map_sum_eq_Inr)+

lemma finalize_scan_total:
  assumes "\<forall>(k, g) \<in> set gs. req \<le> commit_count g \<longrightarrow> 16 \<le> length k"
  shows "\<exists>n bs. finalize_scan H hp req blocks gs = Inr (n, bs) \<and> set bs \<subseteq> set blocks
    \<and> ((\<exists>(k, g) \<in> set gs. req \<le> commit_count g) \<longrightarrow> 0 < n)"
  using assms
proof (induction gs)
  case (Cons kg gs)
  obtain k g where kg: "kg = (k, g)"
    by fastforce
  obtain n bs where IH: "finalize_scan H hp req blocks gs = Inr (n, bs)" "set bs \<subseteq> set blocks"
      "(\<exists>(k, g) \<in> set gs. req \<le> commit_count g) \<longrightarrow> 0 < n"
    using Cons by auto
  show ?case
    using Cons.prems IH kg by (auto split: option.split dest: find_SomeD)
qed simp

section \<open>Confirmation\<close>

lemma confirm_loop_mono:
  "confirm_loop H hp ord blocks recent work m = Inr m' \<Longrightarrow> flag m k \<Longrightarrow> flag m' k"
  by (induction H hp ord blocks recent work m rule: confirm_loop.induct)
    (auto simp: Let_def confirm_key_flag split: if_splits sum.splits option.splits dest: confirm_dag_flag)

lemma confirm_dag_covers:
  "confirm_dag H hp round bs m = Inr m' \<Longrightarrow> b \<in> set bs \<Longrightarrow> hdr_round (hd_of hp b) \<le> round \<Longrightarrow>
     flag m' (hex_of (vote_hash H (hp b)))"
proof (induction bs arbitrary: m)
  case (Cons x bs)
  show ?case
  proof (cases "b = x")
    case True
    then show ?thesis
      using Cons.prems
      by (auto simp: Let_def confirm_key_flag split: if_splits sum.splits dest: confirm_dag_flag)
  next
    case False
    then show ?thesis
      using Cons by (auto simp: Let_def split: if_splits sum.splits)
  qed
qed simp

fun work_done :: "header_digest \<Rightarrow> block_heap \<Rightarrow> bref list \<Rightarrow> (string, bool) gomap \<Rightarrow> confirm_work \<Rightarrow> bool" where
  "work_done H hp recent m (WorkBlock b) = flag m (hex_of (vote_hash H (hp b)))"
| "work_done H hp recent m (WorkRef h) = flag m (hex_of h)"
| "work_done H hp recent m (WorkDag round) =
     (\<forall>b \<in> set recent. hdr_round (hd_of hp b) \<le> round \<longrightarrow> flag m (hex_of (vote_hash H (hp b))))"

lemma confirm_loop_done:
  "confirm_loop H hp ord blocks recent work m = Inr m' \<Longrightarrow> x \<in> set work \<Longrightarrow> work_done H hp recent m' x"
proof (induction H hp ord blocks recent work m arbitrary: x rule: confirm_loop.induct)
  case (2 H hp ord blocks recent b work m)
  show ?case
  proof (cases "flag m (hex_of (vote_hash H (hp b)))")
    case True
    then show ?thesis
      using "2.IH"(1) "2.prems" confirm_loop_mono by fastforce
  next
    case False
    then obtain m1 where m1: "confirm_key (hex_of (vote_hash H (hp b))) m = Inr m1"
        "confirm_loop H hp ord blocks recent
           (map (\<lambda>r. WorkRef (ref_hash r)) (hdr_references (hd_of hp b)) @ WorkDag (hdr_round (hd_of hp b)) # work) m1 = Inr m'"
      using "2.prems"(1) by (auto simp: Let_def split: sum.splits)
    then have "flag m' (hex_of (vote_hash H (hp b)))"
      using confirm_loop_mono [OF m1(2)] confirm_key_flag [OF m1(1)] by blast
    then show ?thesis
      using "2.IH"(2) [OF refl False m1] "2.prems"(2) by auto
  qed
next
  case (3 H hp ord blocks recent h work m)
  show ?case
  proof (cases "findBlockByHash H hp ord blocks h")
    case None
    then show ?thesis
      using "3.IH"(1,2) [OF None] "3.prems"
      by (auto split: if_splits sum.splits intro: confirm_loop_mono)
        (metis confirm_key_flag confirm_loop_mono)
  next
    case (Some b)
    then have "confirm_loop H hp ord blocks recent (WorkBlock b # work) m = Inr m'" "\<not> length (hex_of h) < 16"
      using "3.prems"(1) by (auto split: if_splits)
    then have all: "work_done H hp recent m' y" if "y \<in> set (WorkBlock b # work)" for y
      using "3.IH"(3) [OF Some] that by blast
    show ?thesis
      using "3.prems"(2) findBlockByHash_Some(1) [OF Some] all [of "WorkBlock b"] all by auto
  qed
next
  case (4 H hp ord blocks recent round work m)
  then obtain m1 where "confirm_dag H hp round recent m = Inr m1"
      "confirm_loop H hp ord blocks recent work m1 = Inr m'"
    by (auto split: sum.splits)
  then show ?case
    using 4 by auto (metis confirm_loop_mono confirm_dag_covers)
qed simp

text \<open>Hashes long enough for the log lines.\<close>

definition hashes_long :: "header_digest \<Rightarrow> block_heap \<Rightarrow> bool" where
  "hashes_long H hp = (\<forall>b. 8 \<le> length (vote_hash H (hp b)) \<and>
     (\<forall>r \<in> set (hdr_references (hd_of hp b)). 8 \<le> length (ref_hash r)))"

lemma confirm_dag_total: "hashes_long H hp \<Longrightarrow> \<exists>m'. confirm_dag H hp round bs m = Inr m'"
proof (induction bs arbitrary: m)
  case (Cons b bs)
  have "\<not> length (hex_of (vote_hash H (hp b))) < 16"
    using Cons.prems unfolding hashes_long_def length_hex_of by (simp add: not_less)
  then show ?case
    using Cons by (simp add: Let_def confirm_key_def)
qed simp

fun work_long :: "confirm_work \<Rightarrow> bool" where
  "work_long (WorkRef h) = (8 \<le> length h)"
| "work_long (WorkBlock _) = True"
| "work_long (WorkDag _) = True"

lemma confirm_loop_total:
  "hashes_long H hp \<Longrightarrow> \<forall>x \<in> set work. work_long x \<Longrightarrow> \<exists>m'. confirm_loop H hp ord blocks recent work m = Inr m'"
proof (induction H hp ord blocks recent work m rule: confirm_loop.induct)
  case (2 H hp ord blocks recent b work m)
  have long: "confirm_key (hex_of (vote_hash H (hp b))) m = Inr (gput (hex_of (vote_hash H (hp b))) True m)"
    using "2.prems"(1) by (simp add: confirm_key_def hashes_long_def not_less)
  have refs: "\<forall>x \<in> set (map (\<lambda>r. WorkRef (ref_hash r)) (hdr_references (hd_of hp b)) @ WorkDag (hdr_round (hd_of hp b)) # work). work_long x"
    using "2.prems" by (auto simp: hashes_long_def)
  show ?case
  proof (cases "flag m (hex_of (vote_hash H (hp b)))")
    case True
    then show ?thesis
      using "2.IH"(1) [OF refl True] "2.prems" by simp
  next
    case False
    then show ?thesis
      using "2.IH"(2) [OF refl False long "2.prems"(1) refs] by (simp add: long Let_def)
  qed
next
  case (3 H hp ord blocks recent h work m)
  then have long: "\<not> length (hex_of h) < 16" "confirm_key (hex_of h) m = Inr (gput (hex_of h) True m)"
    by (auto simp: confirm_key_def)
  then show ?case
    using 3 by (auto split: option.split)
next
  case (4 H hp ord blocks recent round work m)
  then show ?case
    using confirm_dag_total [OF "4.prems"(1), of round recent m] by auto
qed simp

lemma confirmBlock_fields:
  "confirmBlockAndReferences H hp ord recent b wc = Inr wc' \<Longrightarrow>
     wc' = wc\<lparr>wc_confirmedBlocks := wc_confirmedBlocks wc'\<rparr>"
  by (auto simp: confirmBlockAndReferences_def map_sum_eq_Inr)

lemma confirm_all_fields:
  "confirm_all H hp ord recent bs wc = Inr wc' \<Longrightarrow> wc' = wc\<lparr>wc_confirmedBlocks := wc_confirmedBlocks wc'\<rparr>"
proof (induction bs arbitrary: wc)
  case (Cons b bs)
  then obtain wc1 where 1: "confirmBlockAndReferences H hp ord recent b wc = Inr wc1"
      "confirm_all H hp ord recent bs wc1 = Inr wc'"
    by (auto split: sum.splits)
  then have "wc' = wc1\<lparr>wc_confirmedBlocks := wc_confirmedBlocks wc'\<rparr>"
    using Cons.IH by blast
  also have "\<dots> = wc\<lparr>wc_confirmedBlocks := wc_confirmedBlocks wc'\<rparr>"
    by (subst confirmBlock_fields [OF 1(1)]) simp
  finally show ?case .
qed simp

lemma confirm_all_total: "hashes_long H hp \<Longrightarrow> \<exists>wc'. confirm_all H hp ord recent bs wc = Inr wc'"
proof (induction bs arbitrary: wc)
  case (Cons b bs)
  have "\<exists>wc1. confirmBlockAndReferences H hp ord recent b wc = Inr wc1"
    using confirm_loop_total [OF Cons.prems, of "[WorkBlock b]" ord "wc_waveBlocks wc" recent "wc_confirmedBlocks wc"]
    by (auto simp: confirmBlockAndReferences_def)
  then show ?case
    using Cons by auto
qed simp

section \<open>Reachable states\<close>

text \<open>The handlers of one node in any order, on any block heap, DAG contents and range orders.\<close>

inductive wave_reach :: "header_digest \<Rightarrow> address \<Rightarrow> address list \<Rightarrow> wave_consensus \<Rightarrow> bool" for H me vs where
  wr_new: "wave_reach H me vs (NewWaveConsensus me vs)"
| wr_advance: "wave_reach H me vs wc \<Longrightarrow> wave_advanceWave wc = Inr (wc', ts) \<Longrightarrow> wave_reach H me vs wc'"
| wr_process: "wave_reach H me vs wc \<Longrightarrow> processWave H hp cap now recent w wc = Inr (hp', wc', ms, ts) \<Longrightarrow>
    wave_reach H me vs wc'"
| wr_message: "wave_reach H me vs wc \<Longrightarrow> handleWaveMessage H hp cap now m wc = Inr (wc', ms, ts) \<Longrightarrow>
    wave_reach H me vs wc'"
| wr_check: "wave_reach H me vs wc \<Longrightarrow>
    checkWaveFinalization H hp ordv ordb ordw recent w wc = Inr wc' \<Longrightarrow> wave_reach H me vs wc'"
| wr_cleanup: "wave_reach H me vs wc \<Longrightarrow> wave_reach H me vs (wave_cleanupOldWaves ordw ordc wc)"
| wr_limits: "wave_reach H me vs wc \<Longrightarrow> wave_reach H me vs (wave_SetMemoryLimits n k wc)"

definition stored_votes_ok :: "address \<Rightarrow> address set \<Rightarrow> (u64, (string, wave_vote) gomap) gomap \<Rightarrow> bool" where
  "stored_votes_ok me A m = (gwf m \<and> (\<forall>w. gwf (slice_at m w) \<and>
     (\<forall>k v. gget (slice_at m w) k = Some v \<longrightarrow> wv_voter v \<in> A \<and> wv_wave v = w \<and>
        (k = hex_of (wv_hash v) \<and> wv_voter v = me \<or> k = voter_key (wv_hash v) (wv_voter v)))))"

text \<open>Every stored vote is of the wave it is filed under, by a validator or the node itself, and
  under a key that names its block.\<close>

definition wave_inv :: "address \<Rightarrow> address list \<Rightarrow> wave_consensus \<Rightarrow> bool" where
  "wave_inv me vs wc = (wc_validatorID wc = me \<and> wc_validators wc = vs \<and>
     stored_votes_ok me (insert me (set vs)) (wc_waveVotes wc))"

lemma stored_votes_ok_simps [simp]:
  "stored_votes_ok me A []"
  "stored_votes_ok me A m \<Longrightarrow> stored_votes_ok me A (gdel_all ws m)"
  "stored_votes_ok me A m \<Longrightarrow> stored_votes_ok me A (gput w (slice_at m w) m)"
  by (auto simp: stored_votes_ok_def slice_at_def split: option.splits)

lemma stored_votes_ok_gput:
  "stored_votes_ok me A m \<Longrightarrow> wv_voter v \<in> A \<Longrightarrow> wv_wave v = w \<Longrightarrow>
     k = hex_of (wv_hash v) \<and> wv_voter v = me \<or> k = voter_key (wv_hash v) (wv_voter v) \<Longrightarrow>
     stored_votes_ok me A (gput w (gput k v (slice_at m w)) m)"
  by (auto simp: stored_votes_ok_def)

lemma store_vote_inv:
  "wave_inv me vs wc \<Longrightarrow> wv_voter v \<in> insert me (set vs) \<Longrightarrow> wv_wave v = w \<Longrightarrow>
     k = hex_of (wv_hash v) \<and> wv_voter v = me \<or> k = voter_key (wv_hash v) (wv_voter v) \<Longrightarrow> wave_inv me vs (store_vote w k v wc)"
  by (simp add: wave_inv_def store_vote_def votes_at_def stored_votes_ok_gput)

lemma wave_inv_ids: "wave_inv me vs wc \<Longrightarrow> wc_validatorID wc = me \<and> wc_validators wc = vs"
  by (simp add: wave_inv_def)

lemma voteOnBlock_inv:
  "voteOnBlock H hp cap now w b wc = Inr (wc', ms, ts) \<Longrightarrow> wave_inv me vs wc \<Longrightarrow> wave_inv me vs wc'"
  by (frule wave_inv_ids) (auto simp: voteOnBlock_def Let_def split: if_splits intro!: store_vote_inv)

lemma voteOnBlocks_inv:
  "voteOnBlocks H hp cap now w bs wc = Inr (wc', ms, ts) \<Longrightarrow> wave_inv me vs wc \<Longrightarrow> wave_inv me vs wc'"
proof (induction bs arbitrary: wc ms ts)
  case (Cons b bs)
  then obtain wc1 ms1 ts1 ms2 ts2 where "voteOnBlock H hp cap now w b wc = Inr (wc1, ms1, ts1)"
      "voteOnBlocks H hp cap now w bs wc1 = Inr (wc', ms2, ts2)"
    by (auto split: sum.splits simp: map_sum_eq_Inr)
  then show ?case
    using Cons voteOnBlock_inv by blast
qed simp

lemma handleReceivedVote_inv:
  "handleReceivedVote cap v from wc = Inr (wc', ts) \<Longrightarrow> wave_inv me vs wc \<Longrightarrow> wave_inv me vs wc'"
  by (frule wave_inv_ids)
    (auto simp: handleReceivedVote_def split: option.splits if_splits intro!: store_vote_inv)

lemma handleWaveMessage_inv:
  "handleWaveMessage H hp cap now m wc = Inr (wc', ms, ts) \<Longrightarrow> wave_inv me vs wc \<Longrightarrow> wave_inv me vs wc'"
  by (auto simp: handleWaveMessage_def handleReceivedWaveBlocks_def map_sum_eq_Inr
      split: if_splits sum.splits bool.splits dest: voteOnBlocks_inv handleReceivedVote_inv)

lemma processWave_inv:
  assumes "processWave H hp cap now recent w wc = Inr (hp', wc', ms, ts)" "wave_inv me vs wc"
  shows "wave_inv me vs wc'"
proof -
  have "wave_inv me vs (wc\<lparr>wc_waveBlocks := m, wc_waveVotes := gput w (votes_at wc w) (wc_waveVotes wc)\<rparr>)" for m
    using assms(2) by (simp add: wave_inv_def votes_at_def)
  moreover have "wave_inv me vs (wc\<lparr>wc_finalizedWaves := m\<rparr>)" for m
    using assms(2) by (simp add: wave_inv_def)
  ultimately show ?thesis
    using assms
    by (auto simp: processWave_def Let_def map_sum_eq_Inr split: sum.splits bool.splits if_splits dest: voteOnBlock_inv)
qed

lemma check_result:
  assumes "checkWaveFinalization H hp ordv ordb ordw recent w wc = Inr wc'"
  shows "\<exists>m f. wc' = wc\<lparr>wc_finalizedWaves := f, wc_confirmedBlocks := m\<rparr>
    \<and> (f = wc_finalizedWaves wc \<and> m = wc_confirmedBlocks wc \<or> f = gput w True (wc_finalizedWaves wc))"
proof (cases "wc' = wc")
  case True
  then show ?thesis
    by (intro exI [of _ "wc_confirmedBlocks wc"] exI [of _ "wc_finalizedWaves wc"]) simp
next
  case False
  then obtain bs where "confirm_all H hp ordw recent bs
      (wc\<lparr>wc_finalizedWaves := gput w True (wc_finalizedWaves wc)\<rparr>) = Inr wc'"
    using assms by (auto simp: checkWaveFinalization_def Let_def split: if_splits option.splits sum.splits prod.splits)
  from confirm_all_fields [OF this] show ?thesis
    by blast
qed

lemma check_other_fields:
  assumes "checkWaveFinalization H hp ordv ordb ordw recent w wc = Inr wc'"
  shows "wc_validatorID wc' = wc_validatorID wc" "wc_validators wc' = wc_validators wc"
    "wc_waveVotes wc' = wc_waveVotes wc" "wc_waveBlocks wc' = wc_waveBlocks wc"
    "wc_currentWave wc' = wc_currentWave wc"
  using check_result [OF assms] by auto

lemma wave_reach_inv: "wave_reach H me vs wc \<Longrightarrow> wave_inv me vs wc"
proof (induction rule: wave_reach.induct)
  case (wr_check wc hp ordv ordb ordw recent w wc')
  then show ?case
    using check_other_fields [OF wr_check.hyps(2)] by (simp add: wave_inv_def)
next
  case (wr_advance wc wc' ts)
  then show ?case
    by (auto simp: wave_advanceWave_def wave_inv_def Let_def split: if_splits sum.splits)
qed (auto simp: wave_inv_def NewWaveConsensus_def wave_cleanupOldWaves_def wave_SetMemoryLimits_def Let_def
      dest: processWave_inv handleWaveMessage_inv)

section \<open>Finalisation and majorities\<close>

lemma requiredVotes_pos [simp]: "0 < wave_requiredVotes n"
  by (simp add: wave_requiredVotes_def)

lemma check_needs_majority:
  assumes "\<not> flag (wc_finalizedWaves wc) w"
    and "checkWaveFinalization H hp ordv ordb ordw recent w wc = Inr wc'"
    and "flag (wc_finalizedWaves wc') w"
  shows "\<exists>h. wave_requiredVotes (length (wc_validators wc)) \<le> card (commit_voters wc w h)"
proof -
  let ?req = "wave_requiredVotes (length (wc_validators wc))"
  obtain votes where votes: "gget (wc_waveVotes wc) w = Some votes"
    using assms by (auto simp: checkWaveFinalization_def split: option.splits)
  then have at: "votes_at wc w = votes"
    by (simp add: votes_at_def slice_at_def)
  let ?m = "group_votes (range_vals ordv votes)"
  obtain n bs where "finalize_scan H hp ?req (slice_at (wc_waveBlocks wc) w) (range_items ordb ?m) = Inr (n, bs)" "0 < n"
    using assms votes by (auto simp: checkWaveFinalization_def Let_def split: if_splits sum.splits)
  then obtain k g where kg: "(k, g) \<in> set (range_items ordb ?m)" "?req \<le> commit_count g"
    using finalize_scan_positive by blast
  have ok: "groups_ok (range_vals ordv (votes_at wc w)) ?m"
    using groups_ok_group_votes at by simp
  then have "(k, g) \<in> set ?m"
    using kg(1) by (simp add: set_range_items groups_ok_def gget_set)
  then obtain h where "k = hex_of h" "g = slice_at ?m k"
    using group_key_is_hash [OF ok] kg(2) requiredVotes_pos [of "length (wc_validators wc)"] by (meson less_le_trans)
  then show ?thesis
    using commit_count_group [OF ok, of h] kg(2) by (metis order_trans)
qed

text \<open>When all votes for a block commit, its group counts every voter.\<close>

lemma group_counts_voters:
  assumes ord: "range_order ord (votes_at wc w)"
    and commit: "\<forall>k v. gget (votes_at wc w) k = Some v \<and> wv_hash v = h \<longrightarrow> wv_type v = ''commit''"
  shows "card (commit_voters wc w h) \<le> commit_count (slice_at (group_votes (range_vals ord (votes_at wc w))) (hex_of h))"
proof -
  let ?m = "group_votes (range_vals ord (votes_at wc w))"
  let ?g = "{a. \<exists>v. gget (slice_at ?m (hex_of h)) a = Some v \<and> wv_type v = ''commit''}"
  have ok: "groups_ok (range_vals ord (votes_at wc w)) ?m"
    by (rule groups_ok_group_votes)
  have vals: "set (range_vals ord (votes_at wc w)) = {v. \<exists>k. gget (votes_at wc w) k = Some v}"
    using ord by (auto simp: set_range_vals range_order_def gkeys_iff)
  have "commit_voters wc w h \<subseteq> ?g"
  proof
    fix a assume "a \<in> commit_voters wc w h"
    then obtain k v where v: "gget (votes_at wc w) k = Some v" "wv_hash v = h" "wv_voter v = a"
      by (auto simp: commit_voters_def)
    then have "v \<in> set (range_vals ord (votes_at wc w))"
      using vals by blast
    then obtain v' where v': "gget (slice_at ?m (hex_of h)) a = Some v'"
      using ok v(2,3) unfolding groups_ok_def by (metis not_None_eq)
    then have "v' \<in> set (range_vals ord (votes_at wc w))" "hex_of (wv_hash v') = hex_of h"
      using ok unfolding groups_ok_def by metis+
    then have "wv_type v' = ''commit''"
      using commit vals by auto
    then show "a \<in> ?g"
      using v' by blast
  qed
  moreover have "finite ?g"
    by (rule finite_subset [OF _ finite_gkeys [of "slice_at ?m (hex_of h)"]]) (auto simp: gkeys_iff)
  moreover have "gwf (slice_at ?m (hex_of h))"
    using ok by (simp add: groups_ok_def)
  ultimately show ?thesis
    by (simp add: commit_count_card card_mono)
qed

lemma counted_groups_long:
  assumes "\<forall>k v. gget (votes_at wc w) k = Some v \<longrightarrow> 8 \<le> length (wv_hash v)"
    and "(k, g) \<in> set (range_items ordb (group_votes (range_vals ord (votes_at wc w))))" "0 < commit_count g"
  shows "16 \<le> length k"
proof -
  let ?m = "group_votes (range_vals ord (votes_at wc w))"
  have ok: "groups_ok (range_vals ord (votes_at wc w)) ?m"
    by (rule groups_ok_group_votes)
  then have "(k, g) \<in> set ?m"
    using assms(2) by (simp add: set_range_items groups_ok_def gget_set)
  then obtain h where h: "k = hex_of h" "g = slice_at ?m k"
    using group_key_is_hash [OF ok _ assms(3)] by blast
  have "0 < card (commit_voters wc w h)"
    by (rule less_le_trans [OF _ commit_count_group [OF ok]]) (use assms(3) h in simp)
  then obtain a where "a \<in> commit_voters wc w h"
    by fastforce
  then show ?thesis
    using h(1) assms(1) by (auto simp: commit_voters_def)
qed

lemma confirm_all_finalized:
  "confirm_all H hp ord recent bs wc = Inr wc' \<Longrightarrow> wc_finalizedWaves wc' = wc_finalizedWaves wc"
  by (drule confirm_all_fields, drule arg_cong [where f = wc_finalizedWaves]) simp

lemma check_with_majority:
  assumes new: "\<not> flag (wc_finalizedWaves wc) w" and "hashes_long H hp"
    and ordv: "range_order ordv (votes_at wc w)"
    and ordb: "range_order ordb (group_votes (range_vals ordv (votes_at wc w)))"
    and long: "\<forall>k v. gget (votes_at wc w) k = Some v \<longrightarrow> 8 \<le> length (wv_hash v)"
    and commit: "\<forall>k v. gget (votes_at wc w) k = Some v \<and> wv_hash v = h \<longrightarrow> wv_type v = ''commit''"
    and major: "wave_requiredVotes (length (wc_validators wc)) \<le> card (commit_voters wc w h)"
  shows "\<exists>wc'. checkWaveFinalization H hp ordv ordb ordw recent w wc = Inr wc' \<and> flag (wc_finalizedWaves wc') w"
proof -
  let ?req = "wave_requiredVotes (length (wc_validators wc))"
  let ?m = "group_votes (range_vals ordv (votes_at wc w))"
  have count: "?req \<le> commit_count (slice_at ?m (hex_of h))"
    using major group_counts_voters [OF ordv commit] by (rule order_trans)
  then have pos: "0 < commit_count (slice_at ?m (hex_of h))"
    by (rule less_le_trans [OF requiredVotes_pos])
  then have "votes_at wc w \<noteq> []"
    by (auto simp: group_votes_def commit_count_def range_vals_def map_filter_def gget_def slice_at_def)
  then obtain votes where votes: "gget (wc_waveVotes wc) w = Some votes" "votes_at wc w = votes"
    by (auto simp: votes_at_def slice_at_def split: option.splits)
  have "gget ?m (hex_of h) = Some (slice_at ?m (hex_of h))"
    using pos by (auto simp: slice_at_def commit_count_def split: option.splits)
  then have "(hex_of h, slice_at ?m (hex_of h)) \<in> set (range_items ordb ?m)"
    using ordb by (auto simp: set_range_items range_order_def gkeys_iff)
  then have ex: "\<exists>(k, g) \<in> set (range_items ordb ?m). ?req \<le> commit_count g"
    using count by blast
  have "\<forall>(k, g) \<in> set (range_items ordb ?m). ?req \<le> commit_count g \<longrightarrow> 16 \<le> length k"
    using counted_groups_long [OF long] less_le_trans [OF requiredVotes_pos] by blast
  from finalize_scan_total [OF this, of H hp "slice_at (wc_waveBlocks wc) w"] ex
  obtain n bs where scan: "finalize_scan H hp ?req (slice_at (wc_waveBlocks wc) w) (range_items ordb ?m) = Inr (n, bs)" "0 < n"
    by blast
  obtain wc' where wc': "confirm_all H hp ordw recent bs
      (wc\<lparr>wc_finalizedWaves := gput w True (wc_finalizedWaves wc)\<rparr>) = Inr wc'"
    using confirm_all_total [OF assms(2)] by blast
  then have "flag (wc_finalizedWaves wc') w"
    by (simp add: confirm_all_finalized)
  then show ?thesis
    using new votes scan wc' by (auto simp: checkWaveFinalization_def Let_def)
qed

section \<open>Candidates of the leader\<close>

definition unprocessed :: "header_digest \<Rightarrow> block_heap \<Rightarrow> wave_consensus \<Rightarrow> bref list \<Rightarrow> bref list" where
  "unprocessed H hp wc bs = filter (\<lambda>b. \<not> alreadyProcessed H hp wc b) bs"

definition top_round :: "block_heap \<Rightarrow> bref list \<Rightarrow> u64" where
  "top_round hp bs = Max (insert 0 (hdr_round ` hd_of hp ` set bs))"

lemma top_round_snoc: "top_round hp (bs @ [b]) = max (top_round hp bs) (hdr_round (hd_of hp b))"
proof -
  have "insert 0 (hdr_round ` hd_of hp ` set (bs @ [b])) =
      insert (hdr_round (hd_of hp b)) (insert 0 (hdr_round ` hd_of hp ` set bs))"
    by auto
  then show ?thesis
    by (simp add: top_round_def max.commute)
qed

lemma top_round_ge: "b \<in> set bs \<Longrightarrow> hdr_round (hd_of hp b) \<le> top_round hp bs"
  by (simp add: top_round_def)

lemma collect_candidates:
  "fold (collect_candidate H hp wc) bs (0, []) =
     (top_round hp (unprocessed H hp wc bs),
      filter (\<lambda>b. hdr_round (hd_of hp b) = top_round hp (unprocessed H hp wc bs)) (unprocessed H hp wc bs))"
proof (induction bs rule: rev_induct)
  case Nil
  then show ?case
    by (simp add: top_round_def unprocessed_def)
next
  case (snoc b bs)
  let ?u = "unprocessed H hp wc bs"
  show ?case
  proof (cases "alreadyProcessed H hp wc b")
    case True
    then show ?thesis
      using snoc by (simp add: collect_candidate_def unprocessed_def)
  next
    case False
    then have u: "unprocessed H hp wc (bs @ [b]) = ?u @ [b]"
      by (simp add: unprocessed_def)
    have "filter (\<lambda>x. hdr_round (hd_of hp x) = hdr_round (hd_of hp b)) ?u = []"
      if "top_round hp ?u < hdr_round (hd_of hp b)"
      using that top_round_ge [of _ ?u hp] by (fastforce simp: filter_empty_conv)
    then show ?thesis
      using snoc False unfolding u by (auto simp: collect_candidate_def top_round_snoc max_def)
  qed
qed

lemma candidateBlocks_spec:
  "candidateBlocks H hp wc recent =
     filter (\<lambda>b. hdr_round (hd_of hp b) = top_round hp (unprocessed H hp wc recent)) (unprocessed H hp wc recent)"
  by (simp add: candidateBlocks_def collect_candidates)

lemma voteOnBlock_voters:
  assumes "voteOnBlock H hp cap now w b wc = Inr (wc', ms, ts)"
  shows "wc_validatorID wc \<in> commit_voters wc' w (vote_hash H (hp b))"
    "wc_validatorID wc' = wc_validatorID wc"
    "wave_inv me vs wc \<Longrightarrow> a \<in> commit_voters wc w h \<Longrightarrow> a \<in> commit_voters wc' w h"
proof -
  let ?h = "vote_hash H (hp b)"
  have wc': "wc' = store_vote w (hex_of ?h) \<lparr>wv_wave = w, wv_hash = ?h, wv_voter = wc_validatorID wc,
      wv_type = ''commit'', wv_time = now\<rparr> wc"
    using assms by (auto simp: voteOnBlock_def Let_def split: if_splits)
  show voted: "wc_validatorID wc \<in> commit_voters wc' w ?h"
    unfolding commit_voters_def wc' mem_Collect_eq
    by (rule exI [of _ "hex_of ?h"]) (simp add: store_vote_def votes_at_def)
  show "wc_validatorID wc' = wc_validatorID wc"
    by (simp add: wc' store_vote_def)
  assume inv: "wave_inv me vs wc" and "a \<in> commit_voters wc w h"
  then obtain k v where kv: "gget (votes_at wc w) k = Some v" "wv_hash v = h" "wv_voter v = a" "wv_type v = ''commit''"
    by (auto simp: commit_voters_def)
  have key: "k = hex_of h \<and> a = wc_validatorID wc \<or> k = voter_key h a"
    using inv kv by (auto simp: wave_inv_def stored_votes_ok_def votes_at_def)
  show "a \<in> commit_voters wc' w h"
  proof (cases "k = hex_of ?h")
    case True
    then show ?thesis
      using key voted by auto
  next
    case False
    then show ?thesis
      using kv by (auto simp: commit_voters_def wc' store_vote_def votes_at_def intro!: exI [of _ k])
  qed
qed

end
