(* ===== verification/Wave_Properties.thy ===== *)
theory Wave_Properties
  imports Wave_Safety
begin

text \<open>
  The properties of the wave consensus of \<open>internal/consensus/wave_consensus.go\<close>, each with a
  witness on a small network of validators.
\<close>

section \<open>Helper lemmas\<close>

lemma commit_voters_validators:
  "wave_inv me vs wc \<Longrightarrow> me \<in> set vs \<Longrightarrow> commit_voters wc w h \<subseteq> set vs"
  by (auto simp: commit_voters_def wave_inv_def stored_votes_ok_def votes_at_def insert_absorb)

lemma voteOnBlocks_voters:
  "voteOnBlocks H hp cap now w bs wc = Inr (wc', ms, ts) \<Longrightarrow> wave_inv me vs wc \<Longrightarrow>
     (\<forall>b \<in> set bs. me \<in> commit_voters wc' w (vote_hash H (hp b))) \<and>
     (\<forall>a h. a \<in> commit_voters wc w h \<longrightarrow> a \<in> commit_voters wc' w h)"
proof (induction bs arbitrary: wc ms ts)
  case (Cons b bs)
  then obtain wc1 ms1 ts1 ms2 ts2 where one: "voteOnBlock H hp cap now w b wc = Inr (wc1, ms1, ts1)"
      and rest: "voteOnBlocks H hp cap now w bs wc1 = Inr (wc', ms2, ts2)"
    by (auto split: sum.splits simp: map_sum_eq_Inr)
  have inv: "wave_inv me vs wc1" and me: "wc_validatorID wc = me"
    using voteOnBlock_inv [OF one Cons.prems(2)] wave_inv_ids [OF Cons.prems(2)] by auto
  show ?case
    using Cons.IH [OF rest inv] voteOnBlock_voters(1) [OF one] voteOnBlock_voters(3) [OF one Cons.prems(2)] me
    by auto
qed simp

text \<open>A peer that sends votes in the names of others.\<close>

definition forged_vote :: "u64 \<Rightarrow> hash \<Rightarrow> address \<Rightarrow> wave_vote" where
  "forged_vote w h a = \<lparr>wv_wave = w, wv_hash = h, wv_voter = a, wv_type = ''commit'', wv_time = 0\<rparr>"

fun receive_votes ::
  "(hash \<Rightarrow> nat) \<Rightarrow> address \<Rightarrow> wave_vote list \<Rightarrow> wave_consensus \<Rightarrow> go_panic + wave_consensus" where
  "receive_votes cap sender [] wc = Inr wc"
| "receive_votes cap sender (v # vs) wc =
     (case handleReceivedVote cap (Some v) sender wc of
        Inl p \<Rightarrow> Inl p
      | Inr (wc1, _) \<Rightarrow> receive_votes cap sender vs wc1)"

definition forged_store :: "u64 \<Rightarrow> hash \<Rightarrow> address list \<Rightarrow> wave_consensus \<Rightarrow> wave_consensus" where
  "forged_store w h as wc = fold (\<lambda>a wc. store_vote w (voter_key h a) (forged_vote w h a) wc) as wc"

lemma receive_forged:
  assumes "8 \<le> cap h"
  shows "set as \<subseteq> set (wc_validators wc) \<Longrightarrow>
    receive_votes cap sender (map (forged_vote w h) as) wc = Inr (forged_store w h as wc)"
proof (induction as arbitrary: wc)
  case (Cons a as)
  have "handleReceivedVote cap (Some (forged_vote w h a)) sender wc =
      Inr (store_vote w (voter_key h a) (forged_vote w h a) wc, [TaskCheckFinalization w])"
    using Cons.prems assms by (simp add: handleReceivedVote_def forged_vote_def)
  then show ?case
    using Cons by (simp add: forged_store_def store_vote_def)
qed (simp add: forged_store_def)

lemma forged_store_get:
  "gget (votes_at (forged_store w h as wc) w) k =
     (if \<exists>a \<in> set as. k = voter_key h a then Some (forged_vote w h (THE a. k = voter_key h a))
      else gget (votes_at wc w) k)"
proof (induction as arbitrary: wc)
  case (Cons a as)
  have one: "gget (votes_at (store_vote w (voter_key h a) v wc) w) k =
      (if k = voter_key h a then Some v else gget (votes_at wc w) k)" for v
    by (simp add: store_vote_def votes_at_def)
  show ?case
    using Cons [of "store_vote w (voter_key h a) (forged_vote w h a) wc"] one
    by (auto simp: forged_store_def)
qed (simp add: forged_store_def)

lemma forged_store_fields:
  "wc_validators (forged_store w h as wc) = wc_validators wc"
  "wc_finalizedWaves (forged_store w h as wc) = wc_finalizedWaves wc"
  "wc_waveBlocks (forged_store w h as wc) = wc_waveBlocks wc"
  by (induction as arbitrary: wc) (simp_all add: forged_store_def store_vote_def)

lemma forged_store_voters:
  "set as \<subseteq> commit_voters (forged_store w h as wc) w h"
  by (auto simp: commit_voters_def forged_store_get forged_vote_def intro!: exI [of _ "voter_key h _"])

lemma top_round_attained:
  assumes "bs \<noteq> []"
  shows "filter (\<lambda>b. hdr_round (hd_of hp b) = top_round hp bs) bs \<noteq> []"
proof (cases "top_round hp bs = 0")
  case True
  obtain x where "x \<in> set bs"
    using assms by (cases bs) auto
  then show ?thesis
    using True top_round_ge [of x bs hp] by (auto simp: filter_empty_conv)
next
  case False
  have "top_round hp bs \<in> insert 0 (hdr_round ` hd_of hp ` set bs)"
    unfolding top_round_def by (rule Max_in) auto
  then show ?thesis
    using False by (fastforce simp: filter_empty_conv)
qed

lemma confirm_all_same_fields:
  "confirm_all H hp ord recent bs wc = Inr wc' \<Longrightarrow> wc_currentWave wc' = wc_currentWave wc"
  by (drule confirm_all_fields, drule arg_cong [where f = wc_currentWave]) simp

section \<open>Properties\<close>



text \<open>(C5) Conversely a majority suffices: if the commit votes of more than half of the validators for
  one hash are stored and no vote for that hash says otherwise, the check returns without a
  panic and the wave is finalised, whatever the order of the map ranges; all hashes have at
  least eight bytes.\<close>

theorem wave_majority_finalises:
  assumes "wave_reach H me vs wc" "\<not> flag (wc_finalizedWaves wc) w" "hashes_long H hp"
    and "range_order ordv (votes_at wc w)" "range_order ordb (group_votes (range_vals ordv (votes_at wc w)))"
    and "\<forall>k v. gget (votes_at wc w) k = Some v \<longrightarrow> 8 \<le> length (wv_hash v)"
    and "\<forall>k v. gget (votes_at wc w) k = Some v \<and> wv_hash v = h \<longrightarrow> wv_type v = ''commit''"
    and "length vs < 2 * card (commit_voters wc w h)"
  shows "\<exists>wc'. checkWaveFinalization H hp ordv ordb ordw recent w wc = Inr wc' \<and> flag (wc_finalizedWaves wc') w"
proof (rule check_with_majority [OF assms(2-7)])
  show "wave_requiredVotes (length (wc_validators wc)) \<le> card (commit_voters wc w h)"
    using assms(8) wave_inv_ids [OF wave_reach_inv [OF assms(1)]] by (simp add: wave_requiredVotes_def)
qed

text \<open>(C28) The sender of a vote is not compared with the voter it names: one peer, whoever it is, that
  sends votes in the names of more than half of the validators makes the node finalise the
  wave for a hash of its choice, without any block.\<close>

theorem forged_votes_finalise:
  assumes "distinct as" "set as \<subseteq> set (wc_validators wc)" "length (wc_validators wc) < 2 * length as"
    and "8 \<le> cap h" "8 \<le> length h" "hashes_long H hp"
    and "votes_at wc w = []" "\<not> flag (wc_finalizedWaves wc) w"
  shows "\<exists>wc1. receive_votes cap sender (map (forged_vote w h) as) wc = Inr wc1 \<and>
    (\<forall>ordv ordb. range_order ordv (votes_at wc1 w) \<longrightarrow> range_order ordb (group_votes (range_vals ordv (votes_at wc1 w))) \<longrightarrow>
      (\<exists>wc2. checkWaveFinalization H hp ordv ordb ordw recent w wc1 = Inr wc2 \<and> flag (wc_finalizedWaves wc2) w))"
proof -
  let ?wc = "forged_store w h as wc"
  have votes: "\<forall>k v. gget (votes_at ?wc w) k = Some v \<longrightarrow> wv_hash v = h \<and> wv_type v = ''commit''"
    using assms(7) by (auto simp: forged_store_get forged_vote_def split: if_splits)
  have "length as \<le> card (commit_voters ?wc w h)"
    using card_mono [OF finite_commit_voters forged_store_voters [of as w h wc]] assms(1) by (simp add: distinct_card)
  then have major: "wave_requiredVotes (length (wc_validators ?wc)) \<le> card (commit_voters ?wc w h)"
    using assms(3) by (simp add: wave_requiredVotes_def forged_store_fields)
  have "\<exists>wc2. checkWaveFinalization H hp ordv ordb ordw recent w ?wc = Inr wc2 \<and> flag (wc_finalizedWaves wc2) w"
    if "range_order ordv (votes_at ?wc w)" "range_order ordb (group_votes (range_vals ordv (votes_at ?wc w)))" for ordv ordb
    using that votes assms(5) by (intro check_with_majority [OF _ assms(6) _ _ _ _ major])
      (auto simp: forged_store_fields assms(8))
  then show ?thesis
    using receive_forged [of cap h as wc sender w, OF assms(4,2)] by blast
qed

text \<open>A validator votes for every block of every proposal a wave's leader sends: after one message
  it has a stored commit vote of its own for each block in it, also for two different blocks
  of the same wave.\<close>

theorem validator_votes_for_all_proposed:
  assumes "wave_reach H me vs wc" "handleReceivedWaveBlocks H hp cap now w bs leader wc = Inr (wc', ms, ts)"
    and "getWaveLeader me vs w = Inr leader" "b \<in> set bs"
  shows "me \<in> commit_voters wc' w (vote_hash H (hp b))"
proof -
  have inv: "wave_inv me vs wc"
    using wave_reach_inv [OF assms(1)] .
  have "isValidWaveLeader me vs leader w = Inr True" "bs \<noteq> []"
    using assms(3,4) by (auto simp: isValidWaveLeader_def)
  then have "voteOnBlocks H hp cap now w bs wc = Inr (wc', ms, ts)"
    using assms(2) wave_inv_ids [OF inv] by (simp add: handleReceivedWaveBlocks_def)
  then show ?thesis
    using voteOnBlocks_voters [OF _ inv] assms(4) by blast
qed

text \<open>The leader's step: it proposes, among the recent blocks that were in no finalised wave, one of
  those with the highest round, chosen by the wave number; it becomes the wave's block, its
  header gets the wave number, and the leader's commit vote and the block are broadcast.\<close>

theorem processWave_proposes:
  assumes "isWaveLeader (wc_validatorID wc) (wc_validators wc) w = Inr True" "unat w < 2 ^ 63"
    and "unprocessed H hp wc recent \<noteq> []" "\<And>h. 8 \<le> cap h"
    and "cands = filter (\<lambda>b. hdr_round (hd_of hp b) = top_round hp (unprocessed H hp wc recent)) (unprocessed H hp wc recent)"
    and "b = cands ! (unat w mod length cands)" "hp' = write_wave w b hp"
  shows "\<exists>wc' v. processWave H hp cap now recent w wc =
      Inr (hp', wc', [broadcastVote (wc_validatorID wc) now v, broadcastWaveBlocks (wc_validatorID wc) now w [b]],
           [TaskCheckFinalization w])
    \<and> b \<in> set recent \<and> \<not> alreadyProcessed H hp wc b
    \<and> (\<forall>x \<in> set recent. \<not> alreadyProcessed H hp wc x \<longrightarrow> hdr_round (hd_of hp x) \<le> hdr_round (hd_of hp b))
    \<and> slice_at (wc_waveBlocks wc') w = [b]
    \<and> wc_validatorID wc \<in> commit_voters wc' w (vote_hash H (hp' b))"
proof -
  let ?u = "unprocessed H hp wc recent"
  have ne: "cands \<noteq> []"
    unfolding assms(5) using assms(3) by (rule top_round_attained)
  have cands: "candidateBlocks H hp wc recent = cands"
    using assms(5) by (simp add: candidateBlocks_spec)
  have b: "b \<in> set cands"
    using assms(6) ne by simp
  then have in_u: "b \<in> set ?u" "hdr_round (hd_of hp b) = top_round hp ?u"
    using assms(5) by auto
  have index: "go_rem (go_int w) (int (length cands)) = Inr (int (unat w mod length cands))"
    "go_index cands (int (unat w mod length cands)) = Inr b"
    using assms(2,6) ne by (simp_all add: go_int_small go_rem_uint go_index_nat)
  let ?wc1 = "wc\<lparr>wc_waveBlocks := gput w [b] (wc_waveBlocks wc), wc_waveVotes := gput w (votes_at wc w) (wc_waveVotes wc)\<rparr>"
  let ?v = "\<lparr>wv_wave = w, wv_hash = vote_hash H (hp' b), wv_voter = wc_validatorID wc, wv_type = ''commit'', wv_time = now\<rparr>"
  let ?wc2 = "store_vote w (hex_of (vote_hash H (hp' b))) ?v ?wc1"
  have "\<not> cap (vote_hash H (hp' b)) < 8"
    using assms(4) by (simp add: not_less)
  then have vote: "voteOnBlock H hp' cap now w b ?wc1 =
      Inr (?wc2, [broadcastVote (wc_validatorID wc) now ?v], [TaskCheckFinalization w])"
    by (simp add: voteOnBlock_def Let_def)
  have "recent \<noteq> []"
    using assms(3) by (auto simp: unprocessed_def)
  then have "processWave H hp cap now recent w wc =
      Inr (hp', ?wc2, [broadcastVote (wc_validatorID wc) now ?v, broadcastWaveBlocks (wc_validatorID wc) now w [b]],
           [TaskCheckFinalization w])"
    using assms(1,7) ne cands index vote by (simp add: processWave_def Let_def)
  moreover have "slice_at (wc_waveBlocks ?wc2) w = [b]"
    by (simp add: store_vote_def)
  moreover have "wc_validatorID wc \<in> commit_voters ?wc2 w (vote_hash H (hp' b))"
    using voteOnBlock_voters(1) [OF vote] by simp
  moreover have "\<forall>x \<in> set recent. \<not> alreadyProcessed H hp wc x \<longrightarrow> hdr_round (hd_of hp x) \<le> hdr_round (hd_of hp b)"
    using in_u(2) top_round_ge [of _ ?u hp] by (simp add: unprocessed_def)
  moreover have "b \<in> set recent" "\<not> alreadyProcessed H hp wc b"
    using in_u(1) by (simp_all add: unprocessed_def)
  ultimately show ?thesis
    by blast
qed

text \<open>A node leaves a wave only after it was finalised: \<open>advanceWave\<close> either changes nothing, and
  then the current wave is not finalised, or moves to the next wave, from the initial wave 0
  or from a finalised one.  No other handler changes the current wave.\<close>

theorem wave_advances_one_by_one:
  assumes "wave_advanceWave wc = Inr (wc', ts)"
  shows "wc' = wc \<and> ts = [] \<and> 0 < wave_GetCurrentWave wc \<and> \<not> flag (wc_finalizedWaves wc) (wave_GetCurrentWave wc)
    \<or> wave_GetCurrentWave wc' = wave_GetCurrentWave wc + 1
      \<and> (wave_GetCurrentWave wc = 0 \<or> flag (wc_finalizedWaves wc) (wave_GetCurrentWave wc))
      \<and> (TaskProcessWave (wave_GetCurrentWave wc') \<in> set ts \<longleftrightarrow>
           isWaveLeader (wc_validatorID wc) (wc_validators wc) (wave_GetCurrentWave wc') = Inr True)"
  using assms
  by (auto simp: wave_advanceWave_def wave_GetCurrentWave_def Let_def word_gt_0 split: if_splits sum.splits)

text \<open>When the DAG reader returns no block, the leader's step does nothing: the wave stays open, no
  block is proposed, and the node's clock ticks leave it in this wave.\<close>

theorem wave_stalls_without_blocks:
  assumes "processWave H hp cap now [] w wc = Inr (hp', wc', ms, ts)"
    and "wave_GetCurrentWave wc = w" "0 < w" "\<not> flag (wc_finalizedWaves wc) w"
  shows "wc' = wc \<and> ms = [] \<and> ts = [] \<and> wave_advanceWave wc' = Inr (wc', [])"
  using assms
  by (auto simp: processWave_def wave_advanceWave_def wave_GetCurrentWave_def split: sum.splits bool.splits)


text \<open>A node that did not lead a wave has no block for it: when such a node finalises the wave it
  confirms nothing, and clean-up never removes the wave's votes or its finalised mark.\<close>

theorem follower_confirms_nothing:
  assumes "w \<notin> gkeys (wc_waveBlocks wc)" "range_order ordc (wc_waveBlocks wc)"
    and "checkWaveFinalization H hp ordv ordb ordw recent w wc = Inr wc'"
  shows "wc_confirmedBlocks wc' = wc_confirmedBlocks wc
    \<and> votes_at (wave_cleanupOldWaves ordc ordk wc) w = votes_at wc w
    \<and> flag (wc_finalizedWaves (wave_cleanupOldWaves ordc ordk wc)) w = flag (wc_finalizedWaves wc) w"
proof
  have none: "slice_at (wc_waveBlocks wc) w = []"
    using assms(1) by (simp add: slice_at_def gkeys_iff split: option.splits)
  have "bs = []" if "finalize_scan H hp req [] gs = Inr (n, bs)" for req gs n bs
    using that by (induction gs arbitrary: n bs) (auto simp: map_sum_eq_Inr split: if_splits)
  then show "wc_confirmedBlocks wc' = wc_confirmedBlocks wc"
    using assms(3) none
    by (auto simp: checkWaveFinalization_def Let_def split: if_splits option.splits sum.splits)
       fastforce
  have "w \<notin> set (take n (sort_slice (<) (map fst (range_items ordc (wc_waveBlocks wc)))))" for n
    using assms(1,2) set_take_subset [of n "sort_slice (<) (map fst (range_items ordc (wc_waveBlocks wc)))"]
    by (auto simp: set_range_items range_order_def)
  then show "votes_at (wave_cleanupOldWaves ordc ordk wc) w = votes_at wc w
      \<and> flag (wc_finalizedWaves (wave_cleanupOldWaves ordc ordk wc)) w = flag (wc_finalizedWaves wc) w"
    by (auto simp: wave_cleanupOldWaves_def Let_def votes_at_def slice_at_def flag_def)
qed

section \<open>Witnesses\<close>

abbreviation sample_validators :: "address list" where
  "sample_validators \<equiv> [''v0'', ''v1'', ''v2'']"

abbreviation sample_node :: "address \<Rightarrow> wave_consensus" where
  "sample_node me \<equiv> NewWaveConsensus me sample_validators"

text \<open>A node that received the commit votes of two of the three validators in wave 1.\<close>

definition sample_voted :: "address \<Rightarrow> wave_consensus" where
  "sample_voted me = forged_store 1 (replicate 8 7) [''v1'', ''v2''] (sample_node me)"

lemma sample_long: "hashes_long sample_digest sample_heap"
  by (simp add: hashes_long_def vote_hash_def sample_key_def)

lemma wave_reach_vote:
  assumes "wave_reach H me vs wc" "a \<in> set vs"
  shows "wave_reach H me vs (store_vote w (voter_key h a) (forged_vote w h a) wc)"
proof -
  have "wc_validators wc = vs"
    using wave_inv_ids [OF wave_reach_inv [OF assms(1)]] by simp
  then have "handleWaveMessage H sample_heap (\<lambda>_. 32) 0
      \<lparr>wm_type = ''vote'', wm_vote = Some (forged_vote w h a), wm_wave = w, wm_blocks = [], wm_validator = a, wm_time = 0\<rparr> wc
    = Inr (store_vote w (voter_key h a) (forged_vote w h a) wc, [], [TaskCheckFinalization w])"
    using assms(2) by (simp add: handleWaveMessage_def handleReceivedVote_def forged_vote_def)
  then show ?thesis
    by (rule wr_message [OF assms(1)])
qed

lemma sample_voted_reach: "wave_reach H me sample_validators (sample_voted me)"
  unfolding sample_voted_def forged_store_def by (simp add: wave_reach_vote wr_new)

lemma votes_at_New [simp]: "votes_at (NewWaveConsensus me vs) w = []"
  by (simp add: votes_at_def NewWaveConsensus_def)

lemma sample_voted_facts:
  "\<not> flag (wc_finalizedWaves (sample_voted me)) w"
  "wc_validators (sample_voted me) = sample_validators"
  "\<forall>k v. gget (votes_at (sample_voted me) 1) k = Some v \<longrightarrow> 8 \<le> length (wv_hash v)"
  "\<forall>k v. gget (votes_at (sample_voted me) 1) k = Some v \<and> wv_hash v = h \<longrightarrow> wv_type v = ''commit''"
  by (simp_all add: sample_voted_def forged_store_fields forged_store_get forged_vote_def)
    (simp_all add: NewWaveConsensus_def flag_def)

lemma sample_voted_majority: "2 \<le> card (commit_voters (sample_voted me) 1 (replicate 8 7))"
proof -
  have "{''v1'', ''v2''} \<subseteq> commit_voters (sample_voted me) 1 (replicate 8 7)"
    using forged_store_voters [of "[''v1'', ''v2'']"] by (simp add: sample_voted_def)
  from card_mono [OF finite_commit_voters this] show ?thesis
    by simp
qed

definition sample_ordv :: "address \<Rightarrow> string list" where
  "sample_ordv me = map fst (votes_at (sample_voted me) 1)"

definition sample_ordb :: "address \<Rightarrow> string list" where
  "sample_ordb me = map fst (group_votes (range_vals (sample_ordv me) (votes_at (sample_voted me) 1)))"

lemma sample_orders:
  "range_order (sample_ordv me) (votes_at (sample_voted me) 1)"
  "range_order (sample_ordb me) (group_votes (range_vals (sample_ordv me) (votes_at (sample_voted me) 1)))"
proof -
  have "gwf (votes_at (sample_voted me) 1)"
    using wave_reach_inv [OF sample_voted_reach] by (simp add: wave_inv_def stored_votes_ok_def votes_at_def)
  then show "range_order (sample_ordv me) (votes_at (sample_voted me) 1)"
    unfolding sample_ordv_def by (rule range_order_map_fst)
  show "range_order (sample_ordb me) (group_votes (range_vals (sample_ordv me) (votes_at (sample_voted me) 1)))"
    unfolding sample_ordb_def using groups_ok_group_votes by (intro range_order_map_fst) (simp add: groups_ok_def)
qed

lemma sample_check:
  "\<exists>wc'. checkWaveFinalization sample_digest sample_heap (sample_ordv me) (sample_ordb me) [] [] 1 (sample_voted me) = Inr wc'
     \<and> flag (wc_finalizedWaves wc') 1"
  using sample_voted_majority [of me]
  by (intro check_with_majority [OF sample_voted_facts(1) sample_long sample_orders sample_voted_facts(3,4),
        where h = "replicate 8 7"])
    (simp add: sample_voted_facts wave_requiredVotes_def)



theorem wave_majority_finalises_witness:
  "\<exists>wc'. checkWaveFinalization sample_digest sample_heap (sample_ordv ''v0'') (sample_ordb ''v0'') [] [] 1 (sample_voted ''v0'') = Inr wc'
     \<and> flag (wc_finalizedWaves wc') 1"
  using sample_voted_majority [of "''v0''"]
  by (intro wave_majority_finalises [OF sample_voted_reach sample_voted_facts(1) sample_long sample_orders
        sample_voted_facts(3,4), where h = "replicate 8 7"])
    simp

theorem forged_votes_finalise_witness:
  "\<exists>wc1. receive_votes length ''mallory'' (map (forged_vote 1 (replicate 8 7)) [''v1'', ''v2'']) (sample_node ''v0'') = Inr wc1"
proof -
  have "wc_validators (sample_node ''v0'') = sample_validators" "\<not> flag (wc_finalizedWaves (sample_node ''v0'')) 1"
    by (simp_all add: NewWaveConsensus_def flag_def)
  then have "\<exists>wc1. receive_votes length ''mallory'' (map (forged_vote 1 (replicate 8 7)) [''v1'', ''v2'']) (sample_node ''v0'') = Inr wc1 \<and>
      (\<forall>ordv ordb. range_order ordv (votes_at wc1 1) \<longrightarrow> range_order ordb (group_votes (range_vals ordv (votes_at wc1 1))) \<longrightarrow>
        (\<exists>wc2. checkWaveFinalization sample_digest sample_heap ordv ordb [] [] 1 wc1 = Inr wc2 \<and> flag (wc_finalizedWaves wc2) 1))"
    by (intro forged_votes_finalise [OF _ _ _ _ _ sample_long]) simp_all
  then show ?thesis
    by blast
qed

theorem validator_votes_for_all_proposed_witness:
  "\<exists>wc' ms ts. handleReceivedWaveBlocks sample_digest sample_heap (\<lambda>_. 32) 0 1 [1, 2] ''v1'' (sample_node ''v0'') = Inr (wc', ms, ts)
     \<and> ''v0'' \<in> commit_voters wc' 1 (sample_key 1) \<and> ''v0'' \<in> commit_voters wc' 1 (sample_key 2)"
proof -
  have leader: "getWaveLeader ''v0'' sample_validators 1 = Inr ''v1''"
    by (simp add: getWaveLeader_def rotation_leader_eq)
  then have "\<exists>wc' ms ts. handleReceivedWaveBlocks sample_digest sample_heap (\<lambda>_. 32) 0 1 [1, 2] ''v1'' (sample_node ''v0'') = Inr (wc', ms, ts)"
    by (simp add: handleReceivedWaveBlocks_def isValidWaveLeader_def voteOnBlock_def Let_def NewWaveConsensus_def)
  then obtain wc' ms ts where wc': "handleReceivedWaveBlocks sample_digest sample_heap (\<lambda>_. 32) 0 1 [1, 2] ''v1'' (sample_node ''v0'') = Inr (wc', ms, ts)"
    by blast
  have "vote_hash sample_digest (sample_heap n) = sample_key n" for n
    by (simp add: vote_hash_def)
  then show ?thesis
    using validator_votes_for_all_proposed [OF wr_new wc' leader, of 1]
      validator_votes_for_all_proposed [OF wr_new wc' leader, of 2] wc' by auto
qed

theorem processWave_proposes_witness:
  "\<exists>wc' v. processWave sample_digest sample_heap (\<lambda>_. 32) 0 [1, 2] 1 (NewWaveConsensus ''v0'' [''v0'']) =
     Inr (write_wave 1 2 sample_heap, wc', [broadcastVote ''v0'' 0 v, broadcastWaveBlocks ''v0'' 0 1 [2]], [TaskCheckFinalization 1])"
proof -
  let ?wc = "NewWaveConsensus ''v0'' [''v0'']"
  have leader: "isWaveLeader (wc_validatorID ?wc) (wc_validators ?wc) 1 = Inr True"
    by (simp add: NewWaveConsensus_def isWaveLeader_def rotation_leader_eq)
  have un: "unprocessed sample_digest sample_heap ?wc [1, 2] = [1, 2]"
    by (simp add: unprocessed_def alreadyProcessed_def NewWaveConsensus_def)
  have "top_round sample_heap [1, 2] = 2"
    by (simp add: top_round_def)
  then have cands: "[2] = filter (\<lambda>b. hdr_round (hd_of sample_heap b) = top_round sample_heap (unprocessed sample_digest sample_heap ?wc [1, 2]))
      (unprocessed sample_digest sample_heap ?wc [1, 2])"
    unfolding un by simp
  show ?thesis
    using processWave_proposes [OF leader _ _ _ cands refl refl, of "\<lambda>_. 32" 0] un
    by (auto simp: NewWaveConsensus_def)
qed

theorem wave_advances_one_by_one_witness:
  "\<exists>wc' ts. wave_advanceWave (sample_node ''v0'') = Inr (wc', ts) \<and> wave_GetCurrentWave wc' = 1"
proof -
  have "\<exists>wc' ts. wave_advanceWave (sample_node ''v0'') = Inr (wc', ts)"
    by (simp add: wave_advanceWave_def NewWaveConsensus_def isWaveLeader_def rotation_leader_eq)
  then obtain wc' ts where wc': "wave_advanceWave (sample_node ''v0'') = Inr (wc', ts)"
    by blast
  from wave_advances_one_by_one [OF this] show ?thesis
    using wc' by (auto simp: wave_GetCurrentWave_def NewWaveConsensus_def)
qed

theorem wave_stalls_without_blocks_witness:
  "wave_advanceWave ((sample_node ''v0'')\<lparr>wc_currentWave := 3\<rparr>) = Inr ((sample_node ''v0'')\<lparr>wc_currentWave := 3\<rparr>, [])"
  using wave_stalls_without_blocks [of sample_digest sample_heap length 0 3 "(sample_node ''v0'')\<lparr>wc_currentWave := 3\<rparr>"
      sample_heap "(sample_node ''v0'')\<lparr>wc_currentWave := 3\<rparr>" "[]" "[]"]
  by (simp add: processWave_def isWaveLeader_def rotation_leader_eq wave_GetCurrentWave_def NewWaveConsensus_def flag_def)


theorem follower_confirms_nothing_witness:
  "\<exists>wc'. checkWaveFinalization sample_digest sample_heap (sample_ordv ''v0'') (sample_ordb ''v0'') [] [] 1 (sample_voted ''v0'') = Inr wc'
     \<and> flag (wc_finalizedWaves wc') 1 \<and> wc_confirmedBlocks wc' = wc_confirmedBlocks (sample_voted ''v0'')"
proof -
  have "wc_waveBlocks (sample_voted ''v0'') = []"
    by (simp add: sample_voted_def forged_store_fields NewWaveConsensus_def)
  then show ?thesis
    using sample_check [of "''v0''"] follower_confirms_nothing [of 1 "sample_voted ''v0''" "[]"]
    by (auto simp: range_order_def)
qed

end
