(* ===== verification/Wave_Network.thy ===== *)
theory Wave_Network
  imports Wave_Properties
begin

text \<open>
  A network of nodes that run \<open>internal/consensus/wave_consensus.go\<close>.  Each node has the state of
  \<open>WaveConsensus\<close> and the goroutines it has started; messages are delivered in any order, late,
  more than once or never, with the contents the blocks had when they were sent.  Nodes
  in a set \<open>F\<close> are faulty and send whatever they like in their own names; the code does not
  authenticate messages, so that is a premise on the network.  The network refines an
  abstract voting protocol, from which agreement follows.
\<close>

section \<open>The abstract protocol\<close>

record voting_state =
  vt_proposed :: "(u64 \<times> hash) set"
  vt_cast :: "(u64 \<times> address \<times> hash) set"
  vt_decided :: "(address \<times> u64 \<times> hash) set"

text \<open>A correct leader proposes once per wave, a correct validator votes for what was proposed, and
  a decision needs \<open>q\<close> votes.\<close>

inductive voting_step :: "(u64 \<Rightarrow> address) \<Rightarrow> address set \<Rightarrow> address set \<Rightarrow> nat \<Rightarrow> voting_state \<Rightarrow> voting_state \<Rightarrow> bool"
  for leader V F q where
  vt_propose: "(\<And>h'. (w, h') \<notin> vt_proposed s) \<Longrightarrow>
    voting_step leader V F q s (s\<lparr>vt_proposed := insert (w, h) (vt_proposed s)\<rparr>)"
| vt_propose_any: "(\<And>w h. (w, h) \<in> P \<Longrightarrow> leader w \<in> F) \<Longrightarrow> voting_step leader V F q s (s\<lparr>vt_proposed := vt_proposed s \<union> P\<rparr>)"
| vt_vote: "(\<And>w a h. (w, a, h) \<in> C \<Longrightarrow> a \<in> F \<or> (w, h) \<in> vt_proposed s) \<Longrightarrow>
    voting_step leader V F q s (s\<lparr>vt_cast := vt_cast s \<union> C\<rparr>)"
| vt_decide: "(\<And>n w h. (n, w, h) \<in> D \<Longrightarrow> q \<le> card {a \<in> V. (w, a, h) \<in> vt_cast s}) \<Longrightarrow>
    voting_step leader V F q s (s\<lparr>vt_decided := vt_decided s \<union> D\<rparr>)"

definition voting_init :: voting_state where
  "voting_init = \<lparr>vt_proposed = {}, vt_cast = {}, vt_decided = {}\<rparr>"

abbreviation voting_run :: "(u64 \<Rightarrow> address) \<Rightarrow> address set \<Rightarrow> address set \<Rightarrow> nat \<Rightarrow> voting_state \<Rightarrow> bool" where
  "voting_run leader V F q \<equiv> (voting_step leader V F q)\<^sup>*\<^sup>* voting_init"

definition voting_inv :: "(u64 \<Rightarrow> address) \<Rightarrow> address set \<Rightarrow> address set \<Rightarrow> nat \<Rightarrow> voting_state \<Rightarrow> bool" where
  "voting_inv leader V F q s =
     ((\<forall>w a h. (w, a, h) \<in> vt_cast s \<and> a \<notin> F \<longrightarrow> (w, h) \<in> vt_proposed s) \<and>
      (\<forall>w h h'. leader w \<notin> F \<and> (w, h) \<in> vt_proposed s \<and> (w, h') \<in> vt_proposed s \<longrightarrow> h = h') \<and>
      (\<forall>n w h. (n, w, h) \<in> vt_decided s \<longrightarrow> q \<le> card {a \<in> V. (w, a, h) \<in> vt_cast s}))"

locale voting = quorum_threshold q for q :: "nat \<Rightarrow> nat" +
  fixes leader :: "u64 \<Rightarrow> address"
begin

lemma voting_step_inv:
  assumes "voting_step leader V F k s s'" "voting_inv leader V F k s" "finite V"
  shows "voting_inv leader V F k s'"
  using assms
proof (induction rule: voting_step.induct)
  case (vt_vote C s)
  have "card {a \<in> V. (w, a, h) \<in> vt_cast s} \<le> card {a \<in> V. (w, a, h) \<in> vt_cast s \<union> C}" for w h
    using vt_vote.prems(2) by (intro card_mono) auto
  then have "k \<le> card {a \<in> V. (w, a, h) \<in> vt_cast s \<union> C}" if "(n, w, h) \<in> vt_decided s" for n w h
    using vt_vote.prems(1) that unfolding voting_inv_def by (meson order_trans)
  with vt_vote show ?case
    unfolding voting_inv_def by auto
next
  case (vt_propose_any P s)
  then show ?case
    unfolding voting_inv_def by (auto 0 3)
qed (auto simp: voting_inv_def)

lemma voting_run_inv:
  assumes "voting_run leader V F k s" "finite V"
  shows "voting_inv leader V F k s"
  using assms(1)
proof (induction rule: rtranclp_induct)
  case base
  show ?case
    by (simp add: voting_inv_def voting_init_def)
qed (blast intro: voting_step_inv assms(2))

text \<open>With fewer faulty validators than votes needed, a decision is on something proposed.\<close>

lemma decided_proposed:
  assumes "voting_inv leader V F k s" "finite F" "card F < k" "(n, w, h) \<in> vt_decided s"
  shows "(w, h) \<in> vt_proposed s"
proof (rule ccontr)
  assume "(w, h) \<notin> vt_proposed s"
  then have "{a \<in> V. (w, a, h) \<in> vt_cast s} \<subseteq> F"
    using assms(1) by (auto simp: voting_inv_def)
  then have "card {a \<in> V. (w, a, h) \<in> vt_cast s} \<le> card F"
    using assms(2) by (rule card_mono[rotated])
  moreover have "k \<le> card {a \<in> V. (w, a, h) \<in> vt_cast s}"
    using assms(1,4) by (simp add: voting_inv_def)
  ultimately show False
    using assms(3) by simp
qed

lemma agreement:
  assumes "voting_run leader V F k s" "finite V" "finite F" "card F < k" "leader w \<notin> F"
    and "(n1, w, h1) \<in> vt_decided s" "(n2, w, h2) \<in> vt_decided s"
  shows "h1 = h2 \<and> (w, h1) \<in> vt_proposed s"
proof -
  note inv = voting_run_inv[OF assms(1,2)]
  from decided_proposed[OF inv assms(3,4)] assms(6,7) have "(w, h1) \<in> vt_proposed s" "(w, h2) \<in> vt_proposed s"
    by blast+
  then show ?thesis
    using inv assms(5) by (auto simp: voting_inv_def)
qed

text \<open>Whatever the leader does, two decisions in one wave share a validator that voted for both.\<close>

lemma conflict_shares_voter:
  assumes "voting_run leader V F (q (card V)) s" "finite V" "V \<noteq> {}"
    and "(n1, w, h1) \<in> vt_decided s" "(n2, w, h2) \<in> vt_decided s"
  shows "\<exists>a \<in> V. (w, a, h1) \<in> vt_cast s \<and> (w, a, h2) \<in> vt_cast s"
proof -
  have "q (card V) \<le> card {a \<in> V. (w, a, h1) \<in> vt_cast s}" "q (card V) \<le> card {a \<in> V. (w, a, h2) \<in> vt_cast s}"
    using voting_run_inv[OF assms(1,2)] assms(4,5) by (auto simp: voting_inv_def)
  from intersect[OF assms(2,3) _ _ this] show ?thesis
    by blast
qed

end

section \<open>The network\<close>

definition wave_leader :: "address list \<Rightarrow> u64 \<Rightarrow> address" where
  "wave_leader vs w = (case getWaveLeader [] vs w of Inl _ \<Rightarrow> [] | Inr l \<Rightarrow> l)"

interpretation wave_voting: voting wave_requiredVotes "wave_leader vs" for vs
  by unfold_locales

record wave_net =
  nn_node :: "address \<Rightarrow> wave_consensus"
  nn_tasks :: "address \<Rightarrow> wave_task list"
  nn_sent :: "(wave_message \<times> block_heap) set"
  nn_decided :: "(address \<times> u64 \<times> hash) set"

definition net_start :: "address list \<Rightarrow> wave_net" where
  "net_start vs = \<lparr>nn_node = (\<lambda>a. NewWaveConsensus a vs), nn_tasks = (\<lambda>a. []), nn_sent = {}, nn_decided = {}\<rparr>"

definition put_node :: "address \<Rightarrow> wave_consensus \<Rightarrow> wave_task list \<Rightarrow> wave_message list \<Rightarrow> block_heap \<Rightarrow> wave_net \<Rightarrow> wave_net" where
  "put_node a wc ts ms hp s = s\<lparr>nn_node := (nn_node s)(a := wc), nn_tasks := (nn_tasks s)(a := nn_tasks s a @ ts),
     nn_sent := nn_sent s \<union> (\<lambda>m. (m, hp)) ` set ms\<rparr>"

text \<open>What a check decides: the hashes with enough stored votes when it finalises the wave.\<close>

definition check_decides :: "address \<Rightarrow> u64 \<Rightarrow> wave_consensus \<Rightarrow> wave_consensus \<Rightarrow> (address \<times> u64 \<times> hash) set" where
  "check_decides a w wc wc' = (if flag (wc_finalizedWaves wc) w \<or> \<not> flag (wc_finalizedWaves wc') w then {}
     else {(a, w, h) | h. wave_requiredVotes (length (wc_validators wc)) \<le> card (commit_voters wc w h)})"

text \<open>The steps of the nodes outside \<open>F\<close>, in runs of fewer than $2^{64}$ waves, and of the others.\<close>

inductive net_step :: "header_digest \<Rightarrow> address list \<Rightarrow> address set \<Rightarrow> wave_net \<Rightarrow> wave_net \<Rightarrow> bool" for H vs F where
  net_tick: "a \<in> set vs - F \<Longrightarrow> wc_currentWave (nn_node s a) + 1 \<noteq> 0 \<Longrightarrow> wave_advanceWave (nn_node s a) = Inr (wc, ts) \<Longrightarrow>
    net_step H vs F s (put_node a wc ts [] hp s)"
| net_process: "a \<in> set vs - F \<Longrightarrow> nn_tasks s a = xs @ TaskProcessWave w # ys \<Longrightarrow>
    processWave H hp cap now recent w (nn_node s a) = Inr (hp', wc, ms, ts) \<Longrightarrow>
    net_step H vs F s (put_node a wc ts ms hp' (s\<lparr>nn_tasks := (nn_tasks s)(a := xs @ ys)\<rparr>))"
| net_receive: "a \<in> set vs - F \<Longrightarrow> (m, hpm) \<in> nn_sent s \<Longrightarrow> (\<And>b. b \<in> set (wm_blocks m) \<Longrightarrow> hp b = hpm b) \<Longrightarrow>
    handleWaveMessage H hp cap now m (nn_node s a) = Inr (wc, ms, ts) \<Longrightarrow> net_step H vs F s (put_node a wc ts ms hp s)"
| net_check: "a \<in> set vs - F \<Longrightarrow> checkWaveFinalization H hp ordv ordb ordw recent w (nn_node s a) = Inr wc \<Longrightarrow>
    net_step H vs F s (put_node a wc [] [] hp (s\<lparr>nn_decided := nn_decided s \<union> check_decides a w (nn_node s a) wc\<rparr>))"
| net_cleanup: "a \<in> set vs - F \<Longrightarrow> net_step H vs F s (put_node a (wave_cleanupOldWaves ordw ordc (nn_node s a)) [] [] hp s)"
| net_faulty: "(\<And>v. wm_vote m = Some v \<Longrightarrow> wv_voter v \<in> F) \<Longrightarrow> wm_validator m \<in> F \<Longrightarrow>
    net_step H vs F s (s\<lparr>nn_sent := insert (m, hp) (nn_sent s)\<rparr>)"

abbreviation net_run :: "header_digest \<Rightarrow> address list \<Rightarrow> address set \<Rightarrow> wave_net \<Rightarrow> bool" where
  "net_run H vs F \<equiv> (net_step H vs F)\<^sup>*\<^sup>* (net_start vs)"

section \<open>The abstraction\<close>

definition props_of :: "header_digest \<Rightarrow> address list \<Rightarrow> wave_message \<Rightarrow> block_heap \<Rightarrow> (u64 \<times> hash) set" where
  "props_of H vs m hp = (if wm_type m = ''wave_blocks'' \<and> wm_validator m = wave_leader vs (wm_wave m)
     then {(wm_wave m, vote_hash H (hp b)) | b. b \<in> set (wm_blocks m)} else {})"

definition casts_of :: "wave_message \<Rightarrow> (u64 \<times> address \<times> hash) set" where
  "casts_of m = (case wm_vote m of None \<Rightarrow> {} | Some v \<Rightarrow> {(wv_wave v, wv_voter v, wv_hash v)})"

definition net_voting :: "header_digest \<Rightarrow> address list \<Rightarrow> wave_net \<Rightarrow> voting_state" where
  "net_voting H vs s = \<lparr>vt_proposed = (\<Union>(m, hp) \<in> nn_sent s. props_of H vs m hp), vt_cast = (\<Union>(m, hp) \<in> nn_sent s. casts_of m),
     vt_decided = nn_decided s\<rparr>"

text \<open>Every vote a correct node has stored was sent; it has proposed a wave at most once, and not
  yet one it still has to process.\<close>

definition stored_cast :: "wave_net \<Rightarrow> wave_consensus \<Rightarrow> bool" where
  "stored_cast s wc = (\<forall>w k v. gget (votes_at wc w) k = Some v \<longrightarrow> (\<exists>(m, hp) \<in> nn_sent s. wm_vote m = Some v))"

definition proposed_by :: "wave_net \<Rightarrow> address \<Rightarrow> u64 \<Rightarrow> bool" where
  "proposed_by s a w = (\<exists>(m, hp) \<in> nn_sent s. wm_type m = ''wave_blocks'' \<and> wm_validator m = a \<and> wm_wave m = w)"

definition tasks_ok :: "wave_net \<Rightarrow> address \<Rightarrow> bool" where
  "tasks_ok s a = (distinct (filter (\<lambda>t. \<exists>w. t = TaskProcessWave w) (nn_tasks s a)) \<and>
     (\<forall>w. TaskProcessWave w \<in> set (nn_tasks s a) \<or> proposed_by s a w \<longrightarrow> w \<le> wc_currentWave (nn_node s a)) \<and>
     (\<forall>w. TaskProcessWave w \<in> set (nn_tasks s a) \<longrightarrow> \<not> proposed_by s a w))"

definition net_inv :: "address list \<Rightarrow> address set \<Rightarrow> wave_net \<Rightarrow> bool" where
  "net_inv vs F s = (\<forall>a \<in> set vs - F. wave_inv a vs (nn_node s a) \<and> stored_cast s (nn_node s a) \<and> tasks_ok s a)"

section \<open>What the handlers store, send and start\<close>

text \<open>A step of a node that stores only new votes of \<open>B\<close> and keeps the wave.\<close>

definition adds_votes :: "wave_vote set \<Rightarrow> wave_consensus \<Rightarrow> wave_consensus \<Rightarrow> bool" where
  "adds_votes B wc wc' = (wc_currentWave wc' = wc_currentWave wc \<and>
     (\<forall>w k v. gget (votes_at wc' w) k = Some v \<longrightarrow> v \<in> B \<or> gget (votes_at wc w) k = Some v))"

abbreviation ballot :: "address \<Rightarrow> int \<Rightarrow> u64 \<Rightarrow> hash \<Rightarrow> wave_vote" where
  "ballot a now w h \<equiv> \<lparr>wv_wave = w, wv_hash = h, wv_voter = a, wv_type = ''commit'', wv_time = now\<rparr>"

lemma adds_votes_refl: "adds_votes B wc wc"
  by (simp add: adds_votes_def)

lemma adds_votes_trans: "adds_votes B wc wc1 \<Longrightarrow> adds_votes C wc1 wc2 \<Longrightarrow> adds_votes (B \<union> C) wc wc2"
  unfolding adds_votes_def by (metis Un_iff)

lemma adds_votes_store: "v \<in> B \<Longrightarrow> adds_votes B wc (store_vote w k v wc)"
  by (auto simp: adds_votes_def store_vote_def votes_at_def)

lemma voteOnBlock_does:
  assumes "voteOnBlock H hp cap now w b wc = Inr (wc', ms, ts)"
  shows "ms = [broadcastVote (wc_validatorID wc) now (ballot (wc_validatorID wc) now w (vote_hash H (hp b)))]"
    "ts = [TaskCheckFinalization w]" "adds_votes {ballot (wc_validatorID wc) now w (vote_hash H (hp b))} wc wc'"
    "wc_validatorID wc' = wc_validatorID wc"
  using assms by (auto simp: voteOnBlock_def Let_def store_vote_def[of _ _ _ wc] split: if_splits intro: adds_votes_store[unfolded store_vote_def])

lemma voteOnBlocks_does:
  assumes "voteOnBlocks H hp cap now w bs wc = Inr (wc', ms, ts)"
  shows "set ms = (\<lambda>b. broadcastVote (wc_validatorID wc) now (ballot (wc_validatorID wc) now w (vote_hash H (hp b)))) ` set bs
    \<and> set ts \<subseteq> {TaskCheckFinalization w}
    \<and> adds_votes ((\<lambda>b. ballot (wc_validatorID wc) now w (vote_hash H (hp b))) ` set bs) wc wc'"
  using assms
proof (induction bs arbitrary: wc ms ts)
  case (Cons b bs)
  then obtain wc1 ms1 ts1 ms2 ts2 where one: "voteOnBlock H hp cap now w b wc = Inr (wc1, ms1, ts1)"
      and rest: "voteOnBlocks H hp cap now w bs wc1 = Inr (wc', ms2, ts2)" and ms: "ms = ms1 @ ms2" "ts = ts1 @ ts2"
    by (auto split: sum.splits simp: map_sum_eq_Inr)
  note first = voteOnBlock_does[OF one] and others = Cons.IH[OF rest]
  show ?case
    using first others ms adds_votes_trans[OF first(3), of _ wc'] by auto
qed (simp add: adds_votes_refl)

lemma processWave_does:
  assumes "processWave H hp cap now recent w wc = Inr (hp', wc', ms, ts)"
  shows "set ts \<subseteq> {TaskCheckFinalization w} \<and> (ms = [] \<and> adds_votes {} wc wc' \<or>
    (\<exists>b. isWaveLeader (wc_validatorID wc) (wc_validators wc) w = Inr True \<and>
       (let v = ballot (wc_validatorID wc) now w (vote_hash H (hp' b))
        in ms = [broadcastVote (wc_validatorID wc) now v, broadcastWaveBlocks (wc_validatorID wc) now w [b]] \<and> adds_votes {v} wc wc')))"
proof (cases "ms = []")
  case True
  then have "wc' = wc \<or> wc' = wc\<lparr>wc_finalizedWaves := gput w True (wc_finalizedWaves wc)\<rparr>" "ts = []"
    using assms by (auto simp: processWave_def Let_def map_sum_eq_Inr split: sum.splits bool.splits if_splits)
  then show ?thesis
    using True by (auto simp: adds_votes_def votes_at_def)
next
  case False
  then obtain b wc1 ms1 where leader: "isWaveLeader (wc_validatorID wc) (wc_validators wc) w = Inr True"
      and vote: "voteOnBlock H hp' cap now w b wc1 = Inr (wc', ms1, ts)"
      and ms: "ms = ms1 @ [broadcastWaveBlocks (wc_validatorID wc) now w [b]]"
      and wc1: "wc1 = wc\<lparr>wc_waveBlocks := gput w [b] (wc_waveBlocks wc), wc_waveVotes := gput w (votes_at wc w) (wc_waveVotes wc)\<rparr>"
    using assms by (auto simp: processWave_def Let_def map_sum_eq_Inr split: sum.splits bool.splits if_splits)
  have "adds_votes {} wc wc1"
    unfolding wc1 by (auto simp: adds_votes_def votes_at_def slice_at_def split: if_splits option.splits)
  then show ?thesis
    using voteOnBlock_does[OF vote] leader ms adds_votes_trans[OF _ voteOnBlock_does(3)[OF vote], of "{}" wc]
    by (intro conjI disjI2 exI[of _ b]) (simp_all add: wc1 Let_def)
qed

lemma cleanup_adds: "adds_votes {} wc (wave_cleanupOldWaves ordw ordc wc)"
  by (auto simp: adds_votes_def wave_cleanupOldWaves_def Let_def votes_at_def slice_at_def split: option.splits if_splits)

lemma check_adds: "checkWaveFinalization H hp ordv ordb ordw recent w wc = Inr wc' \<Longrightarrow> adds_votes {} wc wc'"
  using check_other_fields[of H hp ordv ordb ordw recent w wc wc'] by (simp add: adds_votes_def votes_at_def)

section \<open>The invariant\<close>

lemma put_node_fields [simp]:
  "nn_node (put_node a wc ts ms hp s) = (nn_node s)(a := wc)" "nn_tasks (put_node a wc ts ms hp s) = (nn_tasks s)(a := nn_tasks s a @ ts)"
  "nn_sent (put_node a wc ts ms hp s) = nn_sent s \<union> (\<lambda>m. (m, hp)) ` set ms" "nn_decided (put_node a wc ts ms hp s) = nn_decided s"
  by (simp_all add: put_node_def)

lemma stored_cast_adds:
  assumes "stored_cast s wc" "adds_votes B wc wc'" "nn_sent s \<subseteq> nn_sent s'" "\<And>v. v \<in> B \<Longrightarrow> \<exists>(m, hp) \<in> nn_sent s'. wm_vote m = Some v"
  shows "stored_cast s' wc'"
  using assms unfolding stored_cast_def adds_votes_def by (meson subsetD)

lemmas stored_cast_mono = stored_cast_adds[OF _ adds_votes_refl[of "{}"], simplified]

lemma proposed_by_put [simp]:
  "proposed_by (put_node a wc ts ms hp s) c w \<longleftrightarrow>
     proposed_by s c w \<or> (\<exists>m \<in> set ms. wm_type m = ''wave_blocks'' \<and> wm_validator m = c \<and> wm_wave m = w)"
  by (auto simp: proposed_by_def)

lemma broadcast_fields [simp]:
  "wm_type (broadcastVote a now v) = ''vote''" "wm_vote (broadcastVote a now v) = Some v"
  "wm_type (broadcastWaveBlocks a now w bs) = ''wave_blocks''" "wm_vote (broadcastWaveBlocks a now w bs) = None"
  "wm_validator (broadcastWaveBlocks a now w bs) = a" "wm_wave (broadcastWaveBlocks a now w bs) = w"
  "wm_blocks (broadcastWaveBlocks a now w bs) = bs"
  by (simp_all add: broadcastVote_def broadcastWaveBlocks_def)

text \<open>A step of node \<open>a\<close> that sends votes only and starts no proposal.\<close>

lemma net_inv_votes:
  assumes "net_inv vs F s" "a \<in> set vs - F" "wave_inv a vs wc" "adds_votes B (nn_node s a) wc"
    and "\<And>m. m \<in> set ms \<Longrightarrow> wm_type m \<noteq> ''wave_blocks''" "\<And>w. TaskProcessWave w \<notin> set ts"
    and "\<And>v. v \<in> B \<Longrightarrow> \<exists>(m, x) \<in> nn_sent (put_node a wc ts ms hp s). wm_vote m = Some v"
  shows "net_inv vs F (put_node a wc ts ms hp s)"
  unfolding net_inv_def
proof
  fix c assume c: "c \<in> set vs - F"
  let ?s = "put_node a wc ts ms hp s"
  have old: "wave_inv c vs (nn_node s c)" "stored_cast s (nn_node s c)" "tasks_ok s c"
    using assms(1) c by (auto simp: net_inv_def)
  have "filter (\<lambda>t. \<exists>w. t = TaskProcessWave w) ts = []"
    using assms(6) by (auto simp: filter_empty_conv)
  then have "tasks_ok ?s c"
    using old(3) assms(4-6) by (auto simp: tasks_ok_def adds_votes_def)
  moreover have "stored_cast ?s (nn_node ?s c)"
    using stored_cast_adds[OF _ assms(4) _ assms(7)] stored_cast_mono[OF old(2), of ?s] old(2) by (cases "c = a") auto
  ultimately show "wave_inv c vs (nn_node ?s c) \<and> stored_cast ?s (nn_node ?s c) \<and> tasks_ok ?s c"
    using old(1) assms(3) by simp
qed

text \<open>Bookkeeping of decisions does not matter to the invariant.\<close>

lemma net_inv_decided [simp]: "net_inv vs F (s\<lparr>nn_decided := D\<rparr>) = net_inv vs F s"
  by (simp add: net_inv_def stored_cast_def tasks_ok_def proposed_by_def)

lemma put_node_decided: "put_node a wc ts ms hp (s\<lparr>nn_decided := D\<rparr>) = (put_node a wc ts ms hp s)\<lparr>nn_decided := D\<rparr>"
  by (simp add: put_node_def)

lemma net_inv_tick:
  assumes "net_inv vs F s" "a \<in> set vs - F" "wc_currentWave (nn_node s a) + 1 \<noteq> 0" "wave_advanceWave (nn_node s a) = Inr (wc, ts)"
  shows "net_inv vs F (put_node a wc ts [] hp s)"
  unfolding net_inv_def
proof
  fix c assume c: "c \<in> set vs - F"
  let ?s = "put_node a wc ts [] hp s" and ?w = "wc_currentWave (nn_node s a)"
  have old: "wave_inv c vs (nn_node s c)" "stored_cast s (nn_node s c)" "tasks_ok s c"
    using assms(1) c by (auto simp: net_inv_def)
  have adv: "wc = nn_node s a \<and> ts = [] \<or> wc = (nn_node s a)\<lparr>wc_currentWave := ?w + 1\<rparr> \<and>
      filter (\<lambda>t. \<exists>w. t = TaskProcessWave w) ts \<in> {[], [TaskProcessWave (?w + 1)]}"
    using assms(4) by (auto simp: wave_advanceWave_def Let_def split: if_splits sum.splits)
  have new: "?w < ?w + 1"
    using assms(3) by (simp add: word_less_nat_alt unatSuc add.commute)
  have le: "w \<le> ?w \<Longrightarrow> w \<le> ?w + 1" for w
    using new by (meson order_trans less_imp_le)
  have tasks: "tasks_ok ?s c" if "c = a" "ts \<noteq> []"
  proof -
    have wave: "wc_currentWave wc = ?w + 1"
      and process: "filter (\<lambda>t. \<exists>w. t = TaskProcessWave w) ts \<in> {[], [TaskProcessWave (?w + 1)]}"
      using adv that by auto
    have started: "w = ?w + 1" if "TaskProcessWave w \<in> set ts" for w
    proof -
      have "TaskProcessWave w \<in> set (filter (\<lambda>t. \<exists>w. t = TaskProcessWave w) ts)"
        using that by simp
      then show ?thesis
        using process by (elim insertE; simp del: set_filter)
    qed
    have fresh: "TaskProcessWave (?w + 1) \<notin> set (nn_tasks s a)" "\<not> proposed_by s a (?w + 1)"
      using old(3) new that(1) by (auto simp: tasks_ok_def simp flip: not_less)
    show ?thesis
      using old(3) that(1) process started fresh new wave
      by (auto simp: tasks_ok_def intro!: le)
  qed
  have "tasks_ok ?s c"
    using tasks adv old(3) by (cases "c = a"; cases "ts = []") (auto simp: tasks_ok_def intro!: le)
  moreover have "stored_cast ?s (nn_node ?s c)"
    using adv old(2) stored_cast_mono[OF old(2), of ?s] by (auto simp: stored_cast_def votes_at_def)
  moreover have "wave_inv c vs (nn_node ?s c)"
    using adv old(1) by (auto simp: wave_inv_def)
  ultimately show "wave_inv c vs (nn_node ?s c) \<and> stored_cast ?s (nn_node ?s c) \<and> tasks_ok ?s c"
    by blast
qed

lemma tasks_ok_take:
  assumes "tasks_ok s a" "nn_tasks s a = xs @ TaskProcessWave w # ys"
  shows "TaskProcessWave w \<notin> set (xs @ ys)" "\<not> proposed_by s a w" "w \<le> wc_currentWave (nn_node s a)"
  using assms by (auto simp: tasks_ok_def)

lemma net_inv_take:
  assumes "net_inv vs F s" "nn_tasks s a = xs @ TaskProcessWave w # ys"
  shows "net_inv vs F (s\<lparr>nn_tasks := (nn_tasks s)(a := xs @ ys)\<rparr>)"
proof -
  let ?s = "s\<lparr>nn_tasks := (nn_tasks s)(a := xs @ ys)\<rparr>"
  have same: "stored_cast ?s = stored_cast s" "proposed_by ?s = proposed_by s"
    by (simp_all add: stored_cast_def proposed_by_def fun_eq_iff)
  have "tasks_ok ?s c" if "tasks_ok s c" for c
    using that assms(2) unfolding tasks_ok_def same by (cases "c = a") auto
  then show ?thesis
    using assms(1) by (simp add: net_inv_def same)
qed

lemma net_inv_process:
  assumes "net_inv vs F s" "a \<in> set vs - F" "nn_tasks s a = xs @ TaskProcessWave w # ys"
    and "processWave H hp cap now recent w (nn_node s a) = Inr (hp', wc, ms, ts)"
  shows "net_inv vs F (put_node a wc ts ms hp' (s\<lparr>nn_tasks := (nn_tasks s)(a := xs @ ys)\<rparr>))"
proof -
  let ?s0 = "s\<lparr>nn_tasks := (nn_tasks s)(a := xs @ ys)\<rparr>"
  have inv0: "net_inv vs F ?s0" and inv: "wave_inv a vs (nn_node s a)" "tasks_ok s a"
    using net_inv_take[OF assms(1,3)] assms(1,2) by (auto simp: net_inv_def)
  have wc: "wave_inv a vs wc"
    using processWave_inv[OF assms(4) inv(1)] .
  have id: "wc_validatorID (nn_node s a) = a"
    using wave_inv_ids[OF inv(1)] by simp
  have ts: "TaskProcessWave x \<notin> set ts" for x
    using processWave_does[OF assms(4)] by auto
  show ?thesis
  proof (cases "ms = []")
    case True
    then have "adds_votes {} (nn_node ?s0 a) wc"
      using processWave_does[OF assms(4)] by (auto simp: Let_def)
    from net_inv_votes[OF inv0 assms(2) wc this, of ms ts hp'] show ?thesis
      using ts by (simp add: True)
  next
    case False
    then obtain b v where ms: "ms = [broadcastVote a now v, broadcastWaveBlocks a now w [b]]" and adds: "adds_votes {v} (nn_node ?s0 a) wc"
      using processWave_does[OF assms(4)] id by (auto simp: Let_def)
    have one: "net_inv vs F (put_node a wc ts [broadcastVote a now v] hp' ?s0)"
      by (rule net_inv_votes[OF inv0 assms(2) wc adds]) (use ts in auto)
    let ?s1 = "put_node a wc ts [broadcastVote a now v] hp' ?s0" and ?s2 = "put_node a wc ts ms hp' ?s0"
    have proposed: "proposed_by ?s2 c x \<longleftrightarrow> proposed_by ?s1 c x \<or> c = a \<and> x = w" for c x
      by (auto simp: ms)
    have sent: "nn_sent ?s1 \<subseteq> nn_sent ?s2"
      by (auto simp: ms)
    show ?thesis
      unfolding net_inv_def
    proof
      fix c assume "c \<in> set vs - F"
      then have c: "wave_inv c vs (nn_node ?s1 c)" "stored_cast ?s1 (nn_node ?s1 c)" "tasks_ok ?s1 c"
        using one by (auto simp: net_inv_def)
      have "wc_currentWave wc = wc_currentWave (nn_node s a)"
        using adds by (simp add: adds_votes_def)
      then have "tasks_ok ?s2 c"
        using c(3) tasks_ok_take[OF inv(2) assms(3)] ts unfolding tasks_ok_def proposed by auto
      then show "wave_inv c vs (nn_node ?s2 c) \<and> stored_cast ?s2 (nn_node ?s2 c) \<and> tasks_ok ?s2 c"
        using c(1) stored_cast_mono[OF c(2) sent] by simp
    qed
  qed
qed

text \<open>What a received message makes a node store and send.\<close>

lemma handleWaveMessage_does:
  assumes "handleWaveMessage H hp cap now m wc = Inr (wc', ms, ts)" "wc_validatorID wc = a" "wc_validators wc = vs" "vs \<noteq> []"
  obtains "ms = []" "adds_votes (set_option (wm_vote m)) wc wc'" "\<And>w. TaskProcessWave w \<notin> set ts"
  | "wm_type m = ''wave_blocks''" "wm_validator m = wave_leader vs (wm_wave m)" "\<And>w. TaskProcessWave w \<notin> set ts"
    "set ms = (\<lambda>b. broadcastVote a now (ballot a now (wm_wave m) (vote_hash H (hp b)))) ` set (wm_blocks m)"
    "adds_votes ((\<lambda>b. ballot a now (wm_wave m) (vote_hash H (hp b))) ` set (wm_blocks m)) wc wc'"
proof (cases "wm_type m = ''wave_blocks'' \<and> wm_blocks m \<noteq> [] \<and> isValidWaveLeader a vs (wm_validator m) (wm_wave m) = Inr True")
  case True
  then have leader: "wm_validator m = wave_leader vs (wm_wave m)"
    using assms(4) by (auto simp: isValidWaveLeader_def wave_leader_def getWaveLeader_def map_sum_eq_Inr)
  have "voteOnBlocks H hp cap now (wm_wave m) (wm_blocks m) wc = Inr (wc', ms, ts)"
    using True assms(1-3) by (simp add: handleWaveMessage_def handleReceivedWaveBlocks_def)
  from voteOnBlocks_does[OF this] show ?thesis
    using that(2) True leader assms(2) by auto
next
  case False
  then have "(wc' = wc \<or> (\<exists>v k. wm_vote m = Some v \<and> wc' = store_vote (wv_wave v) k v wc)) \<and> ms = [] \<and>
      (\<forall>w. TaskProcessWave w \<notin> set ts)"
    using assms(1-3) by (auto simp: handleWaveMessage_def handleReceivedWaveBlocks_def handleReceivedVote_def map_sum_eq_Inr
        split: if_splits option.splits sum.splits bool.splits)
  then show ?thesis
    using that(1) adds_votes_store[of _ "set_option (wm_vote m)"] adds_votes_refl by fastforce
qed

lemma net_inv_receive:
  assumes "net_inv vs F s" "a \<in> set vs - F" "(m, hpm) \<in> nn_sent s" "handleWaveMessage H hp cap now m (nn_node s a) = Inr (wc, ms, ts)"
  shows "net_inv vs F (put_node a wc ts ms hp s)"
proof -
  have inv: "wave_inv a vs (nn_node s a)" and ne: "vs \<noteq> []"
    using assms(1,2) by (auto simp: net_inv_def)
  note ids = wave_inv_ids[OF inv]
  show ?thesis
    using assms(4) ids[THEN conjunct1] ids[THEN conjunct2] ne
  proof (cases rule: handleWaveMessage_does)
    case 1
    show ?thesis
      by (rule net_inv_votes[OF assms(1,2) handleWaveMessage_inv[OF assms(4) inv] 1(2)]) (use 1 assms(3) in auto)
  next
    case 2
    have "\<exists>(m, x) \<in> nn_sent (put_node a wc ts ms hp s). wm_vote m = Some v"
      if "v \<in> (\<lambda>b. ballot a now (wm_wave m) (vote_hash H (hp b))) ` set (wm_blocks m)" for v
    proof -
      have "broadcastVote a now v \<in> set ms"
        using that by (auto simp: 2(4))
      then show ?thesis
        by (intro bexI[of _ "(broadcastVote a now v, hp)"]) auto
    qed
    then show ?thesis
      by (rule net_inv_votes[OF assms(1,2) handleWaveMessage_inv[OF assms(4) inv] 2(5), rotated 2]) (use 2 in auto)
  qed
qed

section \<open>The simulation\<close>

abbreviation vote_steps :: "address list \<Rightarrow> address set \<Rightarrow> voting_state \<Rightarrow> voting_state \<Rightarrow> bool" where
  "vote_steps vs F \<equiv> (voting_step (wave_leader vs) (set vs) F (wave_requiredVotes (length vs)))\<^sup>*\<^sup>*"

lemma net_voting_put:
  "net_voting H vs (put_node a wc ts ms hp s) = (net_voting H vs s)
     \<lparr>vt_proposed := vt_proposed (net_voting H vs s) \<union> (\<Union>m \<in> set ms. props_of H vs m hp),
      vt_cast := vt_cast (net_voting H vs s) \<union> (\<Union>m \<in> set ms. casts_of m)\<rparr>"
  by (simp add: net_voting_def)

lemma vote_of_broadcast [simp]:
  "props_of H vs (broadcastVote a now v) hp = {}" "casts_of (broadcastVote a now v) = {(wv_wave v, wv_voter v, wv_hash v)}"
  "casts_of (broadcastWaveBlocks a now w bs) = {}"
  by (simp_all add: props_of_def casts_of_def)

lemma sim_process:
  assumes "net_inv vs F s" "a \<in> set vs - F" "nn_tasks s a = xs @ TaskProcessWave w # ys"
    and "processWave H hp cap now recent w (nn_node s a) = Inr (hp', wc, ms, ts)"
  shows "vote_steps vs F (net_voting H vs s) (net_voting H vs (put_node a wc ts ms hp' (s\<lparr>nn_tasks := T\<rparr>)))"
proof (cases "ms = []")
  case True
  then show ?thesis
    unfolding net_voting_put by (simp add: net_voting_def)
next
  case False
  let ?v = "net_voting H vs s"
  have inv: "wave_inv a vs (nn_node s a)" "tasks_ok s a"
    using assms(1,2) by (auto simp: net_inv_def)
  note ids = wave_inv_ids[OF inv(1)]
  obtain b where leader: "isWaveLeader a vs w = Inr True"
      and ms: "ms = [broadcastVote a now (ballot a now w (vote_hash H (hp' b))), broadcastWaveBlocks a now w [b]]"
    using processWave_does[OF assms(4)] False ids by (auto simp: Let_def)
  have "vs \<noteq> []"
    using assms(2) by auto
  then have a: "wave_leader vs w = a"
    using leader by (auto simp: isWaveLeader_def wave_leader_def getWaveLeader_def map_sum_eq_Inr)
  have "(w, h) \<notin> vt_proposed ?v" for h
    using tasks_ok_take(2)[OF inv(2) assms(3)] a by (auto simp: net_voting_def proposed_by_def props_of_def split: if_splits)
  then have "voting_step (wave_leader vs) (set vs) F (wave_requiredVotes (length vs)) ?v
      (?v\<lparr>vt_proposed := insert (w, vote_hash H (hp' b)) (vt_proposed ?v)\<rparr>)"
    by (rule vt_propose)
  moreover have "voting_step (wave_leader vs) (set vs) F (wave_requiredVotes (length vs))
      (?v\<lparr>vt_proposed := insert (w, vote_hash H (hp' b)) (vt_proposed ?v)\<rparr>)
      (net_voting H vs (put_node a wc ts ms hp' (s\<lparr>nn_tasks := T\<rparr>)))"
    using vt_vote[of "{(w, a, vote_hash H (hp' b))}" F "?v\<lparr>vt_proposed := insert (w, vote_hash H (hp' b)) (vt_proposed ?v)\<rparr>"]
    unfolding net_voting_put by (simp add: ms props_of_def a net_voting_def)
  ultimately show ?thesis
    by (rule converse_rtranclp_into_rtranclp[OF _ r_into_rtranclp])
qed

lemma sim_receive:
  assumes "net_inv vs F s" "a \<in> set vs - F" "(m, hpm) \<in> nn_sent s" "\<And>b. b \<in> set (wm_blocks m) \<Longrightarrow> hp b = hpm b"
    and "handleWaveMessage H hp cap now m (nn_node s a) = Inr (wc, ms, ts)"
  shows "vote_steps vs F (net_voting H vs s) (net_voting H vs (put_node a wc ts ms hp s))"
proof -
  let ?v = "net_voting H vs s"
  have inv: "wave_inv a vs (nn_node s a)" and ne: "vs \<noteq> []"
    using assms(1,2) by (auto simp: net_inv_def)
  note ids = wave_inv_ids[OF inv]
  show ?thesis
    using assms(5) ids[THEN conjunct1] ids[THEN conjunct2] ne
  proof (cases rule: handleWaveMessage_does)
    case 1
    then show ?thesis
      unfolding net_voting_put by simp
  next
    case 2
    define C where "C = (\<lambda>b. (wm_wave m, a, vote_hash H (hp b))) ` set (wm_blocks m)"
    have "(w, h) \<in> vt_proposed ?v" if "(w, x, h) \<in> C" for w x h
    proof -
      have "(w, h) \<in> props_of H vs m hpm"
        using that assms(4) 2(1,2) by (auto simp: C_def props_of_def)
      then show ?thesis
        using assms(3) by (auto simp: net_voting_def)
    qed
    then have "voting_step (wave_leader vs) (set vs) F (wave_requiredVotes (length vs)) ?v (?v\<lparr>vt_cast := vt_cast ?v \<union> C\<rparr>)"
      by (intro vt_vote) blast
    moreover have "net_voting H vs (put_node a wc ts ms hp s) = ?v\<lparr>vt_cast := vt_cast ?v \<union> C\<rparr>"
    proof -
      have "(\<Union>m \<in> set ms. casts_of m) = C" "(\<Union>m \<in> set ms. props_of H vs m hp) = {}"
        by (auto simp: 2(4) C_def)
      then show ?thesis
        unfolding net_voting_put by simp
    qed
    ultimately show ?thesis
      by simp
  qed
qed

lemma sim_check:
  assumes "net_inv vs F s" "a \<in> set vs - F"
  shows "vote_steps vs F (net_voting H vs s)
    (net_voting H vs (put_node a wc [] [] hp (s\<lparr>nn_decided := nn_decided s \<union> check_decides a w (nn_node s a) wc\<rparr>)))"
proof -
  let ?v = "net_voting H vs s" and ?D = "check_decides a w (nn_node s a) wc"
  have inv: "wave_inv a vs (nn_node s a)" "stored_cast s (nn_node s a)"
    using assms by (auto simp: net_inv_def)
  have "wave_requiredVotes (length vs) \<le> card {x \<in> set vs. (w', x, h) \<in> vt_cast ?v}" if "(n, w', h) \<in> ?D" for n w' h
  proof -
    have n: "w' = w" "wave_requiredVotes (length vs) \<le> card (commit_voters (nn_node s a) w h)"
      using that wave_inv_ids[OF inv(1)] by (auto simp: check_decides_def split: if_splits)
    have "commit_voters (nn_node s a) w h \<subseteq> {x \<in> set vs. (w, x, h) \<in> vt_cast ?v}"
    proof
      fix x assume x: "x \<in> commit_voters (nn_node s a) w h"
      then obtain k v where v: "gget (votes_at (nn_node s a) w) k = Some v" "wv_hash v = h" "wv_voter v = x"
        by (auto simp: commit_voters_def)
      obtain m hpm where m: "(m, hpm) \<in> nn_sent s" "wm_vote m = Some v"
        using inv(2) v(1) unfolding stored_cast_def by blast
      have "wv_wave v = w"
        using inv(1) v(1) by (auto simp: wave_inv_def stored_votes_ok_def votes_at_def)
      then have "(w, x, h) \<in> casts_of m"
        using v m(2) by (simp add: casts_of_def)
      then show "x \<in> {x \<in> set vs. (w, x, h) \<in> vt_cast ?v}"
        using m(1) x commit_voters_validators[OF inv(1)] assms(2) by (auto simp: net_voting_def)
    qed
    then have "card (commit_voters (nn_node s a) w h) \<le> card {x \<in> set vs. (w, x, h) \<in> vt_cast ?v}"
      by (intro card_mono) simp_all
    with n show ?thesis
      by simp
  qed
  then have "voting_step (wave_leader vs) (set vs) F (wave_requiredVotes (length vs)) ?v (?v\<lparr>vt_decided := vt_decided ?v \<union> ?D\<rparr>)"
    by (rule vt_decide)
  moreover have "net_voting H vs (put_node a wc [] [] hp (s\<lparr>nn_decided := nn_decided s \<union> ?D\<rparr>)) = ?v\<lparr>vt_decided := vt_decided ?v \<union> ?D\<rparr>"
    by (simp add: net_voting_def)
  ultimately show ?thesis
    by simp
qed

lemma sim_faulty:
  assumes "\<And>v. wm_vote m = Some v \<Longrightarrow> wv_voter v \<in> F" "wm_validator m \<in> F"
  shows "vote_steps vs F (net_voting H vs s) (net_voting H vs (s\<lparr>nn_sent := insert (m, hp) (nn_sent s)\<rparr>))"
proof -
  let ?v = "net_voting H vs s"
  let ?v1 = "?v\<lparr>vt_proposed := vt_proposed ?v \<union> props_of H vs m hp\<rparr>"
  have "voting_step (wave_leader vs) (set vs) F (wave_requiredVotes (length vs)) ?v ?v1"
    by (rule vt_propose_any) (use assms(2) in \<open>auto simp: props_of_def split: if_splits\<close>)
  moreover have "voting_step (wave_leader vs) (set vs) F (wave_requiredVotes (length vs)) ?v1
      (?v1\<lparr>vt_cast := vt_cast ?v1 \<union> casts_of m\<rparr>)"
    by (rule vt_vote) (use assms(1) in \<open>auto simp: casts_of_def split: option.splits\<close>)
  moreover have "net_voting H vs (s\<lparr>nn_sent := insert (m, hp) (nn_sent s)\<rparr>) = ?v1\<lparr>vt_cast := vt_cast ?v1 \<union> casts_of m\<rparr>"
    by (simp add: net_voting_def Un_commute)
  ultimately show ?thesis
    by (metis converse_rtranclp_into_rtranclp r_into_rtranclp)
qed

lemma net_inv_faulty:
  assumes "net_inv vs F s" "wm_validator m \<in> F"
  shows "net_inv vs F (s\<lparr>nn_sent := insert (m, hp) (nn_sent s)\<rparr>)"
proof -
  let ?s = "s\<lparr>nn_sent := insert (m, hp) (nn_sent s)\<rparr>"
  have "proposed_by ?s c w = proposed_by s c w" if "c \<notin> F" for c w
    using assms(2) that by (auto simp: proposed_by_def)
  moreover have "stored_cast ?s wc" if "stored_cast s wc" for wc
    by (rule stored_cast_mono[OF that]) auto
  ultimately show ?thesis
    using assms(1) by (auto simp: net_inv_def tasks_ok_def)
qed

lemma net_step_sim:
  assumes "net_step H vs F s s'" "net_inv vs F s"
  shows "net_inv vs F s' \<and> vote_steps vs F (net_voting H vs s) (net_voting H vs s')"
  using assms
proof (induction rule: net_step.induct)
  case (net_tick a s wc ts hp)
  then show ?case
    using net_inv_tick net_voting_put[of H vs a wc ts "[]" hp s] by simp
next
  case (net_process a s xs w ys hp cap now recent hp' wc ms ts)
  then show ?case
    using net_inv_process[OF net_process(4,1-3)] sim_process[OF net_process(4,1-3)] by simp
next
  case (net_receive a m hpm s hp cap now wc ms ts)
  then show ?case
    using net_inv_receive[OF net_receive(5,1,2,4)] sim_receive[OF net_receive(5,1-4)] by simp
next
  case (net_check a hp ordv ordb ordw recent w s wc)
  have inv: "wave_inv a vs (nn_node s a)"
    using net_check by (auto simp: net_inv_def)
  have "wave_inv a vs wc"
    using inv check_other_fields[OF net_check(2)] by (simp add: wave_inv_def)
  from net_inv_votes[OF net_check(3,1) this check_adds[OF net_check(2)], of "[]" "[]" hp] show ?case
    using sim_check[OF net_check(3,1)] by (simp add: put_node_decided)
next
  case (net_cleanup a s ordw ordc hp)
  have "wave_inv a vs (wave_cleanupOldWaves ordw ordc (nn_node s a))"
    using net_cleanup by (auto simp: net_inv_def wave_inv_def wave_cleanupOldWaves_def Let_def)
  from net_inv_votes[OF net_cleanup(2,1) this cleanup_adds, of "[]" "[]" hp] show ?case
    by (simp add: net_voting_put)
next
  case (net_faulty m s hp)
  then show ?case
    using net_inv_faulty sim_faulty by blast
qed

lemma net_start_inv: "net_inv vs F (net_start vs)"
  by (auto simp: net_inv_def net_start_def tasks_ok_def proposed_by_def stored_cast_def)
    (simp add: wave_inv_def NewWaveConsensus_def)

lemma net_run_sim:
  assumes "net_run H vs F s"
  shows "net_inv vs F s \<and> voting_run (wave_leader vs) (set vs) F (wave_requiredVotes (length vs)) (net_voting H vs s)"
  using assms
proof (induction rule: rtranclp_induct)
  case base
  then show ?case
    using net_start_inv by (simp add: net_voting_def net_start_def voting_init_def)
next
  case (step s s')
  then show ?case
    using net_step_sim by (meson rtranclp_trans)
qed

lemma vt_proposed_iff:
  "(w, h) \<in> vt_proposed (net_voting H vs s) \<longleftrightarrow> (\<exists>m hp b. (m, hp) \<in> nn_sent s \<and> wm_type m = ''wave_blocks'' \<and> wm_wave m = w \<and>
     wm_validator m = wave_leader vs w \<and> b \<in> set (wm_blocks m) \<and> vote_hash H (hp b) = h)"
  by (fastforce simp: net_voting_def props_of_def split: if_splits)

lemma vt_cast_iff:
  "(w, a, h) \<in> vt_cast (net_voting H vs s) \<longleftrightarrow>
     (\<exists>m hp v. (m, hp) \<in> nn_sent s \<and> wm_vote m = Some v \<and> wv_wave v = w \<and> wv_voter v = a \<and> wv_hash v = h)"
  by (fastforce simp: net_voting_def casts_of_def split: option.splits)

section \<open>Properties\<close>



text \<open>Without any assumption on the leader, two blocks finalised in one wave share a validator
  that sent a vote for both.\<close>

theorem wave_network_conflict:
  assumes "net_run H vs F s" "distinct vs" "vs \<noteq> []" "(n1, w, h1) \<in> nn_decided s" "(n2, w, h2) \<in> nn_decided s"
  shows "\<exists>a \<in> set vs. (w, a, h1) \<in> vt_cast (net_voting H vs s) \<and> (w, a, h2) \<in> vt_cast (net_voting H vs s)"
proof -
  have "voting_run (wave_leader vs) (set vs) F (wave_requiredVotes (card (set vs))) (net_voting H vs s)"
    using net_run_sim[OF assms(1)] assms(2) by (simp add: distinct_card)
  from wave_voting.conflict_shares_voter[OF this] assms(3-5) show ?thesis
    by (simp add: net_voting_def)
qed

section \<open>Witnesses\<close>

text \<open>Validators \<open>v0\<close>, \<open>v1\<close> and the faulty \<open>v2\<close>.  The leader \<open>v1\<close> of wave 1 proposes a block and votes,
  \<open>v2\<close> votes too, and \<open>v0\<close> receives both votes and finalises the wave.\<close>

abbreviation flat_digest :: header_digest where
  "flat_digest \<equiv> (\<lambda>_. replicate 8 7)"

abbreviation v1_waiting :: wave_consensus where
  "v1_waiting \<equiv> (sample_node ''v1'')\<lparr>wc_currentWave := 1\<rparr>"

definition after_tick :: wave_net where
  "after_tick = put_node ''v1'' v1_waiting [TaskProcessWave 1] [] sample_heap (net_start sample_validators)"

lemma tick_run: "net_run flat_digest sample_validators {''v2''} after_tick"
  unfolding after_tick_def
  by (rule r_into_rtranclp, rule net_tick)
    (simp_all add: net_start_def wave_advanceWave_def NewWaveConsensus_def isWaveLeader_def rotation_leader_eq)

lemma v1_proposes:
  "\<exists>wc. processWave flat_digest sample_heap (\<lambda>_. 32) 0 [1] 1 v1_waiting = Inr (write_wave 1 1 sample_heap, wc,
     [broadcastVote ''v1'' 0 (forged_vote 1 (replicate 8 7) ''v1''), broadcastWaveBlocks ''v1'' 0 1 [1]], [TaskCheckFinalization 1])"
  by (simp add: processWave_def NewWaveConsensus_def isWaveLeader_def rotation_leader_eq candidateBlocks_def
      collect_candidate_def alreadyProcessed_def voteOnBlock_def forged_vote_def vote_hash_def
      go_rem_def go_index_def Let_def smod_int_alt_def write_wave_def block_ComputeHash_def sample_block_def)

lemma process_run:
  "\<exists>s. net_run flat_digest sample_validators {''v2''} s \<and> nn_node s ''v0'' = sample_node ''v0'' \<and> nn_decided s = {} \<and>
     (\<exists>hp. (broadcastVote ''v1'' 0 (forged_vote 1 (replicate 8 7) ''v1''), hp) \<in> nn_sent s)"
proof -
  obtain wc where wc: "processWave flat_digest sample_heap (\<lambda>_. 32) 0 [1] 1 v1_waiting = Inr (write_wave 1 1 sample_heap, wc,
     [broadcastVote ''v1'' 0 (forged_vote 1 (replicate 8 7) ''v1''), broadcastWaveBlocks ''v1'' 0 1 [1]], [TaskCheckFinalization 1])"
    using v1_proposes by blast
  have "nn_node after_tick ''v1'' = v1_waiting" "nn_tasks after_tick ''v1'' = [] @ TaskProcessWave 1 # []"
    by (simp_all add: after_tick_def net_start_def)
  then have "net_step flat_digest sample_validators {''v2''} after_tick (put_node ''v1'' wc [TaskCheckFinalization 1]
      [broadcastVote ''v1'' 0 (forged_vote 1 (replicate 8 7) ''v1''), broadcastWaveBlocks ''v1'' 0 1 [1]] (write_wave 1 1 sample_heap)
      (after_tick\<lparr>nn_tasks := (nn_tasks after_tick)(''v1'' := [] @ [])\<rparr>))"
    using wc by (intro net_process) simp_all
  with tick_run show ?thesis
    by (intro exI conjI, rule rtranclp.rtrancl_into_rtrancl) (auto simp: after_tick_def net_start_def)
qed

lemma receive_run:
  assumes "net_run H sample_validators F s" "(broadcastVote a 0 (forged_vote 1 h a), hpm) \<in> nn_sent s"
    and "a \<in> set sample_validators" "''v0'' \<notin> F"
    and "wc_validators (nn_node s ''v0'') = sample_validators"
  shows "\<exists>s'. net_run H sample_validators F s' \<and> nn_node s' ''v0'' = store_vote 1 (voter_key h a) (forged_vote 1 h a) (nn_node s ''v0'')
    \<and> nn_sent s' = nn_sent s \<and> nn_decided s' = nn_decided s"
proof -
  have "handleWaveMessage H hpm (\<lambda>_. 32) 0 (broadcastVote a 0 (forged_vote 1 h a)) (nn_node s ''v0'')
      = Inr (store_vote 1 (voter_key h a) (forged_vote 1 h a) (nn_node s ''v0''), [], [TaskCheckFinalization 1])"
    using assms(3,5) by (simp add: handleWaveMessage_def handleReceivedVote_def forged_vote_def)
  then have "net_step H sample_validators F s (put_node ''v0'' (store_vote 1 (voter_key h a) (forged_vote 1 h a) (nn_node s ''v0''))
      [TaskCheckFinalization 1] [] hpm s)"
    using assms(2,4) by (intro net_receive) simp_all
  with assms(1) have "net_run H sample_validators F (put_node ''v0'' (store_vote 1 (voter_key h a) (forged_vote 1 h a) (nn_node s ''v0''))
      [TaskCheckFinalization 1] [] hpm s)"
    by (rule rtranclp.rtrancl_into_rtrancl)
  then show ?thesis
    by (intro exI conjI) (assumption, simp_all)
qed

lemma decided_run:
  "\<exists>s. net_run flat_digest sample_validators {''v2''} s \<and> (''v0'', 1, replicate 8 7) \<in> nn_decided s"
proof -
  let ?run = "net_run flat_digest sample_validators {''v2''}" and ?h = "replicate 8 7 :: hash"
  let ?msg = "\<lambda>a. broadcastVote a 0 (forged_vote 1 ?h a)"
  obtain s hp where s: "?run s" "nn_node s ''v0'' = sample_node ''v0''" "(?msg ''v1'', hp) \<in> nn_sent s"
    using process_run by blast
  define t where "t = s\<lparr>nn_sent := insert (?msg ''v2'', hp) (nn_sent s)\<rparr>"
  have t: "?run t" "nn_node t ''v0'' = sample_node ''v0''" "(?msg ''v1'', hp) \<in> nn_sent t" "(?msg ''v2'', hp) \<in> nn_sent t"
  proof -
    have "net_step flat_digest sample_validators {''v2''} s t"
      unfolding t_def by (rule net_faulty) (auto simp: broadcastVote_def forged_vote_def)
    with s(1) show "?run t"
      by (rule rtranclp.rtrancl_into_rtrancl)
  qed (use s in \<open>simp_all add: t_def\<close>)
  obtain u where u: "?run u" "nn_node u ''v0'' = store_vote 1 (voter_key ?h ''v1'') (forged_vote 1 ?h ''v1'') (sample_node ''v0'')"
      "nn_sent u = nn_sent t"
    using receive_run[OF t(1,3)] t(2) by (auto simp: NewWaveConsensus_def)
  obtain x where x: "?run x" "nn_node x ''v0'' = sample_voted ''v0''"
    using receive_run[of flat_digest "{''v2''}" u "''v2''" ?h hp] u t(4)
    by (auto simp: sample_voted_def forged_store_def store_vote_def NewWaveConsensus_def)
  have long: "hashes_long flat_digest sample_heap"
    by (simp add: hashes_long_def vote_hash_def block_ComputeHash_def sample_key_def)
  have major: "wave_requiredVotes (length (wc_validators (sample_voted ''v0''))) \<le> card (commit_voters (sample_voted ''v0'') 1 ?h)"
    using sample_voted_majority[of "''v0''"] by (simp add: sample_voted_facts wave_requiredVotes_def)
  obtain wc where wc: "checkWaveFinalization flat_digest sample_heap (sample_ordv ''v0'') (sample_ordb ''v0'') [] [] 1 (nn_node x ''v0'') = Inr wc"
      "flag (wc_finalizedWaves wc) 1"
    using check_with_majority[OF sample_voted_facts(1) long sample_orders sample_voted_facts(3,4) major] x(2) by auto
  have "(''v0'', 1, ?h) \<in> check_decides ''v0'' 1 (nn_node x ''v0'') wc"
    using wc(2) major by (simp add: check_decides_def x(2) sample_voted_facts(1))
  moreover have "net_step flat_digest sample_validators {''v2''} x (put_node ''v0'' wc [] [] sample_heap
      (x\<lparr>nn_decided := nn_decided x \<union> check_decides ''v0'' 1 (nn_node x ''v0'') wc\<rparr>))"
    by (rule net_check[OF _ wc(1)]) simp
  ultimately show ?thesis
    using rtranclp.rtrancl_into_rtrancl[OF x(1)] by (intro exI conjI) (assumption, simp)
qed



theorem wave_network_conflict_witness:
  "\<exists>s :: wave_net. \<exists>a \<in> set sample_validators. (1, a, replicate 8 7) \<in> vt_cast (net_voting flat_digest sample_validators s)"
proof -
  obtain s where s: "net_run flat_digest sample_validators {''v2''} s" "(''v0'', 1, replicate 8 7) \<in> nn_decided s"
    using decided_run by blast
  from wave_network_conflict[OF s(1) _ _ s(2) s(2)] show ?thesis
    by auto
qed

end
