(* ===== verification/Account_State.thy ===== *)
theory Account_State
  imports Chain_Types
begin

text \<open>
  \<open>internal/state/state.go\<close>: accounts and their storage.  Accounts are held under one
  key each, so a write through the pointer is an update of the map; the only aliasing
  the code meets, sender and recipient being the same account, is the same key.
  The interface \<open>ledger\<close> is what a transfer promises; the state manager of
  \<open>manager.go\<close> is its second implementation.
\<close>

section \<open>State and operations\<close>

record account_state =
  as_accounts :: "(address, account) gomap"
  as_storage :: "(address, (string, byte list) gomap) gomap"

datatype state_error =
    ErrAccountNotFound
  | ErrAccountExists
  | ErrSenderNotFound
  | ErrInsufficientBalance
  | ErrInvalidNonce
  | ErrStorageKeyNotFound
  | ErrValidatorNotFound
  | ErrInvalidBalance

text \<open>\<open>&types.Account{Address: a, Balance: b, Nonce: n}\<close>.\<close>

definition plain_account :: "address \<Rightarrow> u64 \<Rightarrow> u64 \<Rightarrow> account" where
  "plain_account a b n = \<lparr>acc_address = a, acc_balance = b, acc_nonce = n, acc_code = [],
     acc_storage_root = [], acc_code_hash = []\<rparr>"

definition state_NewState :: account_state where
  "state_NewState = \<lparr>as_accounts = [], as_storage = []\<rparr>"

definition state_GetAccount :: "account_state \<Rightarrow> address \<Rightarrow> state_error + account" where
  "state_GetAccount s a = (case gget (as_accounts s) a of None \<Rightarrow> Inl ErrAccountNotFound | Some acc \<Rightarrow> Inr acc)"

definition state_SetAccount :: "address \<Rightarrow> account \<Rightarrow> account_state \<Rightarrow> account_state" where
  "state_SetAccount a acc s = s\<lparr>as_accounts := gput a acc (as_accounts s),
     as_storage := (if ghas (as_storage s) a then as_storage s else gput a [] (as_storage s))\<rparr>"

definition state_UpdateAccount :: "address \<Rightarrow> account \<Rightarrow> account_state \<Rightarrow> state_error + account_state" where
  "state_UpdateAccount a acc s =
     (if ghas (as_accounts s) a then Inr (s\<lparr>as_accounts := gput a acc (as_accounts s)\<rparr>) else Inl ErrAccountNotFound)"

text \<open>\<open>BatchUpdateBalances\<close>: the updates visited before a missing account stay in force.\<close>

fun batch_balances ::
  "(address \<times> u64) list \<Rightarrow> (address, account) gomap \<Rightarrow> (address, account) gomap \<times> state_error option" where
  "batch_balances [] m = (m, None)"
| "batch_balances ((a, b) # us) m = (case gget m a of
     None \<Rightarrow> (m, Some ErrAccountNotFound)
   | Some acc \<Rightarrow> batch_balances us (gput a (acc\<lparr>acc_balance := b\<rparr>) m))"

definition BatchUpdateBalances ::
  "address list \<Rightarrow> (address, u64) gomap \<Rightarrow> account_state \<Rightarrow> account_state \<times> state_error option" where
  "BatchUpdateBalances ord updates s =
     (let (m, e) = batch_balances (range_items ord updates) (as_accounts s) in (s\<lparr>as_accounts := m\<rparr>, e))"

definition state_SetStorage ::
  "byte list \<Rightarrow> byte list \<Rightarrow> byte list \<Rightarrow> account_state \<Rightarrow> state_error + account_state" where
  "state_SetStorage address key val s =
     (let a = string_of_bytes address
      in if \<not> ghas (as_accounts s) a then Inl ErrAccountNotFound
         else Inr (s\<lparr>as_storage := gput a (gput (string_of_bytes key) val (slice_at (as_storage s) a)) (as_storage s)\<rparr>))"

definition state_GetStorage :: "account_state \<Rightarrow> byte list \<Rightarrow> byte list \<Rightarrow> state_error + byte list" where
  "state_GetStorage s address key =
     (let a = string_of_bytes address
      in if \<not> ghas (as_accounts s) a then Inl ErrAccountNotFound
         else case gget (slice_at (as_storage s) a) (string_of_bytes key) of
                None \<Rightarrow> Inl ErrStorageKeyNotFound
              | Some v \<Rightarrow> Inr v)"

definition state_ExecuteTransaction :: "transaction \<Rightarrow> account_state \<Rightarrow> state_error + account_state" where
  "state_ExecuteTransaction tx s =
     (case gget (as_accounts s) (tx_from tx) of
        None \<Rightarrow> Inl ErrSenderNotFound
      | Some sender \<Rightarrow>
          if acc_balance sender < tx_value tx then Inl ErrInsufficientBalance
          else if acc_nonce sender \<noteq> tx_nonce tx then Inl ErrInvalidNonce
          else
            let s1 = (if ghas (as_accounts s) (tx_to tx) then s
                      else s\<lparr>as_accounts := gput (tx_to tx) (plain_account (tx_to tx) 0 0) (as_accounts s),
                             as_storage := gput (tx_to tx) [] (as_storage s)\<rparr>);
                m1 = gput (tx_from tx) (sender\<lparr>acc_balance := acc_balance sender - tx_value tx\<rparr>) (as_accounts s1);
                m2 = (case gget m1 (tx_to tx) of
                        None \<Rightarrow> m1
                      | Some r \<Rightarrow> gput (tx_to tx) (r\<lparr>acc_balance := acc_balance r + tx_value tx\<rparr>) m1);
                m3 = (case gget m2 (tx_from tx) of
                        None \<Rightarrow> m2
                      | Some f \<Rightarrow> gput (tx_from tx) (f\<lparr>acc_nonce := acc_nonce f + 1\<rparr>) m2)
            in Inr (s1\<lparr>as_accounts := m3\<rparr>))"

definition state_Copy :: "account_state \<Rightarrow> account_state" where
  "state_Copy s = \<lparr>as_accounts = gmap_vals (\<lambda>a. plain_account (acc_address a) (acc_balance a) (acc_nonce a)) (as_accounts s),
     as_storage = as_storage s\<rparr>"

definition state_CreateAccount :: "byte list \<Rightarrow> u64 \<Rightarrow> account_state \<Rightarrow> state_error + account_state" where
  "state_CreateAccount address balance s =
     (let a = string_of_bytes address
      in if ghas (as_accounts s) a then Inl ErrAccountExists
         else Inr (s\<lparr>as_accounts := gput a (plain_account a balance 0) (as_accounts s),
                     as_storage := gput a [] (as_storage s)\<rparr>))"

definition state_UpdateBalance :: "byte list \<Rightarrow> u64 \<Rightarrow> account_state \<Rightarrow> state_error + account_state" where
  "state_UpdateBalance address balance s =
     (let a = string_of_bytes address
      in case gget (as_accounts s) a of
           None \<Rightarrow> Inl ErrAccountNotFound
         | Some acc \<Rightarrow> Inr (s\<lparr>as_accounts := gput a (acc\<lparr>acc_balance := balance\<rparr>) (as_accounts s)\<rparr>))"

definition state_UpdateNonce :: "byte list \<Rightarrow> u64 \<Rightarrow> account_state \<Rightarrow> state_error + account_state" where
  "state_UpdateNonce address nonce s =
     (let a = string_of_bytes address
      in case gget (as_accounts s) a of
           None \<Rightarrow> Inl ErrAccountNotFound
         | Some acc \<Rightarrow> Inr (s\<lparr>as_accounts := gput a (acc\<lparr>acc_nonce := nonce\<rparr>) (as_accounts s)\<rparr>))"

text \<open>\<open>SetCode\<close> writes \<open>storage[addr]["code"]\<close> without creating the inner map.\<close>

definition state_SetCode ::
  "byte list \<Rightarrow> byte list \<Rightarrow> account_state \<Rightarrow> go_panic + (state_error + account_state)" where
  "state_SetCode address code s =
     (let a = string_of_bytes address
      in if \<not> ghas (as_accounts s) a then Inr (Inl ErrAccountNotFound)
         else case gget (as_storage s) a of
                None \<Rightarrow> Inl NilMapWrite
              | Some st \<Rightarrow> Inr (Inr (s\<lparr>as_storage := gput a (gput ''code'' code st) (as_storage s)\<rparr>)))"

definition state_GetCode :: "account_state \<Rightarrow> byte list \<Rightarrow> state_error + byte list" where
  "state_GetCode s address =
     (let a = string_of_bytes address
      in if \<not> ghas (as_accounts s) a then Inl ErrAccountNotFound
         else Inr (slice_at (slice_at (as_storage s) a) ''code''))"

definition state_Equal :: "account_state \<Rightarrow> account_state \<Rightarrow> bool" where
  "state_Equal s other =
     (glen (as_accounts s) = glen (as_accounts other) \<and>
      list_all (\<lambda>(a, acc). case gget (as_accounts other) a of
         None \<Rightarrow> False
       | Some o1 \<Rightarrow> acc_balance acc = acc_balance o1 \<and> acc_nonce acc = acc_nonce o1) (as_accounts s))"

section \<open>Balances\<close>

definition balance_of :: "(address, account) gomap \<Rightarrow> address \<Rightarrow> u64" where
  "balance_of m a = (case gget m a of None \<Rightarrow> 0 | Some acc \<Rightarrow> acc_balance acc)"

definition nonce_of :: "(address, account) gomap \<Rightarrow> address \<Rightarrow> u64" where
  "nonce_of m a = (case gget m a of None \<Rightarrow> 0 | Some acc \<Rightarrow> acc_nonce acc)"

text \<open>The total total_supply, as a number.\<close>

definition total_supply :: "(address, account) gomap \<Rightarrow> nat" where
  "total_supply m = (\<Sum>a \<in> gkeys m. unat (balance_of m a))"

text \<open>The abstract effect of a transfer of \<open>v\<close> on balances.\<close>

definition moved :: "address \<Rightarrow> address \<Rightarrow> u64 \<Rightarrow> (address \<Rightarrow> u64) \<Rightarrow> address \<Rightarrow> u64" where
  "moved f t v bal = (let bal1 = bal(f := bal f - v) in bal1(t := bal1 t + v))"

section \<open>The ledger interface\<close>

text \<open>The abstract ledger: balance and nonce per address.  A transfer needs a sender that
  exists, has the value and has the nonce of the transaction; it creates the recipient.\<close>

type_synonym ledger_map = "address \<rightharpoonup> u64 \<times> u64"

definition ledger_view :: "(address, account) gomap \<Rightarrow> ledger_map" where
  "ledger_view m a = map_option (\<lambda>acc. (acc_balance acc, acc_nonce acc)) (gget m a)"

definition credit :: "address \<Rightarrow> u64 \<Rightarrow> ledger_map \<Rightarrow> ledger_map" where
  "credit t v l = (case l t of None \<Rightarrow> l(t \<mapsto> (v, 0)) | Some (b, n) \<Rightarrow> l(t \<mapsto> (b + v, n)))"

definition transfer_spec :: "transaction \<Rightarrow> ledger_map \<Rightarrow> ledger_map option" where
  "transfer_spec tx l = (case l (tx_from tx) of
     None \<Rightarrow> None
   | Some (b, n) \<Rightarrow>
       if b < tx_value tx \<or> n \<noteq> tx_nonce tx then None
       else Some (credit (tx_to tx) (tx_value tx) (l(tx_from tx \<mapsto> (b - tx_value tx, n + 1)))))"

lemma ledger_view_Nil [simp]: "ledger_view [] = Map.empty"
  by (simp add: ledger_view_def fun_eq_iff)

lemma ledger_view_gput [simp]: "ledger_view (gput a acc m) = (ledger_view m)(a \<mapsto> (acc_balance acc, acc_nonce acc))"
  by (simp add: ledger_view_def fun_eq_iff)

lemma gkeys_view: "gkeys m = dom (ledger_view m)"
  by (auto simp: gkeys_iff ledger_view_def)

lemma balance_of_view: "balance_of m a = (case ledger_view m a of None \<Rightarrow> 0 | Some (b, n) \<Rightarrow> b)"
  by (simp add: balance_of_def ledger_view_def split: option.split)

lemma nonce_of_view: "nonce_of m a = (case ledger_view m a of None \<Rightarrow> 0 | Some (b, n) \<Rightarrow> n)"
  by (simp add: nonce_of_def ledger_view_def split: option.split)

lemmas view_simps = gkeys_view balance_of_view nonce_of_view

locale ledger =
  fixes accts :: "'s \<Rightarrow> (address, account) gomap"
    and exec :: "transaction \<Rightarrow> 's \<Rightarrow> state_error + 's"
  assumes exec_wf: "gwf (accts s) \<Longrightarrow> exec tx s = Inr s' \<Longrightarrow> gwf (accts s')"
    and exec_refines: "(case exec tx s of Inl _ \<Rightarrow> None | Inr s' \<Rightarrow> Some (ledger_view (accts s')))
      = transfer_spec tx (ledger_view (accts s))"
begin

lemma exec_InrD: "exec tx s = Inr s' \<Longrightarrow> transfer_spec tx (ledger_view (accts s)) = Some (ledger_view (accts s'))"
  using exec_refines [of tx s] by simp

lemma exec_ok:
  assumes wf: "gwf (accts s)" and ok: "exec tx s = Inr s'"
  shows "gwf (accts s') \<and> gkeys (accts s') = insert (tx_to tx) (gkeys (accts s))
      \<and> tx_from tx \<in> gkeys (accts s)
      \<and> tx_value tx \<le> balance_of (accts s) (tx_from tx) \<and> nonce_of (accts s) (tx_from tx) = tx_nonce tx
      \<and> balance_of (accts s') = moved (tx_from tx) (tx_to tx) (tx_value tx) (balance_of (accts s))
      \<and> nonce_of (accts s') = (nonce_of (accts s))(tx_from tx := tx_nonce tx + 1)"
proof -
  let ?l = "ledger_view (accts s)"
  obtain b n where sender: "?l (tx_from tx) = Some (b, n)" "\<not> b < tx_value tx" "n = tx_nonce tx"
    and l': "ledger_view (accts s') = credit (tx_to tx) (tx_value tx) (?l(tx_from tx \<mapsto> (b - tx_value tx, n + 1)))"
    using exec_InrD [OF ok] by (auto simp: transfer_spec_def split: option.splits if_splits)
  have "gkeys (accts s') = insert (tx_to tx) (gkeys (accts s))" "tx_from tx \<in> gkeys (accts s)"
    using sender l' by (auto simp: gkeys_view credit_def split: option.splits if_splits)
  moreover have "tx_value tx \<le> balance_of (accts s) (tx_from tx)" "nonce_of (accts s) (tx_from tx) = tx_nonce tx"
    using sender by (simp_all add: view_simps)
  moreover have "balance_of (accts s') = moved (tx_from tx) (tx_to tx) (tx_value tx) (balance_of (accts s))"
    using sender l' by (auto simp: balance_of_view credit_def moved_def fun_eq_iff split: option.splits)
  moreover have "nonce_of (accts s') = (nonce_of (accts s))(tx_from tx := tx_nonce tx + 1)"
    using sender l' by (auto simp: nonce_of_view credit_def fun_eq_iff split: option.splits)
  ultimately show ?thesis
    using exec_wf [OF wf ok] by blast
qed

fun exec_all :: "transaction list \<Rightarrow> 's \<Rightarrow> state_error + 's" where
  "exec_all [] s = Inr s"
| "exec_all (tx # txs) s = (case exec tx s of Inl e \<Rightarrow> Inl e | Inr s1 \<Rightarrow> exec_all txs s1)"

lemma balance_absent: "a \<notin> gkeys m \<Longrightarrow> balance_of m a = 0"
  by (simp add: balance_of_def gkeys_iff)

lemma exec_conserves:
  assumes wf: "gwf (accts s)" and ok: "exec tx s = Inr s'" and bound: "total_supply (accts s) < 2 ^ 64"
  shows "total_supply (accts s') = total_supply (accts s)"
proof -
  let ?m = "accts s" and ?m' = "accts s'" and ?f = "tx_from tx" and ?t = "tx_to tx" and ?v = "tx_value tx"
  let ?K = "insert ?t (gkeys ?m)"
  note e = exec_ok [OF wf ok]
  have sum0: "total_supply ?m = (\<Sum>a \<in> ?K. unat (balance_of ?m a))"
    unfolding total_supply_def using balance_absent [of ?t ?m] by (cases "?t \<in> gkeys ?m") (simp_all add: insert_absorb)
  have sum1: "total_supply ?m' = (\<Sum>a \<in> ?K. unat (balance_of ?m' a))"
    unfolding total_supply_def using e by simp
  show ?thesis
  proof (cases "?f = ?t")
    case True
    then have "balance_of ?m' = balance_of ?m"
      using e by (auto simp: moved_def)
    then show ?thesis
      using sum0 sum1 by simp
  next
    case False
    have split: "sum g ?K = g ?f + (g ?t + sum g (?K - {?f, ?t}))" for g :: "address \<Rightarrow> nat"
    proof -
      have "sum g ?K = g ?f + sum g (?K - {?f})"
        using e by (intro sum.remove) auto
      also have "sum g (?K - {?f}) = g ?t + sum g (?K - {?f} - {?t})"
        using False by (intro sum.remove) auto
      finally show ?thesis
        by (simp add: Diff_insert2 [symmetric] insert_commute)
    qed
    have rest: "(\<Sum>a \<in> ?K - {?f, ?t}. unat (balance_of ?m' a)) = (\<Sum>a \<in> ?K - {?f, ?t}. unat (balance_of ?m a))"
      using e by (intro sum.cong) (auto simp: moved_def Let_def)
    have val: "unat ?v \<le> unat (balance_of ?m ?f)"
      using e by (simp add: word_le_nat_alt)
    have "unat (balance_of ?m ?f) + unat (balance_of ?m ?t) < 2 ^ 64"
      using bound sum0 split [of "\<lambda>a. unat (balance_of ?m a)"] by linarith
    then have "unat (balance_of ?m' ?t) = unat (balance_of ?m ?t) + unat ?v"
      using e False val by (simp add: moved_def Let_def unat_add_u64)
    moreover have "unat (balance_of ?m' ?f) = unat (balance_of ?m ?f) - unat ?v"
      using e False val by (simp add: moved_def Let_def unat_sub_u64)
    ultimately show ?thesis
      using sum0 sum1 split [of "\<lambda>a. unat (balance_of ?m a)"] split [of "\<lambda>a. unat (balance_of ?m' a)"] rest val
      by linarith
  qed
qed

lemma exec_all_conserves:
  "gwf (accts s) \<Longrightarrow> exec_all txs s = Inr s' \<Longrightarrow> total_supply (accts s) < 2 ^ 64 \<Longrightarrow>
     gwf (accts s') \<and> total_supply (accts s') = total_supply (accts s)"
proof (induction txs arbitrary: s)
  case (Cons tx txs)
  then obtain s1 where "exec tx s = Inr s1" "exec_all txs s1 = Inr s'"
    by (auto split: sum.splits)
  then show ?case
    using Cons exec_conserves exec_ok by metis
qed simp

lemma exec_all_nonce:
  "gwf (accts s) \<Longrightarrow> exec_all txs s = Inr s' \<Longrightarrow>
     gwf (accts s') \<and>
     nonce_of (accts s') a = nonce_of (accts s) a + word_of_nat (length (filter (\<lambda>tx. tx_from tx = a) txs))"
proof (induction txs arbitrary: s)
  case (Cons tx txs)
  then obtain s1 where s1: "exec tx s = Inr s1" "exec_all txs s1 = Inr s'"
    by (auto split: sum.splits)
  note e = exec_ok [OF Cons.prems(1) s1(1)]
  have "nonce_of (accts s1) a = nonce_of (accts s) a + (if tx_from tx = a then 1 else 0)"
    using e by auto
  then show ?case
    using Cons.IH [OF _ s1(2)] e by auto
qed simp

text \<open>The nonces of one sender run on without gap from the nonce of its account.\<close>

lemma exec_all_consecutive:
  "gwf (accts s) \<Longrightarrow> exec_all txs s = Inr s' \<Longrightarrow>
     map tx_nonce (filter (\<lambda>tx. tx_from tx = a) txs) =
     map (\<lambda>i. nonce_of (accts s) a + word_of_nat i) [0..<length (filter (\<lambda>tx. tx_from tx = a) txs)]"
proof (induction txs arbitrary: s)
  case (Cons tx txs)
  then obtain s1 where s1: "exec tx s = Inr s1" "exec_all txs s1 = Inr s'"
    by (auto split: sum.splits)
  note e = exec_ok [OF Cons.prems(1) s1(1)]
  note IH = Cons.IH [OF conjunct1 [OF e] s1(2)]
  show ?case
  proof (cases "tx_from tx = a")
    case True
    have "nonce_of (accts s1) a + word_of_nat i = nonce_of (accts s) a + word_of_nat (Suc i)" for i
      using e True by (simp add: add.assoc)
    then show ?thesis
      using IH True e by (simp del: upt_Suc add: upt_conv_Cons map_Suc_upt [symmetric] comp_def)
  qed (use IH e in simp)
qed simp

lemma no_replay:
  assumes wf: "gwf (accts s)" and ok: "exec tx s = Inr s1" and rest: "exec_all txs s1 = Inr s2"
    and len: "Suc (length txs) < 2 ^ 64"
  shows "exec tx s2 \<noteq> Inr s3"
proof
  assume again: "exec tx s2 = Inr s3"
  let ?k = "length (filter (\<lambda>t. tx_from t = tx_from tx) txs)"
  note e = exec_ok [OF wf ok]
  have "gwf (accts s2)" "nonce_of (accts s2) (tx_from tx) = tx_nonce tx + 1 + word_of_nat ?k"
    using exec_all_nonce [OF _ rest, of "tx_from tx"] e by auto
  then have "word_of_nat (Suc ?k) = (0 :: u64)"
    using exec_ok [OF _ again] by (simp add: add.assoc)
  then have "unat (word_of_nat (Suc ?k) :: u64) = 0"
    by simp
  moreover have "Suc ?k < 2 ^ 64"
    by (rule le_less_trans [OF _ len]) simp
  ultimately show False
    by (simp only: unat_of_nat_u64)
qed

end

section \<open>\<open>State\<close> as a ledger\<close>

lemma state_exec_wf:
  "gwf (as_accounts s) \<Longrightarrow> state_ExecuteTransaction tx s = Inr s' \<Longrightarrow> gwf (as_accounts s')"
  by (auto simp: state_ExecuteTransaction_def Let_def split: option.splits if_splits)

lemma state_exec_refines:
  "(case state_ExecuteTransaction tx s of Inl _ \<Rightarrow> None | Inr s' \<Rightarrow> Some (ledger_view (as_accounts s')))
     = transfer_spec tx (ledger_view (as_accounts s))"
proof (cases "gget (as_accounts s) (tx_from tx)")
  case (Some f)
  have v: "ledger_view (as_accounts s) (tx_from tx) = Some (acc_balance f, acc_nonce f)"
    by (simp add: ledger_view_def Some)
  have t: "ledger_view (as_accounts s) (tx_to tx) = None \<longleftrightarrow> gget (as_accounts s) (tx_to tx) = None"
    by (simp add: ledger_view_def)
  show ?thesis
    using Some v t
    by (auto simp: state_ExecuteTransaction_def transfer_spec_def credit_def plain_account_def ghas_def
        ledger_view_def fun_eq_iff Let_def split: option.split)
qed (simp add: state_ExecuteTransaction_def transfer_spec_def ledger_view_def)

interpretation state_ledger: ledger as_accounts state_ExecuteTransaction
  by unfold_locales (erule (1) state_exec_wf, rule state_exec_refines)

section \<open>The invariant of \<open>State\<close>\<close>

text \<open>Every account has an inner storage map: the write of \<open>SetCode\<close> relies on it.\<close>

definition state_inv :: "account_state \<Rightarrow> bool" where
  "state_inv s = (gwf (as_accounts s) \<and> gwf (as_storage s) \<and> gkeys (as_accounts s) \<subseteq> gkeys (as_storage s))"

inductive state_reachable :: "account_state \<Rightarrow> bool" where
  init: "state_reachable state_NewState"
| set_account: "state_reachable s \<Longrightarrow> state_reachable (state_SetAccount a acc s)"
| update_account: "state_reachable s \<Longrightarrow> state_UpdateAccount a acc s = Inr s' \<Longrightarrow> state_reachable s'"
| batch: "state_reachable s \<Longrightarrow> state_reachable (fst (BatchUpdateBalances ord updates s))"
| set_storage: "state_reachable s \<Longrightarrow> state_SetStorage addr key val s = Inr s' \<Longrightarrow> state_reachable s'"
| execute: "state_reachable s \<Longrightarrow> state_ExecuteTransaction tx s = Inr s' \<Longrightarrow> state_reachable s'"
| copy: "state_reachable s \<Longrightarrow> state_reachable (state_Copy s)"
| create: "state_reachable s \<Longrightarrow> state_CreateAccount addr bal s = Inr s' \<Longrightarrow> state_reachable s'"
| update_balance: "state_reachable s \<Longrightarrow> state_UpdateBalance addr bal s = Inr s' \<Longrightarrow> state_reachable s'"
| update_nonce: "state_reachable s \<Longrightarrow> state_UpdateNonce addr n s = Inr s' \<Longrightarrow> state_reachable s'"
| set_code: "state_reachable s \<Longrightarrow> state_SetCode addr code s = Inr (Inr s') \<Longrightarrow> state_reachable s'"

lemmas state_op_defs = state_SetAccount_def state_UpdateAccount_def state_SetStorage_def state_Copy_def
  state_CreateAccount_def state_UpdateBalance_def state_UpdateNonce_def state_SetCode_def state_NewState_def

lemma gget_in_gkeys: "gget m k = Some v \<Longrightarrow> k \<in> gkeys m"
  by (simp add: gkeys_iff)

lemma gkeys_subsetD: "gkeys m \<subseteq> gkeys n \<Longrightarrow> gget m k = Some v \<Longrightarrow> \<exists>w. gget n k = Some w"
  by (meson gget_in_gkeys gkeys_iff not_None_eq subsetD)

lemma batch_balances_inv:
  "gwf m \<Longrightarrow> gwf (fst (batch_balances us m)) \<and> gkeys (fst (batch_balances us m)) = gkeys m"
proof (induction us m rule: batch_balances.induct)
  case (2 a b us m)
  then show ?case
    by (cases "gget m a") (auto simp: gkeys_iff)
qed simp

lemma state_exec_storage:
  "gwf (as_storage s) \<Longrightarrow> state_ExecuteTransaction tx s = Inr s' \<Longrightarrow>
     gwf (as_storage s') \<and> gkeys (as_storage s') =
       (if tx_to tx \<in> gkeys (as_accounts s) then gkeys (as_storage s) else insert (tx_to tx) (gkeys (as_storage s)))"
  by (auto simp: state_ExecuteTransaction_def Let_def ghas_gkeys split: option.splits if_splits)

lemma state_reachable_inv: "state_reachable s \<Longrightarrow> state_inv s"
proof (induction rule: state_reachable.induct)
  case (batch s ord updates)
  then show ?case
    using batch_balances_inv [of "as_accounts s" "range_items ord updates"]
    by (simp add: state_inv_def BatchUpdateBalances_def case_prod_beta)
next
  case (execute s tx s')
  then show ?case
    using state_exec_storage [of s tx s'] state_ledger.exec_ok [of s tx s']
    by (auto simp: state_inv_def split: if_splits)
qed (auto simp: state_inv_def state_op_defs Let_def ghas_gkeys split: option.splits if_splits, (blast dest: gget_in_gkeys)+)

section \<open>Batches and copies\<close>

text \<open>A batch that meets no missing account sets every balance it names; one that fails has set
  some of them.\<close>

lemma balance_of_gput [simp]: "balance_of (gput k acc m) a = (if a = k then acc_balance acc else balance_of m a)"
  by (simp add: balance_of_def)

lemma batch_balances_error:
  "snd (batch_balances us m) = None \<longleftrightarrow> fst ` set us \<subseteq> gkeys m"
proof (induction us m rule: batch_balances.induct)
  case (2 a b us m)
  then show ?case
    by (cases "gget m a") (auto simp: gkeys_iff)
qed simp

lemma batch_balances_values:
  "distinct (map fst us) \<Longrightarrow> balance_of (fst (batch_balances us m)) a \<in>
     insert (balance_of m a) (set_option (map_of us a))"
proof (induction us m rule: batch_balances.induct)
  case (2 k b us m)
  have "k \<notin> fst ` set us"
    using "2.prems" by simp
  then have "map_of us k = None"
    by (simp add: map_of_eq_None_iff)
  then show ?case
    using 2 by (cases "gget m k") (auto split: if_splits)
qed simp

lemma batch_balances_all:
  "distinct (map fst us) \<Longrightarrow> snd (batch_balances us m) = None \<Longrightarrow> map_of us a = Some b \<Longrightarrow>
     balance_of (fst (batch_balances us m)) a = b"
proof (induction us m rule: batch_balances.induct)
  case (2 k c us m)
  then obtain acc where k: "gget m k = Some acc"
    by (cases "gget m k") auto
  show ?case
  proof (cases "a = k")
    case True
    then have "map_of us a = None"
      using 2 by (simp add: map_of_eq_None_iff)
    then show ?thesis
      using batch_balances_values [of us "gput k (acc\<lparr>acc_balance := c\<rparr>) m" a] 2 k True
      by simp
  qed (use 2 k in simp)
qed simp

definition copy_account :: "account \<Rightarrow> account" where
  "copy_account a = plain_account (acc_address a) (acc_balance a) (acc_nonce a)"

lemma copy_account_simps [simp]:
  "acc_balance (copy_account a) = acc_balance a" "acc_nonce (copy_account a) = acc_nonce a"
  "copy_account (plain_account x b n) = plain_account x b n"
  "copy_account (a\<lparr>acc_balance := b\<rparr>) = (copy_account a)\<lparr>acc_balance := b\<rparr>"
  "copy_account (a\<lparr>acc_nonce := n\<rparr>) = (copy_account a)\<lparr>acc_nonce := n\<rparr>"
  "(copy_account a)\<lparr>acc_balance := acc_balance a\<rparr> = copy_account a"
  by (simp_all add: copy_account_def plain_account_def)

lemma state_Copy_alt: "state_Copy s = \<lparr>as_accounts = gmap_vals copy_account (as_accounts s), as_storage = as_storage s\<rparr>"
  by (simp add: state_Copy_def copy_account_def [abs_def])

lemma gmap_vals_gput: "gmap_vals f (gput k v m) = gput k (f v) (gmap_vals f m)"
  by (induction m) (auto simp: gmap_vals_def gput_def)

section \<open>Properties\<close>

text \<open>In every state the operations of \<open>State\<close> can reach, \<open>SetCode\<close> never writes to a nil
  map: it fails exactly when the account is missing, and afterwards \<open>GetCode\<close> returns the
  code that was set, other accounts keep theirs and so do all storage keys but \<open>code\<close>.\<close>

theorem SetCode_GetCode:
  assumes "state_reachable s"
  shows "\<exists>r. state_SetCode addr code s = Inr r \<and>
    (case r of Inl e \<Rightarrow> e = ErrAccountNotFound \<and> state_GetAccount s (string_of_bytes addr) = Inl ErrAccountNotFound
     | Inr s' \<Rightarrow> state_GetCode s' addr = Inr code
         \<and> (\<forall>addr'. string_of_bytes addr' \<noteq> string_of_bytes addr \<longrightarrow> state_GetCode s' addr' = state_GetCode s addr')
         \<and> (\<forall>key. string_of_bytes key \<noteq> ''code'' \<longrightarrow> state_GetStorage s' addr key = state_GetStorage s addr key))"
proof -
  let ?a = "string_of_bytes addr"
  have inv: "gkeys (as_accounts s) \<subseteq> gkeys (as_storage s)"
    using state_reachable_inv [OF assms] by (simp add: state_inv_def)
  show ?thesis
  proof (cases "gget (as_accounts s) ?a")
    case (Some acc)
    then obtain st where "gget (as_storage s) ?a = Some st"
      using gkeys_subsetD [OF inv] by blast
    then show ?thesis
      using Some by (simp add: state_SetCode_def state_GetCode_def state_GetStorage_def ghas_def Let_def
          slice_at_def split: option.split)
  qed (simp add: state_SetCode_def state_GetAccount_def ghas_def Let_def)
qed

text \<open>A sample state: one funded account.\<close>

definition sample_transfer :: "address \<Rightarrow> address \<Rightarrow> u64 \<Rightarrow> u64 \<Rightarrow> transaction" where
  "sample_transfer f t v n = \<lparr>tx_nonce = n, tx_from = f, tx_to = t, tx_value = v, tx_gas_limit = 0,
     tx_gas_price = 0, tx_data = [], tx_signature = sample_signature, tx_time = 0,
     tx_state = TransactionStatePending, tx_hash = None\<rparr>"

definition sample_accounts :: "(address, account) gomap" where
  "sample_accounts = [(''alice'', plain_account ''alice'' 10 0)]"

definition sample_state :: account_state where
  "sample_state = \<lparr>as_accounts = sample_accounts, as_storage = [(''alice'', [])]\<rparr>"

lemma sample_state_created: "state_CreateAccount (bytes_of ''alice'') 10 state_NewState = Inr sample_state"
  by (simp only: state_CreateAccount_def string_of_bytes_of Let_def)
    (simp add: sample_state_def sample_accounts_def state_NewState_def ghas_def gput_def)

lemma sample_state_reachable: "state_reachable sample_state"
  using state_reachable.create [OF state_reachable.init sample_state_created] .

lemma gwf_sample_accounts: "gwf sample_accounts"
  by (simp add: gwf_def sample_accounts_def)

lemma total_supply_sample: "total_supply sample_accounts = 10"
  by (simp add: total_supply_def sample_accounts_def balance_of_def plain_account_def gkeys_def gget_def)

theorem SetCode_GetCode_witness:
  "\<exists>r. state_SetCode (bytes_of ''alice'') [1, 2] sample_state = Inr r"
  using SetCode_GetCode [OF sample_state_reachable] by blast

text \<open>(C7) A transfer neither creates nor destroys money: as long as the total supply is below
  \<open>2 ^ 64\<close>, a successful \<open>ExecuteTransaction\<close> of \<open>State\<close> keeps the total of all balances,
  also when sender and recipient are the same account and when the recipient is created.\<close>

theorem state_transfer_conserves:
  assumes "state_reachable s" "total_supply (as_accounts s) < 2 ^ 64" "state_ExecuteTransaction tx s = Inr s'"
  shows "total_supply (as_accounts s') = total_supply (as_accounts s)"
  using assms state_ledger.exec_conserves state_reachable_inv by (simp add: state_inv_def)

theorem state_transfer_conserves_witness:
  "\<exists>s'. state_ExecuteTransaction (sample_transfer ''alice'' ''bob'' 4 0) sample_state = Inr s' \<and>
     total_supply (as_accounts s') = 10"
proof -
  have "isl (state_ExecuteTransaction (sample_transfer ''alice'' ''bob'' 4 0) sample_state) = False"
    by (simp add: state_ExecuteTransaction_def sample_transfer_def sample_state_def sample_accounts_def
        plain_account_def gget_def ghas_def Let_def)
  then obtain s' where s': "state_ExecuteTransaction (sample_transfer ''alice'' ''bob'' 4 0) sample_state = Inr s'"
    by (cases "state_ExecuteTransaction (sample_transfer ''alice'' ''bob'' 4 0) sample_state") auto
  have sup: "total_supply (as_accounts sample_state) = 10"
    using total_supply_sample by (simp add: sample_state_def)
  show ?thesis
    using state_transfer_conserves [OF sample_state_reachable _ s'] s' sup by simp
qed

text \<open>\<open>Copy\<close> simulates: the copy is \<open>Equal\<close> to the original, a transaction gives the same
  error on both, or the result on the copy is the copy of the result; storage reads agree.
  What is lost is not looked at by any of them: the copied account has no code, storage root
  and code hash.\<close>

theorem state_Copy_simulates:
  assumes "state_reachable s"
  shows "state_Equal (state_Copy s) s
    \<and> state_ExecuteTransaction tx (state_Copy s) = map_sum id state_Copy (state_ExecuteTransaction tx s)
    \<and> state_GetStorage (state_Copy s) addr key = state_GetStorage s addr key
    \<and> (\<forall>a acc. state_GetAccount s a = Inr acc \<longrightarrow>
         state_GetAccount (state_Copy s) a = Inr (acc\<lparr>acc_code := [], acc_storage_root := [], acc_code_hash := []\<rparr>))"
proof (intro conjI allI impI)
  have wf: "gwf (as_accounts s)"
    using state_reachable_inv [OF assms] by (simp add: state_inv_def)
  have "case gget (as_accounts s) a of None \<Rightarrow> False
      | Some o1 \<Rightarrow> acc_balance (copy_account acc) = acc_balance o1 \<and> acc_nonce (copy_account acc) = acc_nonce o1"
    if "(a, acc) \<in> set (as_accounts s)" for a acc
    using that wf by (simp add: gget_set [symmetric])
  then show "state_Equal (state_Copy s) s"
    unfolding state_Equal_def state_Copy_alt list_all_iff by (auto simp: gmap_vals_def glen_def)
  show "state_ExecuteTransaction tx (state_Copy s) = map_sum id state_Copy (state_ExecuteTransaction tx s)"
    by (simp add: state_ExecuteTransaction_def state_Copy_alt ghas_def Let_def gmap_vals_gput split: option.split)
  show "state_GetStorage (state_Copy s) addr key = state_GetStorage s addr key"
    by (simp add: state_GetStorage_def state_Copy_alt ghas_def Let_def split: option.split)
  show "state_GetAccount (state_Copy s) a = Inr (acc\<lparr>acc_code := [], acc_storage_root := [], acc_code_hash := []\<rparr>)"
    if "state_GetAccount s a = Inr acc" for a acc
    using that by (auto simp: state_GetAccount_def state_Copy_alt copy_account_def plain_account_def split: option.splits)
qed

theorem state_Copy_simulates_witness: "state_Equal (state_Copy sample_state) sample_state"
  using state_Copy_simulates [OF sample_state_reachable] by blast

end
