(* ===== verification/State_Manager.thy ===== *)
theory State_Manager
  imports Account_State
begin

text \<open>
  \<open>internal/state/manager.go\<close>: accounts and validators of a node, and the commit of a
  block.  \<open>CommitBlock\<close> runs the transactions in order and returns at the first error
  with the effects of the earlier ones in place; the model therefore returns the state
  together with the error.  The files under \<open>baseDir\<close> are the argument \<open>fs\<close> of
  \<open>GetAllBlocks\<close>.
\<close>

section \<open>State and operations\<close>

record state_manager =
  sm_accounts :: "(address, account) gomap"
  sm_validators :: "address list"
  sm_node_id :: string
  sm_base_dir :: string

definition NewStateManager :: state_manager where
  "NewStateManager = \<lparr>sm_accounts = [], sm_validators = [], sm_node_id = [], sm_base_dir = []\<rparr>"

definition mgr_GetAccount :: "state_manager \<Rightarrow> address \<Rightarrow> state_error + account" where
  "mgr_GetAccount sm a = (case gget (sm_accounts sm) a of None \<Rightarrow> Inl ErrAccountNotFound | Some acc \<Rightarrow> Inr acc)"

definition mgr_CreateAccount :: "address \<Rightarrow> u64 \<Rightarrow> state_manager \<Rightarrow> state_error + state_manager" where
  "mgr_CreateAccount a balance sm =
     (if ghas (sm_accounts sm) a then Inl ErrAccountExists
      else Inr (sm\<lparr>sm_accounts := gput a (plain_account a balance 0) (sm_accounts sm)\<rparr>))"

text \<open>\<open>amount\<close> is an \<open>int64\<close>, held in the same 64 bits; \<open>int64(account.Balance) + amount\<close>
  is the wrapped sum read in two's complement.\<close>

definition mgr_UpdateBalance :: "address \<Rightarrow> u64 \<Rightarrow> state_manager \<Rightarrow> state_error + state_manager" where
  "mgr_UpdateBalance a amount sm = (case gget (sm_accounts sm) a of
     None \<Rightarrow> Inl ErrAccountNotFound
   | Some acc \<Rightarrow>
       if sint (acc_balance acc + amount) < 0 then Inl ErrInsufficientBalance
       else Inr (sm\<lparr>sm_accounts := gput a (acc\<lparr>acc_balance := acc_balance acc + amount\<rparr>) (sm_accounts sm)\<rparr>))"

definition mgr_IncrementNonce :: "address \<Rightarrow> state_manager \<Rightarrow> state_error + state_manager" where
  "mgr_IncrementNonce a sm = (case gget (sm_accounts sm) a of
     None \<Rightarrow> Inl ErrAccountNotFound
   | Some acc \<Rightarrow> Inr (sm\<lparr>sm_accounts := gput a (acc\<lparr>acc_nonce := acc_nonce acc + 1\<rparr>) (sm_accounts sm)\<rparr>))"

definition mgr_GetNonce :: "state_manager \<Rightarrow> address \<Rightarrow> state_error + u64" where
  "mgr_GetNonce sm a = (case gget (sm_accounts sm) a of None \<Rightarrow> Inl ErrAccountNotFound | Some acc \<Rightarrow> Inr (acc_nonce acc))"

definition mgr_AddValidator :: "address \<Rightarrow> state_manager \<Rightarrow> state_manager" where
  "mgr_AddValidator a sm =
     (if a \<in> set (sm_validators sm) then sm else sm\<lparr>sm_validators := sm_validators sm @ [a]\<rparr>)"

definition mgr_RemoveValidator :: "address \<Rightarrow> state_manager \<Rightarrow> state_error + state_manager" where
  "mgr_RemoveValidator a sm =
     (if a \<in> set (sm_validators sm) then Inr (sm\<lparr>sm_validators := remove1 a (sm_validators sm)\<rparr>)
      else Inl ErrValidatorNotFound)"

definition mgr_GetValidators :: "state_manager \<Rightarrow> address list" where
  "mgr_GetValidators sm = sm_validators sm"

definition mgr_IsValidator :: "state_manager \<Rightarrow> address \<Rightarrow> bool" where
  "mgr_IsValidator sm a = (a \<in> set (sm_validators sm))"

definition mgr_SetNodeID :: "string \<Rightarrow> state_manager \<Rightarrow> state_manager" where
  "mgr_SetNodeID i sm = sm\<lparr>sm_node_id := i\<rparr>"

definition mgr_GetNodeID :: "state_manager \<Rightarrow> string" where
  "mgr_GetNodeID sm = sm_node_id sm"

text \<open>One round of the loop of \<open>CommitBlock\<close>.  The recipient is looked up after the sender was
  written, so a transfer to oneself adds to the reduced balance.\<close>

definition mgr_commit_tx :: "transaction \<Rightarrow> state_manager \<Rightarrow> state_error + state_manager" where
  "mgr_commit_tx tx sm = (case gget (sm_accounts sm) (tx_from tx) of
     None \<Rightarrow> Inl ErrAccountNotFound
   | Some sender \<Rightarrow>
       if acc_balance sender < tx_value tx then Inl ErrInsufficientBalance
       else if acc_nonce sender \<noteq> tx_nonce tx then Inl ErrInvalidNonce
       else
         let m1 = gput (tx_from tx) (sender\<lparr>acc_balance := acc_balance sender - tx_value tx,
                    acc_nonce := acc_nonce sender + 1\<rparr>) (sm_accounts sm);
             m2 = (case gget m1 (tx_to tx) of
                     None \<Rightarrow> gput (tx_to tx) (plain_account (tx_to tx) (tx_value tx) 0) m1
                   | Some r \<Rightarrow> gput (tx_to tx) (r\<lparr>acc_balance := acc_balance r + tx_value tx\<rparr>) m1)
         in Inr (sm\<lparr>sm_accounts := m2\<rparr>))"

fun mgr_commit_txs :: "transaction list \<Rightarrow> state_manager \<Rightarrow> state_manager \<times> state_error option" where
  "mgr_commit_txs [] sm = (sm, None)"
| "mgr_commit_txs (tx # txs) sm = (case mgr_commit_tx tx sm of
     Inl e \<Rightarrow> (sm, Some e)
   | Inr sm1 \<Rightarrow> mgr_commit_txs txs sm1)"

definition mgr_CommitBlock ::
  "tx_heap \<Rightarrow> block \<Rightarrow> state_manager \<Rightarrow> go_panic + (state_manager \<times> state_error option)" where
  "mgr_CommitBlock th b sm = (case blk_body b of
     None \<Rightarrow> Inl NilDereference
   | Some body \<Rightarrow> Inr (mgr_commit_txs (map th (body_txs body)) sm))"

definition mgr_GetStateRoot :: "state_manager \<Rightarrow> hash" where
  "mgr_GetStateRoot sm = bytes_of ''state_root''"

text \<open>\<open>uint64(account.Balance) < 0\<close>.\<close>

definition mgr_VerifyState :: "state_manager \<Rightarrow> state_error option" where
  "mgr_VerifyState sm =
     (if list_ex (\<lambda>(a, acc). acc_balance acc < 0) (sm_accounts sm) then Some ErrInvalidBalance else None)"

text \<open>The file tree that \<open>GetAllBlocks\<close> reads: a directory that cannot be listed and a file
  that cannot be read are \<open>None\<close>; \<open>decode\<close> is \<open>json.Unmarshal\<close>.\<close>

datatype fs_entry = FsDir string "(string \<times> fs_file) list option" | FsFile string
and fs_file = FsSubDir | FsData "byte list option"

datatype blocks_error = ErrReadDirectories | ErrReadValidator string | ErrReadFile string | ErrDecodeBlock string

fun read_block_files :: "(byte list \<Rightarrow> block option) \<Rightarrow> (string \<times> fs_file) list \<Rightarrow> blocks_error + block list" where
  "read_block_files decode [] = Inr []"
| "read_block_files decode ((n, FsSubDir) # fs) = read_block_files decode fs"
| "read_block_files decode ((n, FsData d) # fs) = (case d of
     None \<Rightarrow> Inl (ErrReadFile n)
   | Some bs \<Rightarrow> (case decode bs of
       None \<Rightarrow> Inl (ErrDecodeBlock n)
     | Some b \<Rightarrow> map_sum id (Cons b) (read_block_files decode fs)))"

fun read_validator_dirs :: "(byte list \<Rightarrow> block option) \<Rightarrow> fs_entry list \<Rightarrow> blocks_error + block list" where
  "read_validator_dirs decode [] = Inr []"
| "read_validator_dirs decode (FsFile n # es) = read_validator_dirs decode es"
| "read_validator_dirs decode (FsDir n d # es) = (case d of
     None \<Rightarrow> Inl (ErrReadValidator n)
   | Some fs \<Rightarrow> (case read_block_files decode fs of
       Inl e \<Rightarrow> Inl e
     | Inr bs \<Rightarrow> map_sum id ((@) bs) (read_validator_dirs decode es)))"

definition mgr_GetAllBlocks ::
  "(byte list \<Rightarrow> block option) \<Rightarrow> fs_entry list option \<Rightarrow> blocks_error + block list" where
  "mgr_GetAllBlocks decode fs = (case fs of
     None \<Rightarrow> Inl ErrReadDirectories
   | Some es \<Rightarrow> map_sum id (sort_slice (\<lambda>a b. hdr_height (blk_header a) < hdr_height (blk_header b)))
       (read_validator_dirs decode es))"

section \<open>The manager as a ledger\<close>

lemma mgr_commit_wf: "gwf (sm_accounts sm) \<Longrightarrow> mgr_commit_tx tx sm = Inr sm' \<Longrightarrow> gwf (sm_accounts sm')"
  by (auto simp: mgr_commit_tx_def Let_def split: option.splits if_splits)

lemma mgr_commit_refines:
  "(case mgr_commit_tx tx sm of Inl _ \<Rightarrow> None | Inr sm' \<Rightarrow> Some (ledger_view (sm_accounts sm')))
     = transfer_spec tx (ledger_view (sm_accounts sm))"
  by (auto simp: mgr_commit_tx_def transfer_spec_def credit_def plain_account_def
      ledger_view_def fun_eq_iff Let_def split: option.split)

interpretation mgr_ledger: ledger sm_accounts mgr_commit_tx
  by unfold_locales (erule (1) mgr_commit_wf, rule mgr_commit_refines)

lemma mgr_commit_txs_prefix:
  "\<exists>k \<le> length txs. mgr_ledger.exec_all (take k txs) sm = Inr (fst (mgr_commit_txs txs sm)) \<and>
     (case snd (mgr_commit_txs txs sm) of
        None \<Rightarrow> k = length txs
      | Some e \<Rightarrow> k < length txs \<and> mgr_commit_tx (txs ! k) (fst (mgr_commit_txs txs sm)) = Inl e)"
proof (induction txs arbitrary: sm)
  case (Cons tx txs)
  show ?case
  proof (cases "mgr_commit_tx tx sm")
    case (Inl e)
    then show ?thesis
      by (intro exI [of _ 0]) simp
  next
    case (Inr sm1)
    obtain k where "k \<le> length txs" "mgr_ledger.exec_all (take k txs) sm1 = Inr (fst (mgr_commit_txs txs sm1))"
      "case snd (mgr_commit_txs txs sm1) of None \<Rightarrow> k = length txs
       | Some e \<Rightarrow> k < length txs \<and> mgr_commit_tx (txs ! k) (fst (mgr_commit_txs txs sm1)) = Inl e"
      using Cons.IH by blast
    then show ?thesis
      using Inr by (intro exI [of _ "Suc k"]) (simp split: option.splits)
  qed
qed simp

lemma mgr_commit_all:
  "mgr_commit_txs txs sm = (sm', None) \<longleftrightarrow> mgr_ledger.exec_all txs sm = Inr sm'"
  by (induction txs arbitrary: sm) (auto split: sum.split)

lemma read_block_files_decoded:
  "read_block_files decode fs = Inr bs \<Longrightarrow>
     bs = map (the \<circ> decode) (concat (map (\<lambda>(n, f). case f of FsData (Some d) \<Rightarrow> [d] | _ \<Rightarrow> []) fs))"
proof (induction decode fs arbitrary: bs rule: read_block_files.induct)
  case (3 decode n d fs)
  then show ?case
    by (auto split: option.splits simp: map_sum_eq_Inr)
qed simp_all

section \<open>Properties\<close>

definition sample_manager :: state_manager where
  "sample_manager = \<lparr>sm_accounts = sample_accounts, sm_validators = [''v0''], sm_node_id = [], sm_base_dir = []\<rparr>"

definition sample_tx_heap :: tx_heap where
  "sample_tx_heap t = sample_transfer ''alice'' ''bob'' 4 (word_of_nat t)"

definition sample_tx_block :: "nat list \<Rightarrow> block" where
  "sample_tx_block ts = (sample_block 0)\<lparr>blk_body := Some \<lparr>body_txs = ts, body_receipts = [], body_events = []\<rparr>\<rparr>"

lemmas sample_commit_simps = mgr_CommitBlock_def sample_manager_def sample_tx_heap_def sample_tx_block_def sample_block_def
  mgr_commit_tx_def sample_transfer_def sample_accounts_def plain_account_def gget_def gput_def Let_def

text \<open>(C6) \<open>CommitBlock\<close> is not atomic: it leaves the effects of the first \<open>k\<close> transactions, run
  in order, where \<open>k\<close> is the whole block when it returns no error, and otherwise the
  transaction at \<open>k\<close> is the one whose error is returned.  Whatever it returns, the total
  supply is unchanged.\<close>

theorem CommitBlock_prefix:
  assumes "gwf (sm_accounts sm)" "total_supply (sm_accounts sm) < 2 ^ 64"
    and "mgr_CommitBlock th b sm = Inr (sm', err)" "blk_body b = Some body"
  shows "total_supply (sm_accounts sm') = total_supply (sm_accounts sm) \<and>
    (\<exists>k. mgr_commit_txs (map th (take k (body_txs body))) sm = (sm', None) \<and>
      (case err of None \<Rightarrow> k = length (body_txs body)
       | Some e \<Rightarrow> k < length (body_txs body) \<and> mgr_commit_tx (th (body_txs body ! k)) sm' = Inl e))"
proof -
  let ?txs = "map th (body_txs body)"
  have r: "mgr_commit_txs ?txs sm = (sm', err)"
    using assms by (simp add: mgr_CommitBlock_def)
  obtain k where k: "k \<le> length ?txs" "mgr_ledger.exec_all (take k ?txs) sm = Inr sm'"
    "case err of None \<Rightarrow> k = length ?txs | Some e \<Rightarrow> k < length ?txs \<and> mgr_commit_tx (?txs ! k) sm' = Inl e"
    using mgr_commit_txs_prefix [of ?txs sm] unfolding r fst_conv snd_conv by blast
  then have "mgr_commit_txs (map th (take k (body_txs body))) sm = (sm', None)"
    by (simp add: mgr_commit_all take_map)
  moreover have "total_supply (sm_accounts sm') = total_supply (sm_accounts sm)"
    using mgr_ledger.exec_all_conserves [OF assms(1) k(2) assms(2)] by simp
  ultimately show ?thesis
    using k(3) by (auto split: option.splits)
qed

text \<open>The witness commits a block whose third transaction overdraws: two transfers stay.\<close>

theorem CommitBlock_prefix_witness:
  "\<exists>sm'. mgr_CommitBlock sample_tx_heap (sample_tx_block [0, 1, 2]) sample_manager = Inr (sm', Some ErrInsufficientBalance)
     \<and> total_supply (sm_accounts sm') = 10 \<and> balance_of (sm_accounts sm') ''bob'' = 8"
proof -
  obtain sm' where sm': "mgr_CommitBlock sample_tx_heap (sample_tx_block [0, 1, 2]) sample_manager = Inr (sm', Some ErrInsufficientBalance)"
      "balance_of (sm_accounts sm') ''bob'' = 8"
    by (simp add: sample_commit_simps balance_of_def)
  have "total_supply (sm_accounts sm') = total_supply (sm_accounts sample_manager)"
    using CommitBlock_prefix [OF _ _ sm'(1)] total_supply_sample gwf_sample_accounts
    by (simp add: sample_manager_def sample_tx_block_def)
  then show ?thesis
    using sm' total_supply_sample by (simp add: sample_manager_def)
qed

text \<open>(C14) A block commits without error only when, for every sender, the nonces of its
  transactions run on without gap from the nonce of the account; so no transaction of fewer
  than \<open>2 ^ 64\<close> is executed twice by it.\<close>

theorem CommitBlock_nonces:
  assumes "gwf (sm_accounts sm)" "mgr_CommitBlock th b sm = Inr (sm', None)" "blk_body b = Some body"
    and "txs = filter (\<lambda>tx. tx_from tx = a) (map th (body_txs body))"
  shows "map tx_nonce txs = map (\<lambda>i. nonce_of (sm_accounts sm) a + word_of_nat i) [0..<length txs]
    \<and> (length txs < 2 ^ 64 \<longrightarrow> distinct (map tx_nonce txs))"
proof -
  have "mgr_ledger.exec_all (map th (body_txs body)) sm = Inr sm'"
    using assms by (simp add: mgr_CommitBlock_def mgr_commit_all)
  then have nonces: "map tx_nonce txs = map (\<lambda>i. nonce_of (sm_accounts sm) a + word_of_nat i) [0..<length txs]"
    using mgr_ledger.exec_all_consecutive [OF assms(1)] assms(4) by blast
  moreover have "inj_on (\<lambda>i. nonce_of (sm_accounts sm) a + (word_of_nat i :: u64)) {0..<length txs}" if "length txs < 2 ^ 64"
    by (rule inj_onI) (metis add_left_cancel atLeastLessThan_iff less_trans that unat_of_nat_u64)
  ultimately show ?thesis
    by (auto simp: distinct_map)
qed

theorem CommitBlock_nonces_witness:
  "\<exists>sm'. mgr_CommitBlock sample_tx_heap (sample_tx_block [0, 1]) sample_manager = Inr (sm', None)
     \<and> distinct (map tx_nonce (filter (\<lambda>tx. tx_from tx = ''alice'') (map sample_tx_heap [0, 1])))"
proof -
  obtain sm' where sm': "mgr_CommitBlock sample_tx_heap (sample_tx_block [0, 1]) sample_manager = Inr (sm', None)"
    by (simp add: sample_commit_simps)
  have "blk_body (sample_tx_block [0, 1]) = Some \<lparr>body_txs = [0, 1], body_receipts = [], body_events = []\<rparr>"
    by (simp add: sample_tx_block_def)
  from CommitBlock_nonces [OF _ sm' this refl, of "''alice''"] show ?thesis
    using sm' gwf_sample_accounts by (simp add: sample_manager_def sample_tx_heap_def sample_transfer_def)
qed

text \<open>(C11) The two implementations of a transfer, \<open>State.ExecuteTransaction\<close> and the loop body
  of \<open>StateManager.CommitBlock\<close>, refine the same abstract ledger: on states with the same
  balances and nonces they both fail, or both succeed with the same balances and nonces.\<close>

theorem ledgers_agree:
  assumes "ledger_view (as_accounts s) = ledger_view (sm_accounts sm)"
  shows "(case state_ExecuteTransaction tx s of Inl _ \<Rightarrow> None | Inr s' \<Rightarrow> Some (ledger_view (as_accounts s')))
    = (case mgr_commit_tx tx sm of Inl _ \<Rightarrow> None | Inr sm' \<Rightarrow> Some (ledger_view (sm_accounts sm')))"
  using assms state_ledger.exec_refines [of tx s] mgr_ledger.exec_refines [of tx sm] by simp

theorem ledgers_agree_witness:
  "(case state_ExecuteTransaction (sample_transfer ''alice'' ''alice'' 4 0) sample_state of
      Inl _ \<Rightarrow> None | Inr s' \<Rightarrow> Some (ledger_view (as_accounts s') ''alice''))
    = Some (Some (10, 1))"
proof -
  have eq: "ledger_view (as_accounts sample_state) = ledger_view (sm_accounts sample_manager)"
    by (simp add: sample_state_def sample_manager_def)
  have "(case mgr_commit_tx (sample_transfer ''alice'' ''alice'' 4 0) sample_manager of
      Inl _ \<Rightarrow> None | Inr s' \<Rightarrow> Some (ledger_view (sm_accounts s'))) = Some (ledger_view (gput ''alice'' (plain_account ''alice'' 10 1) sample_accounts))"
    by (simp add: sample_commit_simps)
  then have "(case state_ExecuteTransaction (sample_transfer ''alice'' ''alice'' 4 0) sample_state of
      Inl _ \<Rightarrow> None | Inr s' \<Rightarrow> Some (ledger_view (as_accounts s')))
      = Some (ledger_view (gput ''alice'' (plain_account ''alice'' 10 1) sample_accounts))"
    using ledgers_agree [OF eq] by simp
  then show ?thesis
    by (auto simp: plain_account_def split: sum.splits)
qed

text \<open>\<open>UpdateBalance\<close> reads balances as signed numbers.  For a balance below \<open>2 ^ 63\<close> it adds
  the amount exactly when the sum is neither negative nor \<open>2 ^ 63\<close> or more, and rejects it
  otherwise; an account that holds \<open>2 ^ 63\<close> or more cannot be debited by one.\<close>

theorem UpdateBalance_signed:
  assumes "gget (sm_accounts sm) a = Some acc"
  shows "(unat (acc_balance acc) < 2 ^ 63 \<longrightarrow>
      (case mgr_UpdateBalance a amount sm of
         Inl e \<Rightarrow> e = ErrInsufficientBalance \<and>
           (int (unat (acc_balance acc)) + sint amount < 0 \<or> 2 ^ 63 \<le> int (unat (acc_balance acc)) + sint amount)
       | Inr sm' \<Rightarrow> int (unat (balance_of (sm_accounts sm') a)) = int (unat (acc_balance acc)) + sint amount))
    \<and> (2 ^ 63 < unat (acc_balance acc) \<longrightarrow> mgr_UpdateBalance a (- 1) sm = Inl ErrInsufficientBalance)"
proof (intro conjI impI)
  assume "unat (acc_balance acc) < 2 ^ 63"
  then have small: "uint (acc_balance acc) < 2 ^ 63"
    by (simp only: uint_less_power)
  have sum: "uint (acc_balance acc + amount) = uint (acc_balance acc) + sint amount"
    if "\<not> sint (acc_balance acc + amount) < 0"
    using that sint_add_u64 [OF small, of amount] by (intro uint_add_sint_u64) auto
  show "case mgr_UpdateBalance a amount sm of
         Inl e \<Rightarrow> e = ErrInsufficientBalance \<and>
           (int (unat (acc_balance acc)) + sint amount < 0 \<or> 2 ^ 63 \<le> int (unat (acc_balance acc)) + sint amount)
       | Inr sm' \<Rightarrow> int (unat (balance_of (sm_accounts sm') a)) = int (unat (acc_balance acc)) + sint amount"
    using assms sum sint_add_u64 [OF small, of amount] by (simp add: mgr_UpdateBalance_def)
next
  assume "2 ^ 63 < unat (acc_balance acc)"
  then have big: "2 ^ 63 < uint (acc_balance acc)"
    by (simp only: power_less_uint)
  then have "uint (acc_balance acc + - 1) = uint (acc_balance acc) - 1"
    using uint_bounded [of "acc_balance acc"] uint_add_sint_u64 [of "acc_balance acc" "- 1"] by simp
  then have "sint (acc_balance acc + - 1) < 0"
    using big uint_bounded [of "acc_balance acc"] by (simp add: sint_u64)
  then show "mgr_UpdateBalance a (- 1) sm = Inl ErrInsufficientBalance"
    using assms by (simp add: mgr_UpdateBalance_def)
qed

theorem UpdateBalance_signed_witness:
  "gget (sm_accounts sample_manager) ''alice'' = Some (plain_account ''alice'' 10 0)
    \<and> (case mgr_UpdateBalance ''alice'' (- 3) sample_manager of Inl e \<Rightarrow> False
       | Inr sm' \<Rightarrow> int (unat (balance_of (sm_accounts sm') ''alice'')) = 7)"
proof -
  have acc: "gget (sm_accounts sample_manager) ''alice'' = Some (plain_account ''alice'' 10 0)"
    by (simp add: sample_manager_def sample_accounts_def gget_def)
  show ?thesis
    using UpdateBalance_signed [OF acc, of "- 3"] acc by (simp add: plain_account_def split: sum.splits)
qed

end
