(* ===== verification/State_Transition.thy ===== *)
theory State_Transition
  imports Account_State
begin

text \<open>
  \<open>internal/state/transition.go\<close>: state changes, applied one by one and recorded in a
  transition.  The \<open>interface{}\<close> values are a datatype of the dynamic types that the code
  asserts; a failed assertion is a panic.  A \<open>*StateTransition\<close> is its position in the
  manager's list.
\<close>

section \<open>State and operations\<close>

datatype change_value =
    VNil
  | VValue u64
  | VNonce u64
  | VBytes "byte list"
  | VAccount "account option"

text \<open>A \<open>StateChangeType\<close> is an \<open>int\<close>; \<open>None\<close> is a number that is none of the constants.\<close>

record state_change =
  chg_type :: "state_change_type option"
  chg_address :: address
  chg_storage_key :: string
  chg_old_value :: change_value
  chg_new_value :: change_value

record state_transition =
  trn_block_number :: u64
  trn_changes :: "state_change list"

record transition_manager =
  stm_transitions :: "state_transition list"
  stm_state :: account_state

definition NewStateTransitionManager :: "account_state \<Rightarrow> transition_manager" where
  "NewStateTransitionManager s = \<lparr>stm_transitions = [], stm_state = s\<rparr>"

definition CreateTransition :: "u64 \<Rightarrow> transition_manager \<Rightarrow> nat \<times> transition_manager" where
  "CreateTransition n stm = (length (stm_transitions stm),
     stm\<lparr>stm_transitions := stm_transitions stm @ [\<lparr>trn_block_number = n, trn_changes = []\<rparr>]\<rparr>)"

definition as_value :: "change_value \<Rightarrow> go_panic + u64" where
  "as_value v = (case v of VValue x \<Rightarrow> Inr x | _ \<Rightarrow> Inl TypeAssertionFailed)"

definition as_nonce :: "change_value \<Rightarrow> go_panic + u64" where
  "as_nonce v = (case v of VNonce x \<Rightarrow> Inr x | _ \<Rightarrow> Inl TypeAssertionFailed)"

definition as_bytes :: "change_value \<Rightarrow> go_panic + byte list" where
  "as_bytes v = (case v of VBytes x \<Rightarrow> Inr x | _ \<Rightarrow> Inl TypeAssertionFailed)"

text \<open>The cases of \<open>ApplyChange\<close>: writes through the account pointer, then \<open>SetAccount\<close>.\<close>

definition change_balance :: "address \<Rightarrow> change_value \<Rightarrow> account_state \<Rightarrow> go_panic + (state_error + account_state)" where
  "change_balance a v s = (case state_GetAccount s a of
     Inl e \<Rightarrow> Inr (Inl e)
   | Inr acc \<Rightarrow> map_sum id (\<lambda>x. Inr (state_SetAccount a (acc\<lparr>acc_balance := x\<rparr>) s)) (as_value v))"

definition change_nonce :: "address \<Rightarrow> change_value \<Rightarrow> account_state \<Rightarrow> go_panic + (state_error + account_state)" where
  "change_nonce a v s = (case state_GetAccount s a of
     Inl e \<Rightarrow> Inr (Inl e)
   | Inr acc \<Rightarrow> map_sum id (\<lambda>x. Inr (state_SetAccount a (acc\<lparr>acc_nonce := x\<rparr>) s)) (as_nonce v))"

definition change_state :: "state_change \<Rightarrow> account_state \<Rightarrow> go_panic + (state_error + account_state)" where
  "change_state c s = (case chg_type c of
     Some StateChangeTypeAccount \<Rightarrow> change_balance (chg_address c) (chg_new_value c) s
   | Some StateChangeTypeStorage \<Rightarrow> (case as_bytes (chg_new_value c) of
       Inl p \<Rightarrow> Inl p
     | Inr bs \<Rightarrow> Inr (state_SetStorage (bytes_of (chg_address c)) (bytes_of (chg_storage_key c)) bs s))
   | Some StateChangeTypeCode \<Rightarrow> (case as_bytes (chg_new_value c) of
       Inl p \<Rightarrow> Inl p
     | Inr bs \<Rightarrow> state_SetCode (bytes_of (chg_address c)) bs s)
   | Some StateChangeTypeBalance \<Rightarrow> change_balance (chg_address c) (chg_new_value c) s
   | Some StateChangeTypeNonce \<Rightarrow> change_nonce (chg_address c) (chg_new_value c) s
   | None \<Rightarrow> Inr (Inr s))"

definition ApplyChange ::
  "nat \<Rightarrow> state_change \<Rightarrow> transition_manager \<Rightarrow> go_panic + (state_error + transition_manager)" where
  "ApplyChange i c stm = map_sum id (map_sum id (\<lambda>s. stm\<lparr>stm_state := s,
     stm_transitions := (stm_transitions stm)[i := (stm_transitions stm ! i)
       \<lparr>trn_changes := trn_changes (stm_transitions stm ! i) @ [c]\<rparr>]\<rparr>)) (change_state c (stm_state stm))"

definition GetTransition :: "transition_manager \<Rightarrow> u64 \<Rightarrow> state_transition option" where
  "GetTransition stm n = find (\<lambda>t. trn_block_number t = n) (stm_transitions stm)"

definition GetLatestTransition :: "transition_manager \<Rightarrow> state_transition option" where
  "GetLatestTransition stm = (if stm_transitions stm = [] then None else Some (last (stm_transitions stm)))"

definition check_balance :: "account_state \<Rightarrow> address \<Rightarrow> change_value \<Rightarrow> go_panic + bool" where
  "check_balance s a v = (case state_GetAccount s a of
     Inl e \<Rightarrow> Inr False | Inr acc \<Rightarrow> map_sum id (\<lambda>x. acc_balance acc = x) (as_value v))"

definition check_nonce :: "account_state \<Rightarrow> address \<Rightarrow> change_value \<Rightarrow> go_panic + bool" where
  "check_nonce s a v = (case state_GetAccount s a of
     Inl e \<Rightarrow> Inr False | Inr acc \<Rightarrow> map_sum id (\<lambda>x. acc_nonce acc = x) (as_nonce v))"

definition check_bytes :: "state_error + byte list \<Rightarrow> change_value \<Rightarrow> go_panic + bool" where
  "check_bytes r v = (case r of Inl e \<Rightarrow> Inr False | Inr bs \<Rightarrow> map_sum id (\<lambda>x. bs = x) (as_bytes v))"

definition verifyChange :: "account_state \<Rightarrow> state_change \<Rightarrow> go_panic + bool" where
  "verifyChange s c = (case chg_type c of
     Some StateChangeTypeAccount \<Rightarrow> check_balance s (chg_address c) (chg_new_value c)
   | Some StateChangeTypeStorage \<Rightarrow>
       check_bytes (state_GetStorage s (bytes_of (chg_address c)) (bytes_of (chg_storage_key c))) (chg_new_value c)
   | Some StateChangeTypeCode \<Rightarrow> check_bytes (state_GetCode s (bytes_of (chg_address c))) (chg_new_value c)
   | Some StateChangeTypeBalance \<Rightarrow> check_balance s (chg_address c) (chg_new_value c)
   | Some StateChangeTypeNonce \<Rightarrow> check_nonce s (chg_address c) (chg_new_value c)
   | None \<Rightarrow> Inr False)"

fun verify_changes :: "account_state \<Rightarrow> state_change list \<Rightarrow> go_panic + bool" where
  "verify_changes s [] = Inr True"
| "verify_changes s (c # cs) = (case verifyChange s c of
     Inl p \<Rightarrow> Inl p | Inr ok \<Rightarrow> if \<not> ok then Inr False else verify_changes s cs)"

definition VerifyTransition :: "transition_manager \<Rightarrow> state_transition option \<Rightarrow> go_panic + bool" where
  "VerifyTransition stm t = (case t of None \<Rightarrow> Inr False | Some tr \<Rightarrow> verify_changes (stm_state stm) (trn_changes tr))"

section \<open>Targets of changes\<close>

text \<open>What a change writes.  The code of an account is the storage slot \<open>code\<close>, so a code change
  and a storage change may have the same target.\<close>

datatype change_target = TBalance address | TNonce address | TSlot address string

definition change_target :: "state_change \<Rightarrow> change_target option" where
  "change_target c = map_option (\<lambda>t. case t of
       StateChangeTypeAccount \<Rightarrow> TBalance (chg_address c)
     | StateChangeTypeStorage \<Rightarrow> TSlot (chg_address c) (chg_storage_key c)
     | StateChangeTypeCode \<Rightarrow> TSlot (chg_address c) ''code''
     | StateChangeTypeBalance \<Rightarrow> TBalance (chg_address c)
     | StateChangeTypeNonce \<Rightarrow> TNonce (chg_address c)) (chg_type c)"

fun target_value :: "account_state \<Rightarrow> change_target \<Rightarrow> change_value option" where
  "target_value s (TBalance a) = map_option (\<lambda>acc. VValue (acc_balance acc)) (gget (as_accounts s) a)"
| "target_value s (TNonce a) = map_option (\<lambda>acc. VNonce (acc_nonce acc)) (gget (as_accounts s) a)"
| "target_value s (TSlot a k) = (if ghas (as_accounts s) a
     then map_option VBytes (gget (slice_at (as_storage s) a) k) else None)"

lemma string_bytes_state [simp]:
  "state_GetStorage s (bytes_of a) (bytes_of k) = (if \<not> ghas (as_accounts s) a then Inl ErrAccountNotFound
     else case gget (slice_at (as_storage s) a) k of None \<Rightarrow> Inl ErrStorageKeyNotFound | Some v \<Rightarrow> Inr v)"
  "state_GetCode s (bytes_of a) = (if \<not> ghas (as_accounts s) a then Inl ErrAccountNotFound
     else Inr (slice_at (slice_at (as_storage s) a) ''code''))"
  by (simp_all add: state_GetStorage_def state_GetCode_def Let_def)

lemma change_balance_Inr:
  assumes "change_balance a v s = Inr (Inr s')"
  obtains acc x where "v = VValue x" "gget (as_accounts s) a = Some acc"
    "as_accounts s' = gput a (acc\<lparr>acc_balance := x\<rparr>) (as_accounts s)" "slice_at (as_storage s') = slice_at (as_storage s)"
  using assms
  by (auto simp: change_balance_def state_GetAccount_def as_value_def state_SetAccount_def slice_at_def ghas_def
      fun_eq_iff split: option.splits change_value.splits)

lemma change_nonce_Inr:
  assumes "change_nonce a v s = Inr (Inr s')"
  obtains acc x where "v = VNonce x" "gget (as_accounts s) a = Some acc"
    "as_accounts s' = gput a (acc\<lparr>acc_nonce := x\<rparr>) (as_accounts s)" "slice_at (as_storage s') = slice_at (as_storage s)"
  using assms
  by (auto simp: change_nonce_def state_GetAccount_def as_nonce_def state_SetAccount_def slice_at_def ghas_def
      fun_eq_iff split: option.splits change_value.splits)

lemma set_slot_Inr:
  assumes "state_SetStorage (bytes_of a) (bytes_of k) bs s = Inr s' \<or> k = ''code'' \<and> state_SetCode (bytes_of a) bs s = Inr (Inr s')"
  shows "ghas (as_accounts s) a \<and> as_accounts s' = as_accounts s
    \<and> slice_at (as_storage s') = (slice_at (as_storage s))(a := gput k bs (slice_at (as_storage s) a))"
  using assms
  by (auto simp: state_SetStorage_def state_SetCode_def slice_at_def Let_def fun_eq_iff split: option.splits if_splits)

lemma balance_target:
  "change_balance a v s = Inr (Inr s') \<Longrightarrow> target_value s' (TBalance a) = Some v
     \<and> (\<forall>t'. t' \<noteq> TBalance a \<longrightarrow> target_value s' t' = target_value s t')"
proof (erule change_balance_Inr, intro conjI allI impI)
  fix t' acc x
  assume "gget (as_accounts s) a = Some acc" "as_accounts s' = gput a (acc\<lparr>acc_balance := x\<rparr>) (as_accounts s)"
    "slice_at (as_storage s') = slice_at (as_storage s)" "t' \<noteq> TBalance a"
  then show "target_value s' t' = target_value s t'"
    by (cases t') (auto simp: ghas_def)
qed simp

lemma nonce_target:
  "change_nonce a v s = Inr (Inr s') \<Longrightarrow> target_value s' (TNonce a) = Some v
     \<and> (\<forall>t'. t' \<noteq> TNonce a \<longrightarrow> target_value s' t' = target_value s t')"
proof (erule change_nonce_Inr, intro conjI allI impI)
  fix t' acc x
  assume "gget (as_accounts s) a = Some acc" "as_accounts s' = gput a (acc\<lparr>acc_nonce := x\<rparr>) (as_accounts s)"
    "slice_at (as_storage s') = slice_at (as_storage s)" "t' \<noteq> TNonce a"
  then show "target_value s' t' = target_value s t'"
    by (cases t') (auto simp: ghas_def)
qed simp

lemma slot_target:
  assumes "state_SetStorage (bytes_of a) (bytes_of k) bs s = Inr s' \<or> k = ''code'' \<and> state_SetCode (bytes_of a) bs s = Inr (Inr s')"
  shows "target_value s' (TSlot a k) = Some (VBytes bs)
     \<and> (\<forall>t'. t' \<noteq> TSlot a k \<longrightarrow> target_value s' t' = target_value s t')"
proof (intro conjI allI impI)
  note e = set_slot_Inr [OF assms]
  show "target_value s' (TSlot a k) = Some (VBytes bs)"
    using e by simp
  show "target_value s' t' = target_value s t'" if "t' \<noteq> TSlot a k" for t'
    using e that by (cases t') auto
qed

lemma change_state_target:
  assumes "change_state c s = Inr (Inr s')" "change_target c = Some t"
  shows "target_value s' t = Some (chg_new_value c)
    \<and> (\<forall>t'. t' \<noteq> t \<longrightarrow> target_value s' t' = target_value s t')"
proof -
  obtain ty where ty: "chg_type c = Some ty"
    using assms(2) by (auto simp: change_target_def)
  show ?thesis
  proof (cases ty)
    case StateChangeTypeStorage
    then show ?thesis
      using assms ty slot_target [of "chg_address c" "chg_storage_key c" _ s s']
      by (auto simp: change_state_def change_target_def as_bytes_def split: sum.splits change_value.splits)
  next
    case StateChangeTypeCode
    then show ?thesis
      using assms ty slot_target [of "chg_address c" "''code''" _ s s']
      by (auto simp: change_state_def change_target_def as_bytes_def split: sum.splits change_value.splits)
  qed (use assms ty balance_target nonce_target in \<open>auto simp: change_state_def change_target_def\<close>)
qed

lemma verifyChange_target:
  assumes "change_target c = Some t" "target_value s t = Some (chg_new_value c)"
  shows "verifyChange s c = Inr True"
proof -
  obtain ty where ty: "chg_type c = Some ty"
    using assms(1) by (auto simp: change_target_def)
  show ?thesis
    using assms ty
    by (cases ty) (auto simp: verifyChange_def change_target_def check_balance_def check_nonce_def check_bytes_def
        state_GetAccount_def as_value_def as_nonce_def as_bytes_def slice_at_def split: option.splits if_splits change_value.split)
qed

section \<open>Sequences of changes\<close>

text \<open>A caller that applies changes one after another and stops at the first error or panic.\<close>

fun apply_changes ::
  "nat \<Rightarrow> state_change list \<Rightarrow> transition_manager \<Rightarrow> go_panic + (state_error + transition_manager)" where
  "apply_changes i [] stm = Inr (Inr stm)"
| "apply_changes i (c # cs) stm = (case ApplyChange i c stm of
     Inl p \<Rightarrow> Inl p
   | Inr (Inl e) \<Rightarrow> Inr (Inl e)
   | Inr (Inr stm1) \<Rightarrow> apply_changes i cs stm1)"

lemma ApplyChange_Inr:
  "ApplyChange i c stm = Inr (Inr stm') \<Longrightarrow> change_state c (stm_state stm) = Inr (Inr (stm_state stm'))
     \<and> stm_transitions stm' = (stm_transitions stm)[i := (stm_transitions stm ! i)
         \<lparr>trn_changes := trn_changes (stm_transitions stm ! i) @ [c]\<rparr>]"
  by (auto simp: ApplyChange_def map_sum_eq_Inr Inr_eq_map_sum)

lemma apply_changes_state:
  assumes "apply_changes i cs stm = Inr (Inr stm')" "i < length (stm_transitions stm)"
  shows "stm_transitions stm' = (stm_transitions stm)[i := (stm_transitions stm ! i)
      \<lparr>trn_changes := trn_changes (stm_transitions stm ! i) @ cs\<rparr>]
    \<and> (\<forall>t. Some t \<notin> set (map change_target cs) \<longrightarrow> target_value (stm_state stm') t = target_value (stm_state stm) t)"
  using assms
proof (induction cs arbitrary: stm)
  case (Cons c cs)
  then obtain stm1 where c: "ApplyChange i c stm = Inr (Inr stm1)" and cs: "apply_changes i cs stm1 = Inr (Inr stm')"
    by (auto split: sum.splits)
  note c1 = ApplyChange_Inr [OF c]
  have len: "i < length (stm_transitions stm1)"
    using c1 Cons.prems by simp
  have "target_value (stm_state stm1) t = target_value (stm_state stm) t" if "change_target c \<noteq> Some t" for t
    using that c1 change_state_target [of c "stm_state stm" "stm_state stm1"]
    by (cases "change_target c") (auto simp: change_target_def change_state_def)
  then show ?case
    using Cons.IH [OF cs len] c1 Cons.prems by auto
qed simp

lemma apply_changes_values:
  assumes "apply_changes i cs stm = Inr (Inr stm')" "i < length (stm_transitions stm)"
    "distinct (map change_target cs)" "c \<in> set cs" "change_target c = Some t"
  shows "target_value (stm_state stm') t = Some (chg_new_value c)"
  using assms
proof (induction cs arbitrary: stm)
  case (Cons d cs)
  then obtain stm1 where d: "ApplyChange i d stm = Inr (Inr stm1)" and cs: "apply_changes i cs stm1 = Inr (Inr stm')"
    by (auto split: sum.splits)
  note d1 = ApplyChange_Inr [OF d]
  have len: "i < length (stm_transitions stm1)"
    using d1 Cons.prems by simp
  show ?case
  proof (cases "c = d")
    case True
    then have "Some t \<notin> set (map change_target cs)"
      using Cons.prems by (metis distinct.simps(2) list.simps(9))
    then show ?thesis
      using apply_changes_state [OF cs len] change_state_target [OF conjunct1 [OF d1], of t] True Cons.prems(5)
      by simp
  qed (use Cons cs len in auto)
qed simp

lemma verify_changes_True: "(\<And>c. c \<in> set cs \<Longrightarrow> verifyChange s c = Inr True) \<Longrightarrow> verify_changes s cs = Inr True"
  by (induction cs) auto

section \<open>Properties\<close>

text \<open>(C26) A transition whose changes were all applied, and write pairwise different targets, holds
  exactly these changes and verifies: \<open>VerifyTransition\<close> returns true without a panic.\<close>

theorem applied_transition_verifies:
  assumes "CreateTransition n stm0 = (i, stm1)" "apply_changes i cs stm1 = Inr (Inr stm)"
    and "distinct (map change_target cs)" "\<forall>c \<in> set cs. chg_type c \<noteq> None"
  shows "stm_transitions stm ! i = \<lparr>trn_block_number = n, trn_changes = cs\<rparr>
    \<and> VerifyTransition stm (Some (stm_transitions stm ! i)) = Inr True"
proof -
  have i: "i = length (stm_transitions stm0)"
    and tr: "stm_transitions stm1 = stm_transitions stm0 @ [\<lparr>trn_block_number = n, trn_changes = []\<rparr>]"
    using assms(1) by (auto simp: CreateTransition_def)
  then have len: "i < length (stm_transitions stm1)"
    by simp
  have "stm_transitions stm ! i = \<lparr>trn_block_number = n, trn_changes = cs\<rparr>"
    using apply_changes_state [OF assms(2) len] i tr by simp
  moreover have "verifyChange (stm_state stm) c = Inr True" if c: "c \<in> set cs" for c
  proof -
    obtain t where "change_target c = Some t"
      using assms(4) c by (auto simp: change_target_def)
    then show ?thesis
      using apply_changes_values [OF assms(2) len assms(3) c] verifyChange_target by blast
  qed
  ultimately show ?thesis
    by (simp add: VerifyTransition_def verify_changes_True)
qed

definition sample_change :: "state_change_type \<Rightarrow> string \<Rightarrow> change_value \<Rightarrow> state_change" where
  "sample_change ty k v = \<lparr>chg_type = Some ty, chg_address = ''alice'', chg_storage_key = k,
     chg_old_value = VNil, chg_new_value = v\<rparr>"

definition sample_changes :: "state_change list" where
  "sample_changes = [sample_change StateChangeTypeBalance [] (VValue 7),
     sample_change StateChangeTypeNonce [] (VNonce 3),
     sample_change StateChangeTypeStorage ''x'' (VBytes [1]),
     sample_change StateChangeTypeCode [] (VBytes [2, 3])]"

lemma sample_apply:
  "\<exists>stm. apply_changes 0 sample_changes (snd (CreateTransition 5 (NewStateTransitionManager sample_state))) = Inr (Inr stm)"
  by (simp add: sample_changes_def sample_change_def ApplyChange_def change_state_def change_balance_def change_nonce_def
      state_GetAccount_def as_value_def as_nonce_def as_bytes_def state_SetStorage_def state_SetCode_def state_SetAccount_def
      CreateTransition_def NewStateTransitionManager_def sample_state_def sample_accounts_def Let_def ghas_def gget_def gput_def)

theorem applied_transition_verifies_witness:
  "\<exists>stm. VerifyTransition stm (Some \<lparr>trn_block_number = 5, trn_changes = sample_changes\<rparr>) = Inr True
     \<and> apply_changes 0 sample_changes (snd (CreateTransition 5 (NewStateTransitionManager sample_state))) = Inr (Inr stm)"
proof -
  obtain stm where stm: "apply_changes 0 sample_changes (snd (CreateTransition 5 (NewStateTransitionManager sample_state))) = Inr (Inr stm)"
    using sample_apply by blast
  have cr: "CreateTransition 5 (NewStateTransitionManager sample_state) =
      (0, snd (CreateTransition 5 (NewStateTransitionManager sample_state)))"
    by (simp add: CreateTransition_def NewStateTransitionManager_def)
  have "distinct (map change_target sample_changes)" "\<forall>c \<in> set sample_changes. chg_type c \<noteq> None"
    by (simp_all add: sample_changes_def sample_change_def change_target_def)
  from applied_transition_verifies [OF cr stm this] show ?thesis
    using stm by auto
qed

end
