(* ===== verification/State_Commitment.thy ===== *)
theory State_Commitment
  imports State_Transition
begin

text \<open>
  \<open>internal/state/verifier.go\<close> and \<open>commitment.go\<close>: the state root, the consistency check,
  proofs and commitments.  \<open>sha\<close> is SHA-256.  The roots are hashed in the order in which
  \<open>range\<close> visits three maps, so they take that order as an argument.
\<close>

section \<open>Roots\<close>

record root_order =
  ro_accounts :: "address list"
  ro_storage :: "address list"
  ro_keys :: "address \<Rightarrow> string list"

definition LittleEndian :: "u64 \<Rightarrow> byte list" where
  "LittleEndian n = rev (uint64ToBytes n)"

definition root_account_bytes :: "address \<times> account \<Rightarrow> byte list" where
  "root_account_bytes x = (case x of (a, acc) \<Rightarrow> bytes_of a @ LittleEndian (acc_balance acc) @
     LittleEndian (acc_nonce acc) @ acc_code_hash acc @ acc_storage_root acc)"

definition root_slot_bytes :: "string list \<Rightarrow> (string, byte list) gomap \<Rightarrow> byte list" where
  "root_slot_bytes ord st = concat (map (\<lambda>(k, v). bytes_of k @ v) (range_items ord st))"

definition state_root_bytes :: "root_order \<Rightarrow> account_state \<Rightarrow> byte list" where
  "state_root_bytes ro s =
     concat (map root_account_bytes (range_items (ro_accounts ro) (as_accounts s))) @
     concat (map (\<lambda>(a, st). bytes_of a @ root_slot_bytes (ro_keys ro a) st) (range_items (ro_storage ro) (as_storage s)))"

definition calculateStateRoot :: "(byte list \<Rightarrow> hash) \<Rightarrow> root_order \<Rightarrow> account_state \<Rightarrow> hash" where
  "calculateStateRoot sha ro s = sha (state_root_bytes ro s)"

definition calculateStorageRoot :: "(byte list \<Rightarrow> hash) \<Rightarrow> string list \<Rightarrow> account_state \<Rightarrow> address \<Rightarrow> hash" where
  "calculateStorageRoot sha ord s a = sha (root_slot_bytes ord (slice_at (as_storage s) a))"

definition calculateCodeHash :: "(byte list \<Rightarrow> hash) \<Rightarrow> account_state \<Rightarrow> address \<Rightarrow> hash" where
  "calculateCodeHash sha s a = (let code = slice_at (slice_at (as_storage s) a) ''code''
     in if code = [] then replicate 32 0 else sha code)"

section \<open>The verifier\<close>

datatype verify_error = ErrInvalidStateRoot | ErrInconsistentState | ErrInvalidProof

definition VerifyStateRoot :: "(byte list \<Rightarrow> hash) \<Rightarrow> root_order \<Rightarrow> account_state \<Rightarrow> hash \<Rightarrow> verify_error option" where
  "VerifyStateRoot sha ro s root = (if calculateStateRoot sha ro s \<noteq> root then Some ErrInvalidStateRoot else None)"

definition account_consistent :: "(byte list \<Rightarrow> hash) \<Rightarrow> root_order \<Rightarrow> account_state \<Rightarrow> address \<times> account \<Rightarrow> bool" where
  "account_consistent sha ro s x = (case x of (a, acc) \<Rightarrow>
     calculateStorageRoot sha (ro_keys ro a) s a = acc_storage_root acc \<and> acc_code_hash acc = calculateCodeHash sha s a)"

definition VerifyConsistency :: "(byte list \<Rightarrow> hash) \<Rightarrow> root_order \<Rightarrow> account_state \<Rightarrow> verify_error option" where
  "VerifyConsistency sha ro s =
     (if list_all (account_consistent sha ro s) (range_items (ro_accounts ro) (as_accounts s)) then None
      else Some ErrInconsistentState)"

record proof_element =
  pe_type :: "proof_element_type option"
  pe_address :: address
  pe_storage_key :: string
  pe_value :: change_value

record state_proof =
  prf_elements :: "proof_element list"
  prf_root :: hash

definition verifyAccountProof ::
  "(byte list \<Rightarrow> hash) \<Rightarrow> account_state \<Rightarrow> proof_element \<Rightarrow> go_panic + verify_error option" where
  "verifyAccountProof sha s e = (case pe_value e of
     VAccount (Some acc) \<Rightarrow> (case gget (as_accounts s) (pe_address e) of
         None \<Rightarrow> Inl NilDereference
       | Some st \<Rightarrow>
           if acc_balance acc \<noteq> acc_balance st then Inr (Some ErrInvalidProof)
           else if acc_nonce acc \<noteq> acc_nonce st then Inr (Some ErrInvalidProof)
           else if acc_code_hash acc \<noteq> calculateCodeHash sha s (pe_address e) then Inr (Some ErrInvalidProof)
           else Inr None)
   | VAccount None \<Rightarrow> Inl NilDereference
   | _ \<Rightarrow> Inr (Some ErrInvalidProof))"

definition verifyBytesProof :: "byte list \<Rightarrow> change_value \<Rightarrow> verify_error option" where
  "verifyBytesProof stored v = (case v of
     VBytes bs \<Rightarrow> if bs \<noteq> stored then Some ErrInvalidProof else None
   | _ \<Rightarrow> Some ErrInvalidProof)"

definition verifyStorageProof :: "account_state \<Rightarrow> proof_element \<Rightarrow> verify_error option" where
  "verifyStorageProof s e = verifyBytesProof (slice_at (slice_at (as_storage s) (pe_address e)) (pe_storage_key e)) (pe_value e)"

definition verifyCodeProof :: "account_state \<Rightarrow> proof_element \<Rightarrow> verify_error option" where
  "verifyCodeProof s e = verifyBytesProof (slice_at (slice_at (as_storage s) (pe_address e)) ''code'') (pe_value e)"

definition verifyElement ::
  "(byte list \<Rightarrow> hash) \<Rightarrow> account_state \<Rightarrow> proof_element \<Rightarrow> go_panic + verify_error option" where
  "verifyElement sha s e = (case pe_type e of
     Some ProofElementTypeAccount \<Rightarrow> verifyAccountProof sha s e
   | Some ProofElementTypeStorage \<Rightarrow> Inr (verifyStorageProof s e)
   | Some ProofElementTypeCode \<Rightarrow> Inr (verifyCodeProof s e)
   | None \<Rightarrow> Inr (Some ErrInvalidProof))"

fun verify_elements ::
  "(byte list \<Rightarrow> hash) \<Rightarrow> account_state \<Rightarrow> proof_element list \<Rightarrow> go_panic + verify_error option" where
  "verify_elements sha s [] = Inr None"
| "verify_elements sha s (e # es) = (case verifyElement sha s e of
     Inr None \<Rightarrow> verify_elements sha s es
   | r \<Rightarrow> r)"

definition VerifyProof ::
  "(byte list \<Rightarrow> hash) \<Rightarrow> account_state \<Rightarrow> state_proof option \<Rightarrow> go_panic + verify_error option" where
  "VerifyProof sha s p = (case p of None \<Rightarrow> Inr (Some ErrInvalidProof) | Some prf \<Rightarrow> verify_elements sha s (prf_elements prf))"

section \<open>The committer\<close>

record state_commitment =
  com_state_root :: hash
  com_block_number :: u64
  com_time :: int
  com_changes :: "state_change list"
  com_proof :: "state_proof option"

record state_committer =
  sct_commitments :: "state_commitment list"
  sct_state :: account_state

definition NewStateCommitter :: "account_state \<Rightarrow> state_committer" where
  "NewStateCommitter s = \<lparr>sct_commitments = [], sct_state = s\<rparr>"

definition getProofElementType :: "state_change_type option \<Rightarrow> proof_element_type" where
  "getProofElementType t = (case t of
     Some StateChangeTypeAccount \<Rightarrow> ProofElementTypeAccount
   | Some StateChangeTypeStorage \<Rightarrow> ProofElementTypeStorage
   | Some StateChangeTypeCode \<Rightarrow> ProofElementTypeCode
   | _ \<Rightarrow> ProofElementTypeAccount)"

definition generateProof ::
  "(byte list \<Rightarrow> hash) \<Rightarrow> root_order \<Rightarrow> account_state \<Rightarrow> state_change list \<Rightarrow> state_proof" where
  "generateProof sha ro s changes = \<lparr>prf_elements = map (\<lambda>c. \<lparr>pe_type = Some (getProofElementType (chg_type c)),
       pe_address = chg_address c, pe_storage_key = chg_storage_key c, pe_value = chg_new_value c\<rparr>) changes,
     prf_root = calculateStateRoot sha ro s\<rparr>"

text \<open>\<open>CommitState\<close> computes the root twice, each time in an order of its own; \<open>now\<close> is
  \<open>time.Now()\<close>.\<close>

definition CommitState ::
  "(byte list \<Rightarrow> hash) \<Rightarrow> root_order \<Rightarrow> root_order \<Rightarrow> int \<Rightarrow> u64 \<Rightarrow> state_change list \<Rightarrow> state_committer \<Rightarrow>
     state_commitment \<times> state_committer" where
  "CommitState sha ro1 ro2 now n changes sc =
     (let c = \<lparr>com_state_root = calculateStateRoot sha ro1 (sct_state sc), com_block_number = n, com_time = now,
                com_changes = changes, com_proof = Some (generateProof sha ro2 (sct_state sc) changes)\<rparr>
      in (c, sc\<lparr>sct_commitments := sct_commitments sc @ [c]\<rparr>))"

definition GetCommitment :: "state_committer \<Rightarrow> u64 \<Rightarrow> state_commitment option" where
  "GetCommitment sc n = find (\<lambda>c. com_block_number c = n) (sct_commitments sc)"

definition GetLatestCommitment :: "state_committer \<Rightarrow> state_commitment option" where
  "GetLatestCommitment sc = (if sct_commitments sc = [] then None else Some (last (sct_commitments sc)))"

definition VerifyCommitment ::
  "(byte list \<Rightarrow> hash) \<Rightarrow> state_committer \<Rightarrow> state_commitment option \<Rightarrow> go_panic + bool" where
  "VerifyCommitment sha sc c = (case c of
     None \<Rightarrow> Inr False
   | Some com \<Rightarrow> map_sum id (\<lambda>e. e = None) (VerifyProof sha (sct_state sc) (com_proof com)))"

definition committer_verifyChange :: "state_committer \<Rightarrow> state_change \<Rightarrow> go_panic + bool" where
  "committer_verifyChange sc c = (case chg_type c of
     Some StateChangeTypeAccount \<Rightarrow> check_balance (sct_state sc) (chg_address c) (chg_new_value c)
   | Some StateChangeTypeStorage \<Rightarrow>
       check_bytes (state_GetStorage (sct_state sc) (bytes_of (chg_address c)) (bytes_of (chg_storage_key c))) (chg_new_value c)
   | Some StateChangeTypeCode \<Rightarrow> check_bytes (state_GetCode (sct_state sc) (bytes_of (chg_address c))) (chg_new_value c)
   | Some StateChangeTypeBalance \<Rightarrow> check_balance (sct_state sc) (chg_address c) (chg_new_value c)
   | Some StateChangeTypeNonce \<Rightarrow> check_nonce (sct_state sc) (chg_address c) (chg_new_value c)
   | None \<Rightarrow> Inr False)"

section \<open>Lemmas\<close>

lemma committer_verifyChange_eq: "committer_verifyChange sc = verifyChange (sct_state sc)"
  by (simp add: fun_eq_iff committer_verifyChange_def verifyChange_def)

text \<open>A change that holds in the state, as seen by the proof check: only storage and code pass.\<close>

definition slot_change :: "state_change \<Rightarrow> bool" where
  "slot_change c = (chg_type c = Some StateChangeTypeStorage \<or> chg_type c = Some StateChangeTypeCode)"

lemma verifyChange_element:
  assumes "verifyChange s c = Inr True"
  shows "verifyElement sha s \<lparr>pe_type = Some (getProofElementType (chg_type c)), pe_address = chg_address c,
      pe_storage_key = chg_storage_key c, pe_value = chg_new_value c\<rparr> =
    Inr (if slot_change c then None else Some ErrInvalidProof)"
  using assms
  by (auto simp: verifyChange_def verifyElement_def getProofElementType_def slot_change_def check_balance_def check_nonce_def
      check_bytes_def as_value_def as_nonce_def as_bytes_def verifyAccountProof_def verifyStorageProof_def verifyCodeProof_def
      verifyBytesProof_def slice_at_def
      split: option.splits state_change_type.splits sum.splits change_value.splits if_splits)

lemma verify_elements_changes:
  assumes "\<forall>c \<in> set cs. verifyChange s c = Inr True"
  shows "verify_elements sha s (prf_elements (generateProof sha ro s cs)) =
    Inr (if list_all slot_change cs then None else Some ErrInvalidProof)"
  using assms by (induction cs) (auto simp: generateProof_def verifyChange_element)

lemma length_calculateCodeHash: "(\<And>x. length (sha x) = 32) \<Longrightarrow> length (calculateCodeHash sha s a) = 32"
  by (simp add: calculateCodeHash_def Let_def)

text \<open>No account made by \<open>CreateAccount\<close> or as the recipient of a transfer is consistent: its code
  hash is empty and the computed one has 32 bytes.\<close>

lemma fresh_account_inconsistent:
  assumes "\<And>x. length (sha x) = 32" "range_order (ro_accounts ro) (as_accounts s)"
    and "gget (as_accounts s) a = Some acc" "acc_code_hash acc = []"
  shows "VerifyConsistency sha ro s = Some ErrInconsistentState"
proof -
  have "(a, acc) \<in> set (range_items (ro_accounts ro) (as_accounts s))"
    using assms(2,3) by (simp add: set_range_items range_order_def gkeys_iff)
  moreover have "calculateCodeHash sha s a \<noteq> []"
    using length_calculateCodeHash [of sha s a, OF assms(1)] by auto
  then have "\<not> account_consistent sha ro s (a, acc)"
    using assms(4) by (simp add: account_consistent_def)
  ultimately show ?thesis
    unfolding VerifyConsistency_def list_all_iff by metis
qed

lemma root_account_bytes_neq:
  assumes "length a = length b" "a \<noteq> b"
  shows "root_account_bytes (a, x) @ xs \<noteq> root_account_bytes (b, y) @ ys"
  using assms by (simp add: root_account_bytes_def append_eq_append_conv bytes_of_inj)

section \<open>Properties\<close>

text \<open>The proof of a commitment is checked against a different encoding than the one it was
  made with.  For changes that all hold in the state, \<open>VerifyCommitment\<close> of the commitment
  just made is true exactly when every change is a storage or a code change: a balance,
  nonce or account change carries a number where the check wants an account.\<close>

theorem commitment_verifies_slots_only:
  assumes "\<forall>c \<in> set cs. verifyChange (sct_state sc) c = Inr True"
    and "CommitState sha ro1 ro2 now n cs sc = (com, sc')"
  shows "VerifyCommitment sha sc' (Some com) = Inr (list_all slot_change cs)"
proof -
  have "com_proof com = Some (generateProof sha ro2 (sct_state sc) cs)" "sct_state sc' = sct_state sc"
    using assms(2) by (auto simp: CommitState_def Let_def)
  then show ?thesis
    using verify_elements_changes [OF assms(1), of sha ro2] by (simp add: VerifyCommitment_def VerifyProof_def)
qed

definition sample_order :: root_order where
  "sample_order = \<lparr>ro_accounts = [''alice''], ro_storage = [''alice''], ro_keys = (\<lambda>_. [])\<rparr>"

theorem commitment_verifies_slots_only_witness:
  "verifyChange sample_state (sample_change StateChangeTypeBalance [] (VValue 10)) = Inr True \<and>
   (let (com, sc) = CommitState id sample_order sample_order 0 1
        [sample_change StateChangeTypeBalance [] (VValue 10)] (NewStateCommitter sample_state)
    in VerifyCommitment id sc (Some com) = Inr False)"
proof -
  let ?c = "sample_change StateChangeTypeBalance [] (VValue 10)"
  have v: "verifyChange sample_state ?c = Inr True"
    by (simp add: verifyChange_def sample_change_def check_balance_def as_value_def state_GetAccount_def sample_state_def
        sample_accounts_def gget_def plain_account_def)
  then have "\<forall>c \<in> set [?c]. verifyChange (sct_state (NewStateCommitter sample_state)) c = Inr True"
    by (simp add: NewStateCommitter_def)
  from commitment_verifies_slots_only [OF this] show ?thesis
    using v by (simp add: case_prod_beta slot_change_def sample_change_def)
qed

text \<open>The state root is not a function of the state: two accounts with different addresses
  of the same length are enough for two visiting orders of the account map with different
  hashed bytes, so, unless SHA-256 collides on them, \<open>VerifyStateRoot\<close> can reject the root that
  was just computed from the same state.\<close>

theorem state_root_depends_on_order:
  assumes "state_reachable s" "a \<in> gkeys (as_accounts s)" "b \<in> gkeys (as_accounts s)" "a \<noteq> b" "length a = length b"
  shows "\<exists>ord1 ord2. range_order ord1 (as_accounts s) \<and> range_order ord2 (as_accounts s) \<and>
    state_root_bytes (ro\<lparr>ro_accounts := ord1\<rparr>) s \<noteq> state_root_bytes (ro\<lparr>ro_accounts := ord2\<rparr>) s \<and>
    (sha (state_root_bytes (ro\<lparr>ro_accounts := ord1\<rparr>) s) \<noteq> sha (state_root_bytes (ro\<lparr>ro_accounts := ord2\<rparr>) s) \<longrightarrow>
     VerifyStateRoot sha (ro\<lparr>ro_accounts := ord2\<rparr>) s
       (calculateStateRoot sha (ro\<lparr>ro_accounts := ord1\<rparr>) s) = Some ErrInvalidStateRoot)"
proof -
  obtain x y where xy: "gget (as_accounts s) a = Some x" "gget (as_accounts s) b = Some y"
    using assms by (auto simp: gkeys_iff)
  obtain rest where rest: "set rest = gkeys (as_accounts s) - {a, b}" "distinct rest"
    using finite_distinct_list [of "gkeys (as_accounts s) - {a, b}"] by auto
  have ord: "range_order (a # b # rest) (as_accounts s)" "range_order (b # a # rest) (as_accounts s)"
    using rest assms by (auto simp: range_order_def)
  have neq: "state_root_bytes (ro\<lparr>ro_accounts := a # b # rest\<rparr>) s \<noteq> state_root_bytes (ro\<lparr>ro_accounts := b # a # rest\<rparr>) s"
    using xy root_account_bytes_neq [OF assms(5,4)] by (simp add: state_root_bytes_def)
  show ?thesis
    by (intro exI [of _ "a # b # rest"] exI [of _ "b # a # rest"])
      (use ord neq in \<open>simp add: VerifyStateRoot_def calculateStateRoot_def\<close>)
qed

definition sample_two_accounts :: account_state where
  "sample_two_accounts = state_SetAccount ''carol'' (plain_account ''carol'' 0 0) sample_state"

theorem state_root_depends_on_order_witness:
  "\<exists>ord1 ord2. range_order ord1 (as_accounts sample_two_accounts) \<and> range_order ord2 (as_accounts sample_two_accounts) \<and>
     state_root_bytes (sample_order\<lparr>ro_accounts := ord1\<rparr>) sample_two_accounts
     \<noteq> state_root_bytes (sample_order\<lparr>ro_accounts := ord2\<rparr>) sample_two_accounts"
proof -
  have reach: "state_reachable sample_two_accounts"
    unfolding sample_two_accounts_def by (intro state_reachable.set_account sample_state_reachable)
  have keys: "''alice'' \<in> gkeys (as_accounts sample_two_accounts)" "''carol'' \<in> gkeys (as_accounts sample_two_accounts)"
    by (simp_all add: sample_two_accounts_def state_SetAccount_def sample_state_def sample_accounts_def gkeys_def [of "[_]"])
  have "''alice'' \<noteq> ''carol''" "length ''alice'' = length ''carol''"
    by simp_all
  from state_root_depends_on_order [OF reach keys this, of sample_order] show ?thesis
    by blast
qed

end
