(* ===== verification/Wave_State.thy ===== *)
theory Wave_State
  imports Leader
begin

text \<open>
  The parts of \<open>internal/consensus\<close> that the consensus engine is built from: the state of
  a wave (\<open>wave.go\<close>), the configuration (\<open>config.go\<close>), certificates (\<open>finalization.go\<close>)
  and complaints (\<open>safety.go\<close>).  \<open>WaveState.votes\<close> is keyed by strings: \<open>AddVote\<close> uses
  the voter's address as key, \<open>AddProposalVote\<close> the proposal id.
\<close>

section \<open>\<open>Config\<close>\<close>

record engine_config =
  ec_node_id :: string
  ec_wave_timeout :: int
  ec_round_duration :: int
  ec_validator_set :: "address list"
  ec_quorum_size :: int
  ec_listen_addr :: address
  ec_seeds :: "address list"
  ec_total_validators :: int

datatype load_error =
    ConfigRead | ConfigParse | InvalidWaveTimeout | InvalidRoundDuration | NodeIdRequired | ListenAddrRequired

text \<open>The YAML document: the same fields, with durations as text.\<close>

record raw_config =
  raw_node_id :: string
  raw_wave_timeout :: string
  raw_round_duration :: string
  raw_validator_set :: "string list"
  raw_quorum_size :: int
  raw_listen_addr :: string
  raw_seeds :: "string list"
  raw_total_validators :: int

text \<open>\<open>LoadConfig\<close>: \<open>yaml\<close> parses the file, \<open>dur\<close> is \<open>time.ParseDuration\<close>.\<close>

definition LoadConfig ::
  "(byte list \<Rightarrow> raw_config option) \<Rightarrow> (string \<Rightarrow> int option) \<Rightarrow> byte list option \<Rightarrow> load_error + engine_config" where
  "LoadConfig yaml dur file = (case file of
     None \<Rightarrow> Inl ConfigRead
   | Some d \<Rightarrow> (case yaml d of
       None \<Rightarrow> Inl ConfigParse
     | Some r \<Rightarrow> (case dur (raw_wave_timeout r) of
         None \<Rightarrow> Inl InvalidWaveTimeout
       | Some wt \<Rightarrow> (case dur (raw_round_duration r) of
           None \<Rightarrow> Inl InvalidRoundDuration
         | Some rd \<Rightarrow>
             if raw_node_id r = [] then Inl NodeIdRequired
             else if raw_listen_addr r = [] then Inl ListenAddrRequired
             else Inr \<lparr>ec_node_id = raw_node_id r, ec_wave_timeout = wt, ec_round_duration = rd,
                       ec_validator_set = raw_validator_set r, ec_quorum_size = raw_quorum_size r,
                       ec_listen_addr = raw_listen_addr r, ec_seeds = raw_seeds r,
                       ec_total_validators = raw_total_validators r\<rparr>))))"

definition NewConfig :: engine_config where
  "NewConfig = \<lparr>ec_node_id = [], ec_wave_timeout = 30000000000, ec_round_duration = 2000000000,
     ec_validator_set = [], ec_quorum_size = 7, ec_listen_addr = [], ec_seeds = [], ec_total_validators = 10\<rparr>"

datatype engine_config_error =
    WaveTimeoutNotPositive | RoundDurationNotPositive | NoValidators | QuorumSizeInvalid
  | ListenAddrEmpty | TotalValidatorsNotPositive

definition config_Validate :: "engine_config \<Rightarrow> engine_config_error option" where
  "config_Validate c =
     (if ec_wave_timeout c \<le> 0 then Some WaveTimeoutNotPositive
      else if ec_round_duration c \<le> 0 then Some RoundDurationNotPositive
      else if length (ec_validator_set c) = 0 then Some NoValidators
      else if ec_quorum_size c \<le> 0 \<or> ec_quorum_size c > int (length (ec_validator_set c)) then Some QuorumSizeInvalid
      else if ec_listen_addr c = [] then Some ListenAddrEmpty
      else if ec_total_validators c \<le> 0 then Some TotalValidatorsNotPositive
      else None)"

section \<open>\<open>WaveState\<close>\<close>

record wave_state =
  ws_number :: u64
  ws_start :: int
  ws_end :: int
  ws_status :: wave_status
  ws_leader :: address
  ws_proposals :: "(hash, proposal) gomap"
  ws_votes :: "(string, (address, vote) gomap) gomap"
  ws_quorum :: int

datatype wave_state_error = ErrInvalidWaveState

definition NewWaveState :: "int \<Rightarrow> u64 \<Rightarrow> int \<Rightarrow> int \<Rightarrow> wave_state" where
  "NewWaveState now n timeout quorum = \<lparr>ws_number = n, ws_start = now, ws_end = now + timeout,
     ws_status = WaveStatusProposing, ws_leader = [], ws_proposals = [], ws_votes = [], ws_quorum = quorum\<rparr>"

definition ws_GetWaveNumber :: "wave_state \<Rightarrow> u64" where
  "ws_GetWaveNumber w = ws_number w"

definition ws_GetProposals :: "wave_state \<Rightarrow> (hash, proposal) gomap" where
  "ws_GetProposals w = ws_proposals w"

definition ws_IsTimedOut :: "int \<Rightarrow> wave_state \<Rightarrow> bool" where
  "ws_IsTimedOut now w = (now > ws_end w)"

definition ws_AddVote :: "address \<Rightarrow> wave_state \<Rightarrow> wave_state" where
  "ws_AddVote v w = w\<lparr>ws_votes := gput v [] (ws_votes w)\<rparr>"

definition ws_GetVotes :: "wave_state \<Rightarrow> (address, bool) gomap" where
  "ws_GetVotes w = gmap_vals (\<lambda>_. True) (ws_votes w)"

definition ws_GetStatus :: "wave_state \<Rightarrow> wave_status" where
  "ws_GetStatus w = ws_status w"

definition ws_SetStatus :: "wave_status \<Rightarrow> wave_state \<Rightarrow> wave_state" where
  "ws_SetStatus s w = w\<lparr>ws_status := s\<rparr>"

definition ws_GetLeader :: "wave_state \<Rightarrow> address" where
  "ws_GetLeader w = ws_leader w"

definition ws_SetLeader :: "address \<Rightarrow> wave_state \<Rightarrow> wave_state" where
  "ws_SetLeader l w = w\<lparr>ws_leader := l\<rparr>"

definition ws_AddProposal :: "proposal \<Rightarrow> wave_state \<Rightarrow> wave_state_error + wave_state" where
  "ws_AddProposal p w = (if ws_status w \<noteq> WaveStatusProposing then Inl ErrInvalidWaveState
     else Inr (w\<lparr>ws_proposals := gput (prop_id p) p (ws_proposals w)\<rparr>))"

definition ws_AddProposalVote :: "vote \<Rightarrow> wave_state \<Rightarrow> wave_state_error + wave_state" where
  "ws_AddProposalVote v w = (if ws_status w \<noteq> WaveStatusVoting then Inl ErrInvalidWaveState
     else let k = string_of_bytes (vote_proposal_id v)
          in Inr (w\<lparr>ws_votes := gput k (gput (vote_validator v) v (slice_at (ws_votes w) k)) (ws_votes w)\<rparr>))"

definition ws_GetProposal :: "wave_state \<Rightarrow> hash \<Rightarrow> proposal option" where
  "ws_GetProposal w h = gget (ws_proposals w) h"

definition ws_GetProposalVotes :: "wave_state \<Rightarrow> hash \<Rightarrow> (address, vote) gomap" where
  "ws_GetProposalVotes w h = slice_at (ws_votes w) (string_of_bytes h)"

definition ws_HasQuorum :: "wave_state \<Rightarrow> hash \<Rightarrow> bool" where
  "ws_HasQuorum w h = (int (glen (slice_at (ws_votes w) (string_of_bytes h))) \<ge> ws_quorum w)"

section \<open>\<open>BlockFinalizer\<close>\<close>

type_synonym block_finalizer = "(hash, certificate) gomap"

definition NewBlockFinalizer :: block_finalizer where
  "NewBlockFinalizer = []"

definition AddCertificate :: "certificate \<Rightarrow> block_finalizer \<Rightarrow> block_finalizer" where
  "AddCertificate c bf = gput (cert_block_hash c) c bf"

definition GetCertificate :: "block_finalizer \<Rightarrow> hash \<Rightarrow> certificate option" where
  "GetCertificate bf h = gget bf h"

definition requiredSignatures :: nat where
  "requiredSignatures = 2 * 33 + 1"

definition IsFinalized :: "block_finalizer \<Rightarrow> hash \<Rightarrow> bool" where
  "IsFinalized bf h = (case gget bf h of None \<Rightarrow> False | Some c \<Rightarrow> length (cert_signatures c) \<ge> requiredSignatures)"

definition GetFinalizedBlocks :: "hash list \<Rightarrow> block_finalizer \<Rightarrow> hash list" where
  "GetFinalizedBlocks ord bf = map fst (filter (\<lambda>(h, c). length (cert_signatures c) \<ge> requiredSignatures) (range_items ord bf))"

section \<open>\<open>SafetySystem\<close>\<close>

record safety_complaint =
  scm_block_hash :: hash
  scm_validator :: string
  scm_reason :: string
  scm_time :: int
  scm_signature :: signature

record safety_system =
  ss_complaints :: "(hash, safety_complaint list) gomap"
  ss_timeouts :: "(hash, int) gomap"
  ss_recovery :: "(hash, bool) gomap"

definition NewSafetySystem :: safety_system where
  "NewSafetySystem = \<lparr>ss_complaints = [], ss_timeouts = [], ss_recovery = []\<rparr>"

definition AddComplaint :: "safety_complaint \<Rightarrow> safety_system \<Rightarrow> safety_system" where
  "AddComplaint c ss = ss\<lparr>ss_complaints := gappend (scm_block_hash c) c (ss_complaints ss)\<rparr>"

definition GetComplaints :: "safety_system \<Rightarrow> hash \<Rightarrow> safety_complaint list" where
  "GetComplaints ss h = slice_at (ss_complaints ss) h"

definition SetTimeout :: "hash \<Rightarrow> int \<Rightarrow> safety_system \<Rightarrow> safety_system" where
  "SetTimeout h t ss = ss\<lparr>ss_timeouts := gput h t (ss_timeouts ss)\<rparr>"

definition CheckTimeout :: "int \<Rightarrow> safety_system \<Rightarrow> hash \<Rightarrow> bool" where
  "CheckTimeout now ss h = (case gget (ss_timeouts ss) h of None \<Rightarrow> False | Some t \<Rightarrow> now > t)"

definition StartRecovery :: "hash \<Rightarrow> safety_system \<Rightarrow> safety_system" where
  "StartRecovery h ss = ss\<lparr>ss_recovery := gput h True (ss_recovery ss)\<rparr>"

definition IsInRecovery :: "safety_system \<Rightarrow> hash \<Rightarrow> bool" where
  "IsInRecovery ss h = (case gget (ss_recovery ss) h of None \<Rightarrow> False | Some b \<Rightarrow> b)"

definition CompleteRecovery :: "hash \<Rightarrow> safety_system \<Rightarrow> safety_system" where
  "CompleteRecovery h ss = ss\<lparr>ss_recovery := gdel h (ss_recovery ss)\<rparr>"

definition GetRecoveryBlocks :: "hash list \<Rightarrow> safety_system \<Rightarrow> hash list" where
  "GetRecoveryBlocks ord ss = map fst (range_items ord (ss_recovery ss))"

definition HasFaultyBehavior :: "hash list \<Rightarrow> safety_system \<Rightarrow> string \<Rightarrow> int \<Rightarrow> bool" where
  "HasFaultyBehavior ord ss v tolerance =
     (int (length (filter (\<lambda>c. scm_validator c = v) (concat (range_vals ord (ss_complaints ss))))) > tolerance)"

section \<open>Lemmas\<close>

text \<open>Recovery is a set of block hashes: what was started and not completed.\<close>

lemma recovery_simps:
  "IsInRecovery (StartRecovery h ss) h' \<longleftrightarrow> h' = h \<or> IsInRecovery ss h'"
  "IsInRecovery (CompleteRecovery h ss) h' \<longleftrightarrow> h' \<noteq> h \<and> IsInRecovery ss h'"
  by (simp_all add: IsInRecovery_def StartRecovery_def CompleteRecovery_def)

lemma GetComplaints_AddComplaint:
  "GetComplaints (AddComplaint c ss) h = GetComplaints ss h @ (if h = scm_block_hash c then [c] else [])"
  by (simp add: GetComplaints_def AddComplaint_def)

lemma concat_range_perm:
  assumes "gwf m" "range_order ord m" "range_order ord' m"
  shows "mset (concat (range_vals ord m)) = mset (concat (range_vals ord' m))"
proof -
  have "mset (range_vals ord m) = mset (range_vals ord' m)"
    unfolding range_vals_items mset_map using assms by (simp add: mset_range_items)
  then show ?thesis
    by (metis mset_concat mset_map sum_mset_sum_list)
qed

text \<open>The count of complaints does not depend on the order of the map.\<close>

lemma HasFaultyBehavior_order:
  assumes "gwf (ss_complaints ss)" "range_order ord (ss_complaints ss)" "range_order ord' (ss_complaints ss)"
  shows "HasFaultyBehavior ord ss v t = HasFaultyBehavior ord' ss v t"
  using concat_range_perm [OF assms] unfolding HasFaultyBehavior_def by (metis mset_filter size_mset)

text \<open>\<open>GetFinalizedBlocks\<close> lists the hashes that \<open>IsFinalized\<close> accepts.\<close>

lemma GetFinalizedBlocks_exact:
  assumes "range_order ord bf"
  shows "set (GetFinalizedBlocks ord bf) = {h. IsFinalized bf h}"
proof -
  have "h \<in> set ord \<longleftrightarrow> gget bf h \<noteq> None" for h
    using assms by (simp add: range_order_def gkeys_iff)
  then show ?thesis
    by (force simp: GetFinalizedBlocks_def IsFinalized_def set_range_items split: option.splits)
qed

text \<open>The 67 signatures are fixed; a network whose validators are fewer finalises nothing with
  certificates that carry one signature each.\<close>

lemma small_network_never_finalised:
  "length (cert_signatures c) < 67 \<Longrightarrow> \<not> IsFinalized (AddCertificate c bf) (cert_block_hash c)"
  by (simp add: IsFinalized_def AddCertificate_def requiredSignatures_def)

end
