(* ===== verification/Mempool.thy ===== *)
theory Mempool
  imports Chain_Types
begin

text \<open>
  The two transaction pools: \<open>Mempool\<close> of \<open>core/block_processor.go\<close>, filled through a
  channel by worker goroutines, and \<open>SimplePool\<close> of \<open>transaction/simple_pool.go\<close>.
  Transactions live in a heap, because their \<open>State\<close>, \<open>Timestamp\<close> and cached hash are
  written through shared pointers.  One step of a worker, under the mutex, is one
  operation; the channel is a queue of bounded length.
\<close>

section \<open>\<open>Mempool\<close>\<close>

record mempool =
  mp_transactions :: "(hash, tref) gomap"
  mp_workers :: int
  mp_batchSize :: int
  mp_maxSize :: u64
  mp_work :: "tref list"

record mempool_config =
  mc_workers :: int
  mc_batchSize :: u64
  mc_maxSize :: u64

text \<open>\<open>NewMempoolWithConfig\<close>; \<open>cpus\<close> is \<open>runtime.NumCPU()\<close>.\<close>

definition NewMempoolWithConfig :: "int \<Rightarrow> mempool_config \<Rightarrow> mempool" where
  "NewMempoolWithConfig cpus c =
     \<lparr>mp_transactions = [],
      mp_workers = (if mc_workers c \<le> 0 then cpus else mc_workers c),
      mp_batchSize = (if go_int (mc_batchSize c) \<le> 0 then 1000 else go_int (mc_batchSize c)),
      mp_maxSize = (if mc_maxSize c = 0 then 200000 else mc_maxSize c),
      mp_work = []\<rparr>"

definition NewMempool :: "int \<Rightarrow> mempool" where
  "NewMempool cpus = NewMempoolWithConfig cpus \<lparr>mc_workers = 16, mc_batchSize = 1000, mc_maxSize = 200000\<rparr>"

text \<open>The send on \<open>workChan\<close>, whose buffer holds \<open>maxSize / 10\<close>; on a full buffer the caller
  waits, which is \<open>None\<close>.\<close>

definition mp_AddTransaction :: "tref \<Rightarrow> mempool \<Rightarrow> mempool option" where
  "mp_AddTransaction t mp =
     (if length (mp_work mp) < unat (mp_maxSize mp div 10) then Some (mp\<lparr>mp_work := mp_work mp @ [t]\<rparr>) else None)"

text \<open>One round of \<open>worker\<close>: the transaction at the head of the channel enters the map under
  its hash, which \<open>GetHash\<close> caches.\<close>

definition mp_worker ::
  "(byte list \<Rightarrow> hash) \<Rightarrow> int \<Rightarrow> tx_heap \<times> mempool \<Rightarrow> tx_heap \<times> mempool" where
  "mp_worker sha now s = (case s of (th, mp) \<Rightarrow> (case mp_work mp of
     [] \<Rightarrow> (th, mp)
   | t # rest \<Rightarrow>
       let tx1 = (if tx_time (th t) = zero_time then (th t)\<lparr>tx_time := now\<rparr> else th t);
           (h, tx2) = tx_GetHash sha tx1
       in (th(t := tx2), mp\<lparr>mp_work := rest, mp_transactions := gput h t (mp_transactions mp)\<rparr>)))"

text \<open>\<open>getBatchedTransactions\<close>: the loop keeps the result and the current batch.\<close>

definition batch_step :: "int \<Rightarrow> tref \<Rightarrow> tref list \<times> tref list \<Rightarrow> tref list \<times> tref list" where
  "batch_step n t s = (case s of (txs, batch) \<Rightarrow>
     let batch1 = batch @ [t]
     in if int (length batch1) \<ge> n then (txs @ batch1, []) else (txs, batch1))"

definition getBatchedTransactions :: "tref list \<Rightarrow> int \<Rightarrow> tref list" where
  "getBatchedTransactions ts n = (let (txs, batch) = fold (batch_step n) ts ([], [])
     in if length batch > 0 then txs @ batch else txs)"

definition mp_GetTransactions :: "hash list \<Rightarrow> mempool \<Rightarrow> tref list" where
  "mp_GetTransactions ord mp =
     (if int (glen (mp_transactions mp)) > mp_batchSize mp
      then getBatchedTransactions (range_vals ord (mp_transactions mp)) (mp_batchSize mp)
      else range_vals ord (mp_transactions mp))"

text \<open>The exchange sort of \<open>GetTopTransactions\<close>, on indices as in the code.\<close>

definition exchange :: "(tref \<Rightarrow> u64) \<Rightarrow> nat \<Rightarrow> nat \<Rightarrow> tref list \<Rightarrow> tref list" where
  "exchange price i j ts = (if price (ts ! i) < price (ts ! j) then ts[i := ts ! j, j := ts ! i] else ts)"

definition exchange_pass :: "(tref \<Rightarrow> u64) \<Rightarrow> nat \<Rightarrow> tref list \<Rightarrow> tref list" where
  "exchange_pass price i ts = fold (exchange price i) [Suc i..<length ts] ts"

definition exchange_sort :: "(tref \<Rightarrow> u64) \<Rightarrow> tref list \<Rightarrow> tref list" where
  "exchange_sort price ts = fold (exchange_pass price) [0..<length ts - 1] ts"

text \<open>\<open>TransactionPriorityHeap\<close>, the methods for \<open>container/heap\<close>, which nothing calls: an index out of range
  and a pop from an empty slice panic.\<close>

definition heap_Less :: "tx_heap \<Rightarrow> tref list \<Rightarrow> nat \<Rightarrow> nat \<Rightarrow> go_panic + bool" where
  "heap_Less th h i j = (if i < length h \<and> j < length h then Inr (tx_gas_price (th (h ! i)) > tx_gas_price (th (h ! j)))
     else Inl IndexOutOfRange)"

definition heap_Swap :: "tref list \<Rightarrow> nat \<Rightarrow> nat \<Rightarrow> go_panic + tref list" where
  "heap_Swap h i j = (if i < length h \<and> j < length h then Inr (h[i := h ! j, j := h ! i]) else Inl IndexOutOfRange)"

definition heap_Push :: "tref list \<Rightarrow> tref \<Rightarrow> tref list" where
  "heap_Push h x = h @ [x]"

definition heap_Pop :: "tref list \<Rightarrow> go_panic + tref \<times> tref list" where
  "heap_Pop h = (if h = [] then Inl IndexOutOfRange else Inr (last h, butlast h))"

definition mp_GetTopTransactions :: "hash list \<Rightarrow> tx_heap \<Rightarrow> u64 \<Rightarrow> mempool \<Rightarrow> tref list" where
  "mp_GetTopTransactions ord th maxCount mp =
     (if maxCount = 0 then mp_GetTransactions ord mp
      else let allTxs = exchange_sort (\<lambda>t. tx_gas_price (th t))
                 (filter (\<lambda>t. tx_state (th t) = TransactionStatePending) (range_vals ord (mp_transactions mp)))
           in if word_of_nat (length allTxs) > maxCount then take (unat maxCount) allTxs else allTxs)"

text \<open>\<open>RemoveTransactions\<close> deletes from one goroutine per transaction; the deletions commute,
  and the model runs them in order.\<close>

definition mp_remove_one ::
  "(byte list \<Rightarrow> hash) \<Rightarrow> tref \<Rightarrow> tx_heap \<times> mempool \<Rightarrow> tx_heap \<times> mempool" where
  "mp_remove_one sha t s = (case s of (th, mp) \<Rightarrow>
     let (h, tx) = tx_GetHash sha (th t)
     in (th(t := tx), mp\<lparr>mp_transactions := gdel h (mp_transactions mp)\<rparr>))"

definition mp_RemoveTransactions ::
  "(byte list \<Rightarrow> hash) \<Rightarrow> tref list \<Rightarrow> tx_heap \<times> mempool \<Rightarrow> tx_heap \<times> mempool" where
  "mp_RemoveTransactions sha ts s = fold (mp_remove_one sha) ts s"

section \<open>\<open>SimplePool\<close>\<close>

record simple_pool =
  sp_txs :: "(hash, tref) gomap"
  sp_maxSize :: int

datatype pool_error = ErrPoolFull | ErrDuplicateTx

definition NewSimplePool :: simple_pool where
  "NewSimplePool = \<lparr>sp_txs = [], sp_maxSize = 10000\<rparr>"

definition sp_Add ::
  "(byte list \<Rightarrow> hash) \<Rightarrow> tref \<Rightarrow> tx_heap \<times> simple_pool \<Rightarrow> (tx_heap \<times> simple_pool) \<times> pool_error option" where
  "sp_Add sha t s = (case s of (th, p) \<Rightarrow>
     if int (glen (sp_txs p)) \<ge> sp_maxSize p then ((th, p), Some ErrPoolFull)
     else let (h, tx) = tx_GetHash sha (th t)
          in if ghas (sp_txs p) h then ((th(t := tx), p), Some ErrDuplicateTx)
             else ((th(t := tx), p\<lparr>sp_txs := gput h t (sp_txs p)\<rparr>), None))"

text \<open>\<open>GetPending\<close>: the first \<open>maxCount\<close> of the range; \<open>make\<close> panics on a negative capacity.\<close>

definition sp_GetPending :: "hash list \<Rightarrow> int \<Rightarrow> simple_pool \<Rightarrow> go_panic + tref list" where
  "sp_GetPending ord maxCount p =
     (if maxCount < 0 then Inl SliceBoundsOutOfRange else Inr (take (nat maxCount) (range_vals ord (sp_txs p))))"

definition sp_GetPendingCount :: "simple_pool \<Rightarrow> nat" where
  "sp_GetPendingCount p = glen (sp_txs p)"

definition sp_Clear :: "simple_pool \<Rightarrow> simple_pool" where
  "sp_Clear p = p\<lparr>sp_txs := []\<rparr>"

section \<open>Batching\<close>

lemma heap_Pop_Push: "heap_Pop (heap_Push h x) = Inr (x, h)"
  by (simp add: heap_Pop_def heap_Push_def)

lemma batch_fold:
  "fst (fold (batch_step n) ts (txs, batch)) @ snd (fold (batch_step n) ts (txs, batch)) = txs @ batch @ ts"
  by (induction ts arbitrary: txs batch) (simp_all add: batch_step_def Let_def)

lemma getBatchedTransactions_eq: "getBatchedTransactions ts n = ts"
  using batch_fold [of n ts "[]" "[]"] by (auto simp: getBatchedTransactions_def Let_def split: prod.split)

lemma mp_GetTransactions_eq: "mp_GetTransactions ord mp = range_vals ord (mp_transactions mp)"
  by (simp add: mp_GetTransactions_def getBatchedTransactions_eq)

section \<open>The exchange sort\<close>

lemma exchange_length [simp]: "length (exchange price i j ts) = length ts"
  by (simp add: exchange_def)

lemma exchange_mset: "i < length ts \<Longrightarrow> j < length ts \<Longrightarrow> mset (exchange price i j ts) = mset ts"
  by (simp add: exchange_def mset_swap)

lemma exchange_nth:
  assumes "i < j" "j < length ts"
  shows "k \<noteq> i \<Longrightarrow> k \<noteq> j \<Longrightarrow> exchange price i j ts ! k = ts ! k"
    and "price (exchange price i j ts ! i) = max (price (ts ! i)) (price (ts ! j))"
    and "price (exchange price i j ts ! j) = min (price (ts ! i)) (price (ts ! j))"
  using assms by (auto simp: exchange_def nth_list_update)

lemma exchange_drop:
  assumes "i < j" "j < length ts"
  shows "take i (exchange price i j ts) = take i ts" "mset (drop i (exchange price i j ts)) = mset (drop i ts)"
proof -
  show t: "take i (exchange price i j ts) = take i ts"
    using assms by (simp add: exchange_def)
  have "mset (take i xs) + mset (drop i xs) = mset xs" for xs :: "tref list"
    by (metis append_take_drop_id mset_append)
  then show "mset (drop i (exchange price i j ts)) = mset (drop i ts)"
    using t exchange_mset [of i ts j price] assms by (metis add_left_cancel less_trans)
qed

lemma exchange_prefix:
  assumes "i < m" "m \<le> length ts" "us = fold (exchange price i) [Suc i..<m] ts"
  shows "length us = length ts \<and> take i us = take i ts \<and> mset (drop i us) = mset (drop i ts)
    \<and> (\<forall>k. i < k \<and> k < m \<longrightarrow> price (us ! k) \<le> price (us ! i))"
  using assms
proof (induction m arbitrary: us)
  case (Suc m)
  show ?case
  proof (cases "i = m")
    case False
    define vs where "vs = fold (exchange price i) [Suc i..<m] ts"
    have us: "us = exchange price i m vs"
      using Suc.prems False by (simp add: vs_def)
    have IH: "length vs = length ts" "take i vs = take i ts" "mset (drop i vs) = mset (drop i ts)"
      "\<And>k. i < k \<Longrightarrow> k < m \<Longrightarrow> price (vs ! k) \<le> price (vs ! i)"
      using Suc.IH [OF _ _ vs_def] Suc.prems False by auto
    have m: "i < m" "m < length vs"
      using Suc.prems False IH(1) by auto
    note e = exchange_nth [OF m, where price = price] exchange_drop [OF m, where price = price]
    have "price (us ! k) \<le> price (us ! i)" if "i < k" "k < Suc m" for k
      using that e(1) [of k] e(2,3) IH(4) [of k] unfolding us
      by (cases "k = m") (auto simp: max.coboundedI1 min.coboundedI1)
    then show ?thesis
      using e IH unfolding us by auto
  qed (use Suc.prems in auto)
qed simp

lemma exchange_pass_correct:
  assumes "i < length ts" "us = exchange_pass price i ts"
  shows "length us = length ts" "take i us = take i ts" "mset (drop i us) = mset (drop i ts)"
    "\<And>k. i < k \<Longrightarrow> k < length ts \<Longrightarrow> price (us ! k) \<le> price (us ! i)"
  using exchange_prefix [OF assms(1) le_refl, of us price] assms(2) by (auto simp: exchange_pass_def)

lemma exchange_rounds:
  assumes "r < length ts" "us = fold (exchange_pass price) [0..<r] ts"
  shows "length us = length ts \<and> mset us = mset ts \<and>
    (\<forall>a b. a < r \<longrightarrow> a < b \<longrightarrow> b < length ts \<longrightarrow> price (us ! b) \<le> price (us ! a))"
  using assms
proof (induction r arbitrary: us)
  case (Suc r)
  define vs where "vs = fold (exchange_pass price) [0..<r] ts"
  have us: "us = exchange_pass price r vs"
    using Suc.prems by (simp add: vs_def)
  have IH: "length vs = length ts" "mset vs = mset ts"
    "\<And>a b. a < r \<Longrightarrow> a < b \<Longrightarrow> b < length ts \<Longrightarrow> price (vs ! b) \<le> price (vs ! a)"
    using Suc.IH [OF _ vs_def] Suc.prems by auto
  have r: "r < length vs"
    using Suc.prems IH by simp
  note p = exchange_pass_correct [OF r us]
  have mset: "mset us = mset vs"
    using p(2,3) by (metis append_take_drop_id mset_append)
  have old: "us ! a = vs ! a" if "a < r" for a
    using p(2) that by (metis nth_take)
  have new: "\<exists>k. r \<le> k \<and> k < length vs \<and> us ! b = vs ! k" if "r \<le> b" "b < length vs" for b
  proof -
    have "drop r us ! (b - r) \<in> set (drop r us)"
      using that p(1) by (intro nth_mem) simp
    then have "us ! b \<in> set (drop r us)"
      using that p(1) by simp
    then have "us ! b \<in> set (drop r vs)"
      using p(3) by (metis set_mset_mset)
    then obtain m where "m < length (drop r vs)" "us ! b = drop r vs ! m"
      by (metis in_set_conv_nth)
    then show ?thesis
      by (intro exI [of _ "r + m"]) auto
  qed
  have "price (us ! b) \<le> price (us ! a)" if ab: "a < Suc r" "a < b" "b < length ts" for a b
  proof (cases "a = r")
    case True
    then show ?thesis
      using p(4) ab IH by simp
  next
    case False
    then have a: "a < r"
      using ab by simp
    show ?thesis
    proof (cases "b < r")
      case True
      then show ?thesis
        using IH(3) ab a old by simp
    next
      case False
      then obtain k where "r \<le> k" "k < length vs" "us ! b = vs ! k"
        using new [of b] ab IH by auto
      then show ?thesis
        using IH(1) IH(3) [of a k] a old by simp
    qed
  qed
  then show ?case
    using p(1) IH mset by auto
qed simp

lemma exchange_sort_correct:
  "mset (exchange_sort price ts) = mset ts" "sorted_by (\<lambda>a b. price b < price a) (exchange_sort price ts)"
proof -
  let ?us = "exchange_sort price ts"
  have *: "length ?us = length ts \<and> mset ?us = mset ts \<and>
      (\<forall>a b. a < b \<longrightarrow> b < length ts \<longrightarrow> price (?us ! b) \<le> price (?us ! a))"
  proof (cases "ts = []")
    case False
    then show ?thesis
      using exchange_rounds [of "length ts - 1" ts ?us price] by (auto simp: exchange_sort_def)
  qed (simp add: exchange_sort_def)
  then show "mset ?us = mset ts"
    by simp
  show "sorted_by (\<lambda>a b. price b < price a) ?us"
    using * unfolding sorted_by_def sorted_wrt_iff_nth_less by (simp add: not_less)
qed

lemma set_exchange_sort [simp]: "set (exchange_sort price ts) = set ts"
  by (metis exchange_sort_correct(1) set_mset_mset)

lemma length_exchange_sort [simp]: "length (exchange_sort price ts) = length ts"
  by (metis exchange_sort_correct(1) size_mset)

lemma distinct_exchange_sort [simp]: "distinct (exchange_sort price ts) = distinct ts"
  by (metis exchange_sort_correct(1) mset_eq_imp_distinct_iff)

section \<open>The mempool invariant\<close>

text \<open>Every transaction of the map carries its key as its cached hash.\<close>

definition mempool_inv :: "tx_heap \<Rightarrow> mempool \<Rightarrow> bool" where
  "mempool_inv th mp = (gwf (mp_transactions mp) \<and>
     (\<forall>h t. gget (mp_transactions mp) h = Some t \<longrightarrow> tx_hash (th t) = Some h))"

lemma tx_GetHash_hash: "tx_GetHash sha tx = (h, tx') \<Longrightarrow> tx_hash tx' = Some h \<and> (\<forall>h0. tx_hash tx = Some h0 \<longrightarrow> h = h0 \<and> tx' = tx)"
  by (auto simp: tx_GetHash_def tx_ComputeHash_def Let_def split: option.splits)

lemma mp_worker_inv:
  assumes "mempool_inv th mp" "mp_worker sha now (th, mp) = (th', mp')"
  shows "mempool_inv th' mp'"
proof (cases "mp_work mp")
  case (Cons t rest)
  obtain tx1 h tx2 where tx1: "tx1 = (if tx_time (th t) = zero_time then (th t)\<lparr>tx_time := now\<rparr> else th t)"
    and h: "tx_GetHash sha tx1 = (h, tx2)"
    by (cases "tx_GetHash sha (if tx_time (th t) = zero_time then (th t)\<lparr>tx_time := now\<rparr> else th t)") auto
  have "tx_hash tx2 = Some h" "\<And>h0. tx_hash (th t) = Some h0 \<Longrightarrow> h = h0"
    using tx_GetHash_hash [OF h] tx1 by auto
  then show ?thesis
    using assms Cons h unfolding tx1 by (auto simp: mempool_inv_def mp_worker_def Let_def split: if_splits)
qed (use assms in \<open>simp add: mp_worker_def\<close>)

lemma mp_AddTransaction_inv: "mempool_inv th mp \<Longrightarrow> mp_AddTransaction t mp = Some mp' \<Longrightarrow> mempool_inv th mp'"
  by (auto simp: mempool_inv_def mp_AddTransaction_def split: if_splits)

lemma mp_remove_step:
  assumes "mempool_inv th mp" "gget (mp_transactions mp) h = Some t"
  shows "mp_remove_one sha t (th, mp) = (th, mp\<lparr>mp_transactions := gdel h (mp_transactions mp)\<rparr>)"
proof -
  have "tx_hash (th t) = Some h"
    using assms by (simp add: mempool_inv_def)
  then show ?thesis
    by (simp add: mp_remove_one_def tx_GetHash_def)
qed

lemma mempool_inv_gdel: "mempool_inv th mp \<Longrightarrow> mempool_inv th (mp\<lparr>mp_transactions := gdel h (mp_transactions mp)\<rparr>)"
  by (simp add: mempool_inv_def split: if_splits)

lemma mempool_inv_unique:
  "mempool_inv th mp \<Longrightarrow> gget (mp_transactions mp) h = Some t \<Longrightarrow> gget (mp_transactions mp) h' = Some t \<Longrightarrow> h = h'"
  unfolding mempool_inv_def by (metis option.inject)

lemma mp_remove_all:
  assumes "mempool_inv th mp" "distinct ts" "set ts \<subseteq> snd ` set (mp_transactions mp)"
  shows "\<exists>mp'. mp_RemoveTransactions sha ts (th, mp) = (th, mp') \<and> mempool_inv th mp' \<and>
    (\<forall>h t. gget (mp_transactions mp') h = Some t \<longleftrightarrow> gget (mp_transactions mp) h = Some t \<and> t \<notin> set ts)"
  using assms
proof (induction ts arbitrary: mp)
  case (Cons t ts)
  have wf: "gwf (mp_transactions mp)"
    using Cons.prems by (simp add: mempool_inv_def)
  obtain h where h: "gget (mp_transactions mp) h = Some t"
    using Cons.prems(3) wf by (auto simp: gget_set)
  let ?mp = "mp\<lparr>mp_transactions := gdel h (mp_transactions mp)\<rparr>"
  have inv: "mempool_inv th ?mp"
    using Cons.prems(1) by (rule mempool_inv_gdel)
  have "set ts \<subseteq> snd ` set (mp_transactions ?mp)"
  proof
    fix u assume u: "u \<in> set ts"
    then obtain k where k: "gget (mp_transactions mp) k = Some u"
      using Cons.prems(3) wf by (auto simp: gget_set)
    have "u \<noteq> t"
      using u Cons.prems(2) by auto
    then have "gget (mp_transactions ?mp) k = Some u"
      using k h by auto
    then show "u \<in> snd ` set (mp_transactions ?mp)"
      by (rule gget_snd)
  qed
  then obtain mp' where mp': "mp_RemoveTransactions sha ts (th, ?mp) = (th, mp')" "mempool_inv th mp'"
    "\<forall>k u. gget (mp_transactions mp') k = Some u \<longleftrightarrow> gget (mp_transactions ?mp) k = Some u \<and> u \<notin> set ts"
    using Cons.IH [OF inv] Cons.prems(2) by auto
  have "mp_RemoveTransactions sha (t # ts) (th, mp) = (th, mp')"
    using mp'(1) mp_remove_step [OF Cons.prems(1) h] by (simp add: mp_RemoveTransactions_def)
  moreover have "gget (mp_transactions ?mp) k = Some u \<longleftrightarrow> gget (mp_transactions mp) k = Some u \<and> u \<noteq> t" for k u
    using h mempool_inv_unique [OF Cons.prems(1) h, of k] by (cases "k = h") auto
  ultimately show ?case
    using mp'(2,3) by (intro exI [of _ mp'] conjI allI) simp_all
qed (simp add: mp_RemoveTransactions_def)

section \<open>Properties\<close>

text \<open>What \<open>GetTopTransactions\<close> selects, on the list of pending transactions.\<close>

lemma top_selection:
  assumes "us = exchange_sort price ts" "length ts < 2 ^ 64"
    and "r = (if word_of_nat (length us) > (n :: u64) then take (unat n) us else us)"
  shows "length r = min (length ts) (unat n)" "set r \<subseteq> set ts" "distinct ts \<Longrightarrow> distinct r"
    "sorted_by (\<lambda>a b. price b < price a) r" "x \<in> set r \<Longrightarrow> y \<in> set ts - set r \<Longrightarrow> price y \<le> price x"
proof -
  have len: "word_of_nat (length us) > n \<longleftrightarrow> length ts > unat n"
    using assms(1,2) by (simp add: word_less_nat_alt unat_of_nat_u64)
  then have r: "r = take (unat n) us"
    using assms(1,3) by simp
  note srt = exchange_sort_correct(2) [of price ts, folded assms(1)]
  show "length r = min (length ts) (unat n)" "set r \<subseteq> set ts" "distinct ts \<Longrightarrow> distinct r"
    using r assms(1) set_take_subset [of "unat n" us] by auto
  show "sorted_by (\<lambda>a b. price b < price a) r"
    unfolding r using srt by (rule sorted_by_take)
  assume x: "x \<in> set r" and y: "y \<in> set ts - set r"
  then have "y \<in> set (drop (unat n) us)"
    using assms(1) unfolding r by (metis Diff_iff UnE append_take_drop_id set_append set_exchange_sort)
  then show "price y \<le> price x"
    using sorted_by_take_drop [OF srt, of x "unat n" y] x unfolding r by (simp add: not_less)
qed

lemma distinct_pool:
  assumes "mempool_inv th mp" "range_order ord (mp_transactions mp)"
  shows "distinct (range_vals ord (mp_transactions mp))"
proof -
  let ?m = "mp_transactions mp"
  have fst: "map fst (range_items ord ?m) = ord" "distinct ord"
    using assms(2) by (auto simp: range_order_def intro: map_fst_range_items)
  have "inj_on snd (set (range_items ord ?m))"
    using mempool_inv_unique [OF assms(1)] by (auto simp: inj_on_def set_range_items)
  then show ?thesis
    using fst unfolding range_vals_items distinct_map by (metis distinct_map)
qed

lemma top_transactions_spec:
  assumes "mempool_inv th mp" "range_order ord (mp_transactions mp)" "n \<noteq> 0" "glen (mp_transactions mp) < 2 ^ 64"
    and "pending = filter (\<lambda>t. tx_state (th t) = TransactionStatePending) (range_vals ord (mp_transactions mp))"
    and "r = mp_GetTopTransactions ord th n mp"
  shows "length r = min (length pending) (unat n) \<and> distinct r \<and> set r \<subseteq> set pending
    \<and> sorted_by (\<lambda>a b. tx_gas_price (th b) < tx_gas_price (th a)) r
    \<and> (\<forall>x \<in> set r. \<forall>y \<in> set pending - set r. tx_gas_price (th y) \<le> tx_gas_price (th x))"
proof -
  have wf: "gwf (mp_transactions mp)"
    using assms(1) by (simp add: mempool_inv_def)
  have "length pending \<le> glen (mp_transactions mp)"
    unfolding assms(5) by (rule order_trans [OF length_filter_le]) (simp add: length_range_vals wf assms(2))
  then have len: "length pending < 2 ^ 64"
    using assms(4) by (rule le_less_trans)
  have r: "r = (let us = exchange_sort (\<lambda>t. tx_gas_price (th t)) pending
      in if word_of_nat (length us) > n then take (unat n) us else us)"
    using assms(3) unfolding assms(5,6) mp_GetTopTransactions_def by simp
  have "distinct pending"
    unfolding assms(5) by (rule distinct_filter [OF distinct_pool [OF assms(1,2)]])
  with top_selection [OF refl len r [unfolded Let_def]] show ?thesis
    by blast
qed

text \<open>\<open>GetTopTransactions\<close> with a positive limit returns pending transactions of the pool, each
  once, in descending order of gas price; as many as the limit allows; and no pending
  transaction that was left out pays more than one that was taken.\<close>

theorem GetTopTransactions_correct:
  assumes "mempool_inv th mp" "range_order ord (mp_transactions mp)" "n \<noteq> 0" "glen (mp_transactions mp) < 2 ^ 64"
    and "pending = filter (\<lambda>t. tx_state (th t) = TransactionStatePending) (range_vals ord (mp_transactions mp))"
    and "r = mp_GetTopTransactions ord th n mp"
  shows "length r = min (length pending) (unat n) \<and> distinct r \<and> set r \<subseteq> set pending
    \<and> sorted_by (\<lambda>a b. tx_gas_price (th b) < tx_gas_price (th a)) r
    \<and> (\<forall>x \<in> set r. \<forall>y \<in> set pending - set r. tx_gas_price (th y) \<le> tx_gas_price (th x))"
  using assms by (rule top_transactions_spec)

definition priced_tx_heap :: tx_heap where
  "priced_tx_heap t = \<lparr>tx_nonce = 0, tx_from = ''alice'', tx_to = ''bob'', tx_value = 1, tx_gas_limit = 0,
     tx_gas_price = word_of_nat (t * t mod 5), tx_data = [], tx_signature = sample_signature, tx_time = 0,
     tx_state = TransactionStatePending, tx_hash = Some [word_of_nat t]\<rparr>"

definition priced_pool :: mempool where
  "priced_pool = (NewMempool 1)\<lparr>mp_transactions := [([1], 1), ([2], 2), ([3], 3), ([4], 4)]\<rparr>"

lemma priced_pool_inv: "mempool_inv priced_tx_heap priced_pool" "range_order [[1], [2], [3], [4]] (mp_transactions priced_pool)"
  by (auto simp: mempool_inv_def gwf_def priced_pool_def priced_tx_heap_def gget_def range_order_def gkeys_def split: if_splits)

theorem GetTopTransactions_correct_witness:
  "length (mp_GetTopTransactions [[1], [2], [3], [4]] priced_tx_heap 2 priced_pool) = 2
    \<and> distinct (mp_GetTopTransactions [[1], [2], [3], [4]] priced_tx_heap 2 priced_pool)"
  using GetTopTransactions_correct [OF priced_pool_inv _ _ refl refl, of 2]
  by (simp add: priced_pool_def glen_def gget_def priced_tx_heap_def)

text \<open>Collecting the pool in batches gives the same transactions in the same order as the
  plain loop, for every batch size.\<close>

theorem batched_equals_plain:
  "mp_GetTransactions ord mp = range_vals ord (mp_transactions mp)
    \<and> getBatchedTransactions (range_vals ord (mp_transactions mp)) n = range_vals ord (mp_transactions mp)"
  by (simp add: mp_GetTransactions_eq getBatchedTransactions_eq)

end
