(* ===== verification/Storage.thy ===== *)
theory Storage
  imports Hex Core_Dag
begin

text \<open>
  \<open>internal/storage/storage.go\<close>: the files under \<open>baseDir\<close>.  A block is the file named by
  the hexadecimal text of its hash in the directory of its validator.  The operating
  system is a map of directories; \<open>os.ReadDir\<close> lists names in order.  \<open>enc\<close> and \<open>dec\<close> are
  \<open>json.Marshal\<close> and \<open>json.Unmarshal\<close> of a block; \<open>ok\<close> says whether a write succeeds.
  A validator name is taken as one path component.
\<close>

section \<open>State and operations\<close>

record storage =
  st_blocks :: "(string, (string, byte list) gomap) gomap option"
  st_mempool :: "byte list option"
  st_state :: "byte list option"

datatype storage_error = ErrWrite | ErrBlocksDir | ErrUnmarshal | ErrBlockNotFound

definition NewStorage :: storage where
  "NewStorage = \<lparr>st_blocks = None, st_mempool = None, st_state = None\<rparr>"

definition read_dir :: "(string, 'v) gomap \<Rightarrow> (string \<times> 'v) list" where
  "read_dir m = range_items (sort (map fst m)) m"

definition block_dirs :: "storage \<Rightarrow> (string, (string, byte list) gomap) gomap" where
  "block_dirs st = (case st_blocks st of None \<Rightarrow> [] | Some ds \<Rightarrow> ds)"

definition SaveBlock ::
  "header_digest \<Rightarrow> (block \<Rightarrow> byte list) \<Rightarrow> bool \<Rightarrow> block \<Rightarrow> storage \<Rightarrow> storage_error + storage" where
  "SaveBlock H enc ok b st =
     (let v = hdr_validator (blk_header b); ds = block_dirs st
      in if \<not> ok then Inl ErrWrite
         else Inr (st\<lparr>st_blocks := Some (gput v (gput (hex_of (block_ComputeHash H b)) (enc b) (slice_at ds v)) ds)\<rparr>))"

text \<open>The search of \<open>LoadBlock\<close> through the directories.\<close>

fun load_from :: "(byte list \<Rightarrow> block option) \<Rightarrow> string \<Rightarrow> (string \<times> (string, byte list) gomap) list \<Rightarrow> storage_error + block" where
  "load_from dec f [] = Inl ErrBlockNotFound"
| "load_from dec f ((v, fs) # ds) = (case gget fs f of
     None \<Rightarrow> load_from dec f ds
   | Some d \<Rightarrow> (case dec d of None \<Rightarrow> Inl ErrUnmarshal | Some b \<Rightarrow> Inr b))"

definition LoadBlock :: "(byte list \<Rightarrow> block option) \<Rightarrow> storage \<Rightarrow> hash \<Rightarrow> storage_error + block" where
  "LoadBlock dec st h = (case st_blocks st of
     None \<Rightarrow> Inl ErrBlocksDir
   | Some ds \<Rightarrow> load_from dec (hex_of h) (read_dir ds))"

text \<open>The mempool and state files; a missing file is an empty pool and a new state.\<close>

definition SaveMempool :: "(transaction list \<Rightarrow> byte list) \<Rightarrow> bool \<Rightarrow> transaction list \<Rightarrow> storage \<Rightarrow> storage_error + storage" where
  "SaveMempool enc ok txs st = (if \<not> ok then Inl ErrWrite else Inr (st\<lparr>st_mempool := Some (enc txs)\<rparr>))"

definition LoadMempool :: "(byte list \<Rightarrow> transaction list option) \<Rightarrow> storage \<Rightarrow> storage_error + transaction list" where
  "LoadMempool dec st = (case st_mempool st of
     None \<Rightarrow> Inr []
   | Some d \<Rightarrow> (case dec d of None \<Rightarrow> Inl ErrUnmarshal | Some txs \<Rightarrow> Inr txs))"

definition SaveState :: "(types_state \<Rightarrow> byte list) \<Rightarrow> bool \<Rightarrow> types_state \<Rightarrow> storage \<Rightarrow> storage_error + storage" where
  "SaveState enc ok s st = (if \<not> ok then Inl ErrWrite else Inr (st\<lparr>st_state := Some (enc s)\<rparr>))"

definition LoadState :: "(byte list \<Rightarrow> types_state option) \<Rightarrow> storage \<Rightarrow> storage_error + types_state" where
  "LoadState dec st = (case st_state st of
     None \<Rightarrow> Inr types_NewState
   | Some d \<Rightarrow> (case dec d of None \<Rightarrow> Inl ErrUnmarshal | Some s \<Rightarrow> Inr s))"

text \<open>\<open>GetLatestBlocks\<close>: files that cannot be decoded are skipped.\<close>

definition stored_blocks :: "(byte list \<Rightarrow> block option) \<Rightarrow> (string, (string, byte list) gomap) gomap \<Rightarrow> block list" where
  "stored_blocks dec ds = concat (map (\<lambda>(v, fs). List.map_filter (\<lambda>(f, d). dec d) (read_dir fs)) (read_dir ds))"

definition latest_less :: "block \<Rightarrow> block \<Rightarrow> bool" where
  "latest_less a b = (let x = blk_header a; y = blk_header b in
     if hdr_height x \<noteq> hdr_height y then hdr_height x > hdr_height y
     else if hdr_wave x \<noteq> hdr_wave y then hdr_wave x > hdr_wave y
     else if hdr_round x \<noteq> hdr_round y then hdr_round x > hdr_round y
     else hdr_validator x > hdr_validator y)"

definition GetLatestBlocks ::
  "(byte list \<Rightarrow> block option) \<Rightarrow> storage \<Rightarrow> int \<Rightarrow> go_panic + (storage_error + block list)" where
  "GetLatestBlocks dec st n = (case st_blocks st of
     None \<Rightarrow> Inr (Inl ErrBlocksDir)
   | Some ds \<Rightarrow>
       let allBlocks = sort_slice latest_less (stored_blocks dec ds);
           m = (if n > int (length allBlocks) then int (length allBlocks) else n)
       in map_sum id Inr (go_prefix allBlocks m))"

section \<open>Invariant\<close>

text \<open>Every file decodes to a block of that validator whose hash is the file name.\<close>

definition storage_inv :: "header_digest \<Rightarrow> (byte list \<Rightarrow> block option) \<Rightarrow> storage \<Rightarrow> bool" where
  "storage_inv H dec st = (gwf (block_dirs st) \<and>
     (\<forall>v fs f d. gget (block_dirs st) v = Some fs \<longrightarrow> gget fs f = Some d \<longrightarrow>
        (\<exists>b. dec d = Some b \<and> hdr_validator (blk_header b) = v \<and> f = hex_of (block_ComputeHash H b))))"

text \<open>What the code relies on of the JSON encoding: the header comes back.\<close>

definition codec_ok :: "(block \<Rightarrow> byte list) \<Rightarrow> (byte list \<Rightarrow> block option) \<Rightarrow> block \<Rightarrow> bool" where
  "codec_ok enc dec b = (\<exists>b'. dec (enc b) = Some b' \<and> blk_header b' = blk_header b)"

lemma storage_inv_New: "storage_inv H dec NewStorage"
  by (simp add: storage_inv_def NewStorage_def block_dirs_def)

lemma storage_inv_SaveBlock:
  assumes "storage_inv H dec st" "codec_ok enc dec b" "SaveBlock H enc ok b st = Inr st'"
  shows "storage_inv H dec st'"
proof -
  let ?v = "hdr_validator (blk_header b)" and ?f = "hex_of (block_ComputeHash H b)"
  have dirs: "block_dirs st' = gput ?v (gput ?f (enc b) (slice_at (block_dirs st) ?v)) (block_dirs st)"
    using assms(3) by (auto simp: SaveBlock_def Let_def block_dirs_def split: if_splits)
  obtain b' where b': "dec (enc b) = Some b'" "blk_header b' = blk_header b"
    using assms(2) by (auto simp: codec_ok_def)
  have old: "\<exists>b. dec d = Some b \<and> hdr_validator (blk_header b) = v \<and> f = hex_of (block_ComputeHash H b)"
    if "gget (slice_at (block_dirs st) v) f = Some d" for v f d
    using that assms(1) by (auto simp: storage_inv_def slice_at_def split: option.splits)
  have "\<exists>b. dec d = Some b \<and> hdr_validator (blk_header b) = v \<and> f = hex_of (block_ComputeHash H b)"
    if "gget (block_dirs st') v = Some fs" "gget fs f = Some d" for v fs f d
  proof (cases "v = ?v \<and> f = ?f")
    case True
    then show ?thesis
      using that b' unfolding dirs by (auto simp: block_ComputeHash_def)
  next
    case False
    then have "gget (slice_at (block_dirs st) v) f = Some d"
      using that unfolding dirs by (auto simp: slice_at_def split: if_splits)
    then show ?thesis
      by (rule old)
  qed
  then show ?thesis
    using assms(1) dirs unfolding storage_inv_def by simp
qed

lemma set_read_dir: "gwf m \<Longrightarrow> set (read_dir m) = set m"
  by (force simp: read_dir_def set_range_items gget_set)

lemma load_from_unique:
  assumes "(v, fs) \<in> set ds" "gget fs f = Some d"
    and "\<And>w gs e. (w, gs) \<in> set ds \<Longrightarrow> gget gs f = Some e \<Longrightarrow> e = d"
  shows "load_from dec f ds = (case dec d of None \<Rightarrow> Inl ErrUnmarshal | Some b \<Rightarrow> Inr b)"
  using assms
proof (induction ds)
  case (Cons x ds)
  obtain w gs where x: "x = (w, gs)"
    by (cases x)
  show ?case
  proof (cases "gget gs f")
    case None
    then have "(v, fs) \<in> set ds"
      using Cons.prems x by auto
    then have "load_from dec f ds = (case dec d of None \<Rightarrow> Inl ErrUnmarshal | Some b \<Rightarrow> Inr b)"
      using Cons.prems(2,3) by (intro Cons.IH) (meson list.set_intros(2))+
    then show ?thesis
      using x None by simp
  next
    case (Some e)
    then have "e = d"
      using Cons.prems(3) [of w gs e] x by simp
    then show ?thesis
      using x Some by simp
  qed
qed simp

section \<open>Properties\<close>

text \<open>(C29) A saved block is loaded again by its hash: with a JSON encoding that keeps headers, and no
  other stored header with the same hash, \<open>LoadBlock\<close> after \<open>SaveBlock\<close> returns what was
  written, with the same header, whichever directory is searched first.\<close>

theorem save_load_block:
  assumes "storage_inv H dec st" "codec_ok enc dec b" "SaveBlock H enc ok b st = Inr st'"
    and "\<forall>v fs f d c. gget (block_dirs st) v = Some fs \<longrightarrow> gget fs f = Some d \<longrightarrow> dec d = Some c \<longrightarrow>
           block_ComputeHash H c = block_ComputeHash H b \<longrightarrow> blk_header c = blk_header b"
  shows "\<exists>b'. LoadBlock dec st' (block_ComputeHash H b) = Inr b' \<and> dec (enc b) = Some b' \<and> blk_header b' = blk_header b"
proof -
  let ?v = "hdr_validator (blk_header b)" and ?f = "hex_of (block_ComputeHash H b)"
  let ?fs = "gput ?f (enc b) (slice_at (block_dirs st) ?v)"
  have st': "st_blocks st' = Some (gput ?v ?fs (block_dirs st))" (is "_ = Some ?ds")
    using assms(3) by (auto simp: SaveBlock_def Let_def split: if_splits)
  have wf: "gwf ?ds"
    using assms(1) by (simp add: storage_inv_def)
  obtain b' where b': "dec (enc b) = Some b'" "blk_header b' = blk_header b"
    using assms(2) by (auto simp: codec_ok_def)
  have "(?v, ?fs) \<in> set (read_dir ?ds)"
    using wf by (simp add: set_read_dir gget_set [symmetric])
  moreover have "e = enc b" if dir: "(w, gs) \<in> set (read_dir ?ds)" and e: "gget gs ?f = Some e" for w gs e
  proof (cases "w = ?v")
    case True
    then show ?thesis
      using that wf by (auto simp: set_read_dir gget_set [symmetric])
  next
    case False
    then have w: "gget (block_dirs st) w = Some gs"
      using that wf by (simp add: set_read_dir gget_set [symmetric])
    then obtain c where "dec e = Some c" "hdr_validator (blk_header c) = w" "block_ComputeHash H c = block_ComputeHash H b"
      using e assms(1) unfolding storage_inv_def by (metis hex_of_inj)
    then show ?thesis
      using assms(4) w e False by metis
  qed
  ultimately have "load_from dec ?f (read_dir ?ds) = Inr b'"
    using load_from_unique [of ?v ?fs "read_dir ?ds" ?f "enc b" dec] b' by simp
  then show ?thesis
    using st' b' by (simp add: LoadBlock_def)
qed

text \<open>A one-block codec for the witness.\<close>

definition sample_enc :: "block \<Rightarrow> byte list" where
  "sample_enc b = [ucast (hdr_height (blk_header b))]"

definition sample_dec :: "byte list \<Rightarrow> block option" where
  "sample_dec d = (if d = [0] then Some (sample_block 0) else None)"

theorem save_load_block_witness:
  "\<exists>st' b'. SaveBlock sample_digest sample_enc True (sample_block 0) NewStorage = Inr st' \<and>
     LoadBlock sample_dec st' (block_ComputeHash sample_digest (sample_block 0)) = Inr b' \<and>
     blk_header b' = sample_header 0"
proof -
  obtain st' where st': "SaveBlock sample_digest sample_enc True (sample_block 0) NewStorage = Inr st'"
    by (simp add: SaveBlock_def Let_def)
  have codec: "codec_ok sample_enc sample_dec (sample_block 0)"
    by (simp add: codec_ok_def sample_enc_def sample_dec_def sample_block_def sample_header_def)
  from save_load_block [OF storage_inv_New codec st'] show ?thesis
    using st' by (auto simp: NewStorage_def block_dirs_def sample_block_def)
qed

end
