(* ===== verification/Block_Processor.thy ===== *)
theory Block_Processor
  imports Mempool Storage
begin

text \<open>
  The block processor of \<open>core/block_processor.go\<close> with the configuration of
  \<open>core/engine.go\<close>.  Blocks and transactions live in two heaps, carried with the
  processor in one record.  What \<open>CreateBlock\<close> takes from outside - the clock, the
  signature, the JSON texts, whether the file is written, the visiting orders of the
  maps and the address of the new block - is the record \<open>block_env\<close>.
\<close>

section \<open>Configuration\<close>

record core_config =
  cfg_block_interval :: int
  cfg_consensus_timeout :: int
  cfg_is_validator :: bool
  cfg_node_id :: address
  cfg_max_txs :: u64
  cfg_max_block_size :: u64
  cfg_tx_timeout_ms :: u64
  cfg_mempool_size :: u64
  cfg_batch_size :: u64
  cfg_worker_count :: int
  cfg_optimizations :: bool

definition NewDefaultConfig :: core_config where
  "NewDefaultConfig = \<lparr>cfg_block_interval = 2000000000, cfg_consensus_timeout = 30000000000,
     cfg_is_validator = False, cfg_node_id = [], cfg_max_txs = 40000, cfg_max_block_size = 100 * 1024 * 1024,
     cfg_tx_timeout_ms = 5000, cfg_mempool_size = 200000, cfg_batch_size = 1000, cfg_worker_count = 16,
     cfg_optimizations = True\<rparr>"

section \<open>State\<close>

record block_processor =
  bp_config :: core_config
  bp_state :: types_state
  bp_storage :: storage
  bp_dag :: core_dag
  bp_mempool :: mempool

record bp_world =
  bw_blocks :: block_heap
  bw_txs :: tx_heap
  bw_bp :: block_processor

record block_env =
  be_H :: header_digest
  be_sha :: "byte list \<Rightarrow> hash"
  be_enc :: "block \<Rightarrow> byte list"
  be_json :: "(address, u64 \<times> u64) gomap \<Rightarrow> byte list option"
  be_sign :: "block_header \<Rightarrow> byte list option"
  be_now :: int
  be_save_ok :: bool
  be_fresh :: bref
  be_ord_txs :: "hash list"
  be_ord_top :: "hash list"
  be_ord_recent :: "hash list"
  be_ord_add :: "hash list"

datatype bp_error = ErrAlreadyInWave | ErrSign | ErrSave storage_error | ErrAddToDag dag_error

definition NewBlockProcessor :: "int \<Rightarrow> core_config \<Rightarrow> types_state \<Rightarrow> storage \<Rightarrow> core_dag \<Rightarrow> block_processor" where
  "NewBlockProcessor cpus c s st d = \<lparr>bp_config = c, bp_state = s, bp_storage = st, bp_dag = d,
     bp_mempool = NewMempoolWithConfig cpus \<lparr>mc_workers = cfg_worker_count c, mc_batchSize = cfg_batch_size c,
       mc_maxSize = cfg_mempool_size c\<rparr>\<rparr>"

section \<open>\<open>CreateBlock\<close>\<close>

definition pending_txs :: "block_env \<Rightarrow> bp_world \<Rightarrow> tref list" where
  "pending_txs e w = filter (\<lambda>t. tx_state (bw_txs w t) = TransactionStatePending)
     (mp_GetTransactions (be_ord_txs e) (bp_mempool (bw_bp w)))"

definition max_tx_per_block :: "core_config \<Rightarrow> u64" where
  "max_tx_per_block c = (if cfg_max_txs c = 0 then 40000 else cfg_max_txs c)"

definition selected_txs :: "block_env \<Rightarrow> bp_world \<Rightarrow> tref list" where
  "selected_txs e w =
     (let pendingTxs = pending_txs e w; n = max_tx_per_block (bp_config (bw_bp w))
      in if word_of_nat (length pendingTxs) > n
         then mp_GetTopTransactions (be_ord_top e) (bw_txs w) n (bp_mempool (bw_bp w))
         else pendingTxs)"

definition mark_state :: "tx_state \<Rightarrow> tref list \<Rightarrow> tx_heap \<Rightarrow> tx_heap" where
  "mark_state s ts th = fold (\<lambda>t th. th(t := (th t)\<lparr>tx_state := s\<rparr>)) ts th"

definition recent_blocks :: "block_env \<Rightarrow> bp_world \<Rightarrow> bref list" where
  "recent_blocks e w = (case core_GetRecentBlocks (bw_blocks w) (be_ord_recent e) (bp_dag (bw_bp w)) 10 of
     Inl _ \<Rightarrow> [] | Inr bs \<Rightarrow> bs)"

definition wave_references :: "header_digest \<Rightarrow> block_heap \<Rightarrow> bref list \<Rightarrow> u64 \<Rightarrow> reference list" where
  "wave_references H hp bs prevWave = map (\<lambda>b. \<lparr>ref_hash = block_ComputeHash H (hp b),
       ref_round = hdr_round (hd_of hp b), ref_wave = hdr_wave (hd_of hp b), ref_type = ReferenceTypeStandard\<rparr>)
     (filter (\<lambda>b. hdr_wave (hd_of hp b) = prevWave) bs)"

definition bp_getNextHeight :: "block_heap \<Rightarrow> types_state \<Rightarrow> u64" where
  "bp_getNextHeight hp s = (case ts_latest s of None \<Rightarrow> 0 | Some b \<Rightarrow> hdr_height (hd_of hp b) + 1)"

definition bp_getParentHash :: "header_digest \<Rightarrow> block_heap \<Rightarrow> types_state \<Rightarrow> hash" where
  "bp_getParentHash H hp s = (case ts_latest s of None \<Rightarrow> [] | Some b \<Rightarrow> block_ComputeHash H (hp b))"

definition bp_calculateStateRoot ::
  "(byte list \<Rightarrow> hash) \<Rightarrow> ((address, u64 \<times> u64) gomap \<Rightarrow> byte list option) \<Rightarrow> transaction list \<Rightarrow> hash" where
  "bp_calculateStateRoot sha json txs =
     (let stateChanges = fold (\<lambda>tx m. gput (tx_from tx) (tx_value tx, tx_nonce tx) m) txs []
      in case json stateChanges of None \<Rightarrow> [] | Some bs \<Rightarrow> sha bs)"

definition estimateBlockSize :: "block_body \<Rightarrow> block_header \<Rightarrow> u64" where
  "estimateBlockSize body hdr = 500 + word_of_nat (length (body_txs body)) * 200
     + word_of_nat (length (hdr_references hdr)) * 100"

definition zero_signature :: signature where
  "zero_signature = \<lparr>sig_validator = [], sig_bytes = [], sig_time = zero_time\<rparr>"

definition bp_signBlock :: "block_env \<Rightarrow> address \<Rightarrow> block_header \<Rightarrow> block_header option" where
  "bp_signBlock e node hdr = map_option (\<lambda>sg. hdr\<lparr>hdr_signature := \<lparr>sig_validator = node, sig_bytes = sg, sig_time = be_now e\<rparr>\<rparr>)
     (be_sign e hdr)"

text \<open>Header and body, before signing; \<open>th\<close> is the heap after marking.\<close>

definition new_header :: "block_env \<Rightarrow> u64 \<Rightarrow> u64 \<Rightarrow> tx_heap \<Rightarrow> bp_world \<Rightarrow> block_header" where
  "new_header e round currentWave th w =
     \<lparr>hdr_version = 1, hdr_time = be_now e, hdr_round = round, hdr_wave = currentWave,
      hdr_height = bp_getNextHeight (bw_blocks w) (bp_state (bw_bp w)),
      hdr_parent = bp_getParentHash (be_H e) (bw_blocks w) (bp_state (bw_bp w)),
      hdr_references = wave_references (be_H e) (bw_blocks w) (recent_blocks e w) (currentWave - 1),
      hdr_state_root = bp_calculateStateRoot (be_sha e) (be_json e) (map th (selected_txs e w)),
      hdr_validator = cfg_node_id (bp_config (bw_bp w)), hdr_signature = zero_signature\<rparr>"

definition new_body :: "tref list \<Rightarrow> block_body" where
  "new_body ts = \<lparr>body_txs = ts, body_receipts = [], body_events = []\<rparr>"

definition bp_CreateBlock :: "block_env \<Rightarrow> u64 \<Rightarrow> u64 \<Rightarrow> bp_world \<Rightarrow> bp_world \<times> (bp_error + bref)" where
  "bp_CreateBlock e round currentWave w =
     (let bp = bw_bp w;
          node = cfg_node_id (bp_config bp);
          selectedTxs = selected_txs e w;
          th1 = mark_state TransactionStateIncluded selectedTxs (bw_txs w);
          w1 = w\<lparr>bw_txs := th1\<rparr>
      in if list_ex (\<lambda>b. hdr_wave (hd_of (bw_blocks w) b) = currentWave \<and> hdr_validator (hd_of (bw_blocks w) b) = node)
              (recent_blocks e w)
         then (w1, Inl ErrAlreadyInWave)
         else case bp_signBlock e node (new_header e round currentWave th1 w) of
           None \<Rightarrow> (w1, Inl ErrSign)
         | Some hdr \<Rightarrow>
             let b = \<lparr>blk_header = hdr, blk_body = Some (new_body selectedTxs), blk_certificate = None,
                       blk_original_hash = []\<rparr>;
                 hp1 = (bw_blocks w)(be_fresh e := b);
                 w2 = w1\<lparr>bw_blocks := hp1\<rparr>
             in case SaveBlock (be_H e) (be_enc e) (be_save_ok e) b (bp_storage bp) of
                  Inl err \<Rightarrow> (w2, Inl (ErrSave err))
                | Inr st \<Rightarrow>
                    let dag = (case core_AddBlock (be_H e) hp1 (be_ord_add e) (be_fresh e) (bp_dag bp) of
                                 Inl BlockAlreadyExists \<Rightarrow> Inr (bp_dag bp)
                               | Inl err \<Rightarrow> Inl err
                               | Inr d \<Rightarrow> Inr d)
                    in case dag of
                         Inl err \<Rightarrow> (w2\<lparr>bw_bp := bp\<lparr>bp_storage := st\<rparr>\<rparr>, Inl (ErrAddToDag err))
                       | Inr d \<Rightarrow>
                           let (th2, mp) = mp_RemoveTransactions (be_sha e) selectedTxs (th1, bp_mempool bp)
                           in (w2\<lparr>bw_txs := th2, bw_bp := bp\<lparr>bp_storage := st, bp_dag := d, bp_mempool := mp\<rparr>\<rparr>,
                               Inr (be_fresh e)))"

section \<open>The other operations\<close>

definition bp_AddTransaction :: "tref \<Rightarrow> block_processor \<Rightarrow> block_processor option" where
  "bp_AddTransaction t bp = map_option (\<lambda>mp. bp\<lparr>bp_mempool := mp\<rparr>) (mp_AddTransaction t (bp_mempool bp))"

datatype certificate_error = ErrInvalidCertificate | ErrCertificateBlock dag_error

definition CreateCertificate :: "header_digest \<Rightarrow> int \<Rightarrow> block \<Rightarrow> signature list \<Rightarrow> certificate_error + certificate" where
  "CreateCertificate H now b sigs = (if length sigs = 0 then Inl ErrInvalidCertificate
     else Inr \<lparr>cert_block_hash = block_ComputeHash H b, cert_signatures = map sig_bytes sigs,
       cert_round = hdr_round (blk_header b), cert_wave = hdr_wave (blk_header b), cert_validators = [], cert_time = now\<rparr>)"

definition VerifyCertificate :: "core_dag \<Rightarrow> certificate option \<Rightarrow> certificate_error option" where
  "VerifyCertificate d c = (case c of
     None \<Rightarrow> Some ErrInvalidCertificate
   | Some cert \<Rightarrow>
       if length (cert_block_hash cert) = 0 then Some ErrInvalidCertificate
       else case core_GetBlock d (cert_block_hash cert) of Inl err \<Rightarrow> Some (ErrCertificateBlock err) | Inr _ \<Rightarrow> None)"

definition bp_GetState :: "block_processor \<Rightarrow> types_state" where
  "bp_GetState bp = bp_state bp"

text \<open>\<open>UpdateTransactionStates\<close>; a nil body panics once there are enough votes.\<close>

definition UpdateTransactionStates :: "block \<Rightarrow> int \<Rightarrow> int \<Rightarrow> tx_heap \<Rightarrow> go_panic + tx_heap" where
  "UpdateTransactionStates b voteCount quorumSize th =
     (if voteCount \<ge> quorumSize
      then case blk_body b of None \<Rightarrow> Inl NilDereference
           | Some body \<Rightarrow> Inr (mark_state TransactionStateCommitted (body_txs body) th)
      else Inr th)"

definition GetMempoolTransactions :: "hash list \<Rightarrow> block_processor \<Rightarrow> tref list" where
  "GetMempoolTransactions ord bp = range_vals ord (mp_transactions (bp_mempool bp))"

section \<open>Lemmas\<close>

lemma mark_state_apply: "mark_state s ts th t = (if t \<in> set ts then (th t)\<lparr>tx_state := s\<rparr> else th t)"
  unfolding mark_state_def by (induction ts arbitrary: th) auto

lemma mark_state_hash [simp]: "tx_hash (mark_state s ts th t) = tx_hash (th t)"
  by (simp add: mark_state_apply)

lemma mempool_inv_mark: "mempool_inv (mark_state s ts th) mp \<longleftrightarrow> mempool_inv th mp"
  by (simp add: mempool_inv_def)

text \<open>What the environment supplies: visiting orders of the mempool.\<close>

definition env_ok :: "block_env \<Rightarrow> bp_world \<Rightarrow> bool" where
  "env_ok e w = (mempool_inv (bw_txs w) (bp_mempool (bw_bp w))
     \<and> range_order (be_ord_txs e) (mp_transactions (bp_mempool (bw_bp w)))
     \<and> range_order (be_ord_top e) (mp_transactions (bp_mempool (bw_bp w)))
     \<and> glen (mp_transactions (bp_mempool (bw_bp w))) < 2 ^ 64)"

lemma pool_order:
  "mempool_inv th mp \<Longrightarrow> range_order ord (mp_transactions mp) \<Longrightarrow>
     set (range_vals ord (mp_transactions mp)) = snd ` set (mp_transactions mp)"
  by (simp add: set_range_vals_order mempool_inv_def)

lemma pending_txs_facts:
  assumes "env_ok e w"
  shows "distinct (pending_txs e w)" "length (pending_txs e w) < 2 ^ 64"
    "set (pending_txs e w) = {t \<in> snd ` set (mp_transactions (bp_mempool (bw_bp w))). tx_state (bw_txs w t) = TransactionStatePending}"
proof -
  let ?mp = "bp_mempool (bw_bp w)"
  have inv: "mempool_inv (bw_txs w) ?mp" and ord: "range_order (be_ord_txs e) (mp_transactions ?mp)"
    and len: "glen (mp_transactions ?mp) < 2 ^ 64"
    using assms by (simp_all add: env_ok_def)
  show "distinct (pending_txs e w)"
    unfolding pending_txs_def mp_GetTransactions_eq by (rule distinct_filter [OF distinct_pool [OF inv ord]])
  have "length (pending_txs e w) \<le> length (range_vals (be_ord_txs e) (mp_transactions ?mp))"
    unfolding pending_txs_def mp_GetTransactions_eq by (rule length_filter_le)
  also have "\<dots> = glen (mp_transactions ?mp)"
    using inv ord by (simp add: length_range_vals mempool_inv_def)
  finally show "length (pending_txs e w) < 2 ^ 64"
    using len by (rule le_less_trans)
  show "set (pending_txs e w) = {t \<in> snd ` set (mp_transactions ?mp). tx_state (bw_txs w t) = TransactionStatePending}"
    using pool_order [OF inv ord] by (auto simp: pending_txs_def mp_GetTransactions_eq)
qed

lemma selected_txs_facts:
  assumes "env_ok e w"
  defines "n \<equiv> unat (max_tx_per_block (bp_config (bw_bp w)))"
  shows "distinct (selected_txs e w)" "length (selected_txs e w) = min (length (pending_txs e w)) n"
    "set (selected_txs e w) \<subseteq> set (pending_txs e w)"
    "x \<in> set (selected_txs e w) \<Longrightarrow> y \<in> set (pending_txs e w) - set (selected_txs e w) \<Longrightarrow>
       tx_gas_price (bw_txs w y) \<le> tx_gas_price (bw_txs w x)"
proof -
  let ?mp = "bp_mempool (bw_bp w)" and ?n = "max_tx_per_block (bp_config (bw_bp w))"
  let ?top = "filter (\<lambda>t. tx_state (bw_txs w t) = TransactionStatePending) (range_vals (be_ord_top e) (mp_transactions ?mp))"
  note p = pending_txs_facts [OF assms(1)]
  have env: "mempool_inv (bw_txs w) ?mp" "range_order (be_ord_top e) (mp_transactions ?mp)"
    "glen (mp_transactions ?mp) < 2 ^ 64"
    using assms(1) by (simp_all add: env_ok_def)
  have set_top: "set ?top = set (pending_txs e w)"
    using pool_order [OF env(1,2)] p(3) by auto
  moreover have "distinct ?top"
    by (rule distinct_filter [OF distinct_pool [OF env(1,2)]])
  ultimately have len_top: "length ?top = length (pending_txs e w)"
    using p(1) by (metis distinct_card)
  have "distinct (selected_txs e w) \<and> length (selected_txs e w) = min (length (pending_txs e w)) n
    \<and> set (selected_txs e w) \<subseteq> set (pending_txs e w)
    \<and> (\<forall>x \<in> set (selected_txs e w). \<forall>y \<in> set (pending_txs e w) - set (selected_txs e w).
         tx_gas_price (bw_txs w y) \<le> tx_gas_price (bw_txs w x))"
  proof (cases "word_of_nat (length (pending_txs e w)) > ?n")
    case True
    have "?n \<noteq> 0"
      by (simp add: max_tx_per_block_def)
    moreover have "selected_txs e w = mp_GetTopTransactions (be_ord_top e) (bw_txs w) ?n ?mp"
      using True by (simp add: selected_txs_def Let_def)
    ultimately show ?thesis
      using top_transactions_spec [OF env(1,2) _ env(3) refl, of ?n "selected_txs e w"]
      unfolding set_top len_top n_def by blast
  next
    case False
    then have "length (pending_txs e w) \<le> n"
      using p(2) by (simp add: n_def word_less_nat_alt unat_of_nat_u64)
    then show ?thesis
      using False p(1) by (simp add: selected_txs_def Let_def)
  qed
  then show "distinct (selected_txs e w)" "length (selected_txs e w) = min (length (pending_txs e w)) n"
    "set (selected_txs e w) \<subseteq> set (pending_txs e w)"
    "x \<in> set (selected_txs e w) \<Longrightarrow> y \<in> set (pending_txs e w) - set (selected_txs e w) \<Longrightarrow>
       tx_gas_price (bw_txs w y) \<le> tx_gas_price (bw_txs w x)"
    by blast+
qed

lemma CreateBlock_Inr:
  assumes "bp_CreateBlock e round wave w = (w', Inr b)"
  obtains hdr th2 mp where "b = be_fresh e"
    "\<not> list_ex (\<lambda>b. hdr_wave (hd_of (bw_blocks w) b) = wave \<and> hdr_validator (hd_of (bw_blocks w) b) = cfg_node_id (bp_config (bw_bp w)))
         (recent_blocks e w)"
    "bp_signBlock e (cfg_node_id (bp_config (bw_bp w)))
       (new_header e round wave (mark_state TransactionStateIncluded (selected_txs e w) (bw_txs w)) w) = Some hdr"
    "bw_blocks w' = (bw_blocks w)(be_fresh e := \<lparr>blk_header = hdr, blk_body = Some (new_body (selected_txs e w)),
       blk_certificate = None, blk_original_hash = []\<rparr>)"
    "mp_RemoveTransactions (be_sha e) (selected_txs e w)
       (mark_state TransactionStateIncluded (selected_txs e w) (bw_txs w), bp_mempool (bw_bp w)) = (th2, mp)"
    "bw_txs w' = th2" "bp_mempool (bw_bp w') = mp"
  using assms unfolding bp_CreateBlock_def Let_def
  by (auto split: if_splits option.splits sum.splits dag_error.splits prod.splits)

section \<open>Properties\<close>

text \<open>(C9) What a successful \<open>CreateBlock\<close> does: the new block has the given round and wave and this
  node as validator, refers exactly to the recent blocks of the previous wave, and the node
  had no recent block in this wave; its transactions are pending ones, at most the limit,
  none left out pays more than one taken; they are marked included and leave the mempool,
  which keeps every other transaction.\<close>

theorem CreateBlock_correct:
  assumes "env_ok e w" "bp_CreateBlock e round wave w = (w', Inr b)"
  shows "\<exists>body. blk_body (bw_blocks w' b) = Some body \<and> body_txs body = selected_txs e w
    \<and> hdr_round (hd_of (bw_blocks w') b) = round \<and> hdr_wave (hd_of (bw_blocks w') b) = wave
    \<and> hdr_validator (hd_of (bw_blocks w') b) = cfg_node_id (bp_config (bw_bp w))
    \<and> map ref_hash (hdr_references (hd_of (bw_blocks w') b)) = map (\<lambda>c. block_ComputeHash (be_H e) (bw_blocks w c))
        (filter (\<lambda>c. hdr_wave (hd_of (bw_blocks w) c) = wave - 1) (recent_blocks e w))
    \<and> (\<forall>c \<in> set (recent_blocks e w). hdr_wave (hd_of (bw_blocks w) c) = wave \<longrightarrow>
         hdr_validator (hd_of (bw_blocks w) c) \<noteq> cfg_node_id (bp_config (bw_bp w)))
    \<and> length (body_txs body) \<le> unat (max_tx_per_block (bp_config (bw_bp w)))
    \<and> (\<forall>t \<in> set (body_txs body). tx_state (bw_txs w t) = TransactionStatePending \<and> tx_state (bw_txs w' t) = TransactionStateIncluded)
    \<and> (\<forall>x \<in> set (body_txs body). \<forall>y \<in> set (pending_txs e w) - set (body_txs body).
         tx_gas_price (bw_txs w y) \<le> tx_gas_price (bw_txs w x))
    \<and> (\<forall>h t. gget (mp_transactions (bp_mempool (bw_bp w'))) h = Some t \<longleftrightarrow>
         gget (mp_transactions (bp_mempool (bw_bp w))) h = Some t \<and> t \<notin> set (body_txs body))"
proof -
  note p = pending_txs_facts [OF assms(1)] and s = selected_txs_facts [OF assms(1)]
  let ?th1 = "mark_state TransactionStateIncluded (selected_txs e w) (bw_txs w)"
  obtain hdr th2 mp where c: "b = be_fresh e"
    "\<not> list_ex (\<lambda>b. hdr_wave (hd_of (bw_blocks w) b) = wave \<and> hdr_validator (hd_of (bw_blocks w) b) = cfg_node_id (bp_config (bw_bp w)))
         (recent_blocks e w)"
    "bp_signBlock e (cfg_node_id (bp_config (bw_bp w))) (new_header e round wave ?th1 w) = Some hdr"
    "bw_blocks w' = (bw_blocks w)(be_fresh e := \<lparr>blk_header = hdr, blk_body = Some (new_body (selected_txs e w)),
       blk_certificate = None, blk_original_hash = []\<rparr>)"
    "mp_RemoveTransactions (be_sha e) (selected_txs e w) (?th1, bp_mempool (bw_bp w)) = (th2, mp)"
    "bw_txs w' = th2" "bp_mempool (bw_bp w') = mp"
    using assms(2) by (rule CreateBlock_Inr)
  have inv: "mempool_inv ?th1 (bp_mempool (bw_bp w))"
    using assms(1) by (simp add: env_ok_def mempool_inv_mark)
  have sub: "set (selected_txs e w) \<subseteq> snd ` set (mp_transactions (bp_mempool (bw_bp w)))"
    using s(3) p(3) by auto
  obtain mp' where m: "mp_RemoveTransactions (be_sha e) (selected_txs e w) (?th1, bp_mempool (bw_bp w)) = (?th1, mp')"
    "\<forall>h t. gget (mp_transactions mp') h = Some t \<longleftrightarrow>
       gget (mp_transactions (bp_mempool (bw_bp w))) h = Some t \<and> t \<notin> set (selected_txs e w)"
    using mp_remove_all [OF inv s(1) sub, of "be_sha e"] by blast
  have th2: "th2 = ?th1" "mp = mp'"
    using m(1) c(5) by simp_all
  have hdr: "hdr_round hdr = round" "hdr_wave hdr = wave" "hdr_validator hdr = cfg_node_id (bp_config (bw_bp w))"
    "hdr_references hdr = wave_references (be_H e) (bw_blocks w) (recent_blocks e w) (wave - 1)"
    using c(3) by (auto simp: bp_signBlock_def new_header_def)
  have blk: "bw_blocks w' b = \<lparr>blk_header = hdr, blk_body = Some (new_body (selected_txs e w)), blk_certificate = None, blk_original_hash = []\<rparr>"
    using c(1,4) by simp
  show ?thesis
  proof (rule exI [of _ "new_body (selected_txs e w)"], intro conjI)
    show "\<forall>t \<in> set (body_txs (new_body (selected_txs e w))).
        tx_state (bw_txs w t) = TransactionStatePending \<and> tx_state (bw_txs w' t) = TransactionStateIncluded"
      using s(3) p(3) c(6) th2 by (auto simp: new_body_def mark_state_apply)
    show "\<forall>x \<in> set (body_txs (new_body (selected_txs e w))). \<forall>y \<in> set (pending_txs e w) - set (body_txs (new_body (selected_txs e w))).
        tx_gas_price (bw_txs w y) \<le> tx_gas_price (bw_txs w x)"
      using s(4) by (simp add: new_body_def)
    show "\<forall>c \<in> set (recent_blocks e w). hdr_wave (hd_of (bw_blocks w) c) = wave \<longrightarrow>
         hdr_validator (hd_of (bw_blocks w) c) \<noteq> cfg_node_id (bp_config (bw_bp w))"
      using c(2) by (auto simp: list_ex_iff)
  qed (use blk hdr s(2) m(2) c(7) th2 in \<open>simp_all add: new_body_def wave_references_def comp_def\<close>)
qed

text \<open>A \<open>CreateBlock\<close> that is refused because the node already has a block in the wave has by
  then marked its selection as included: these transactions stay in the mempool and are
  pending for no later block.  When they were all the pending ones, none is left.\<close>

theorem CreateBlock_refusal_strands:
  assumes "env_ok e w" "bp_CreateBlock e round wave w = (w', Inl ErrAlreadyInWave)"
  shows "bp_mempool (bw_bp w') = bp_mempool (bw_bp w)
    \<and> (\<forall>t \<in> set (selected_txs e w). tx_state (bw_txs w' t) = TransactionStateIncluded)
    \<and> (\<forall>e'. env_ok e' w' \<longrightarrow> set (selected_txs e w) \<inter> set (selected_txs e' w') = {})
    \<and> (length (pending_txs e w) \<le> unat (max_tx_per_block (bp_config (bw_bp w))) \<longrightarrow>
        (\<forall>e'. env_ok e' w' \<longrightarrow> selected_txs e' w' = []))"
proof -
  note p = pending_txs_facts [OF assms(1)] and s = selected_txs_facts [OF assms(1)]
  have w': "w' = w\<lparr>bw_txs := mark_state TransactionStateIncluded (selected_txs e w) (bw_txs w)\<rparr>"
    using assms(2) unfolding bp_CreateBlock_def Let_def
    by (auto split: if_splits option.splits sum.splits dag_error.splits prod.splits)
  have none: "set (selected_txs e w) \<inter> set (selected_txs e' w') = {}" if "env_ok e' w'" for e'
    using selected_txs_facts(3) [OF that] pending_txs_facts(3) [OF that] unfolding w' by (auto simp: mark_state_apply)
  have empty: "selected_txs e' w' = []"
    if "length (pending_txs e w) \<le> unat (max_tx_per_block (bp_config (bw_bp w)))" "env_ok e' w'" for e'
  proof -
    have "length (selected_txs e w) = length (pending_txs e w)"
      using s(2) that(1) by simp
    then have all: "set (selected_txs e w) = set (pending_txs e w)"
      using s(1,3) p(1) by (metis card_subset_eq distinct_card List.finite_set)
    have "set (pending_txs e' w') \<subseteq> set (pending_txs e w)"
      using p(3) pending_txs_facts(3) [OF that(2)] unfolding w' by (auto simp: mark_state_apply split: if_splits)
    then have "set (selected_txs e' w') \<subseteq> set (selected_txs e w)"
      using selected_txs_facts(3) [OF that(2)] all by blast
    then have "set (selected_txs e w) \<inter> set (selected_txs e' w') = set (selected_txs e' w')"
      by (simp add: Int_absorb1)
    then show ?thesis
      using none [OF that(2)] by (metis set_empty)
  qed
  have marked: "tx_state (bw_txs w' t) = TransactionStateIncluded" if "t \<in> set (selected_txs e w)" for t
    using that by (simp add: w' mark_state_apply)
  have same: "bp_mempool (bw_bp w') = bp_mempool (bw_bp w)"
    by (simp add: w')
  show ?thesis
    by (intro conjI allI ballI impI) (fact same, erule marked, erule none, erule (1) empty)
qed

text \<open>A sample world: the pool of four priced transactions and an empty DAG.\<close>

definition sample_env :: block_env where
  "sample_env = \<lparr>be_H = sample_digest, be_sha = id, be_enc = sample_enc, be_json = (\<lambda>_. Some []),
     be_sign = (\<lambda>_. Some [1]), be_now = 0, be_save_ok = True, be_fresh = 7,
     be_ord_txs = [[1], [2], [3], [4]], be_ord_top = [[1], [2], [3], [4]], be_ord_recent = [], be_ord_add = []\<rparr>"

definition sample_world :: bp_world where
  "sample_world = \<lparr>bw_blocks = sample_heap, bw_txs = priced_tx_heap, bw_bp = \<lparr>bp_config = NewDefaultConfig,
     bp_state = types_NewState, bp_storage = NewStorage, bp_dag = core_NewDAG, bp_mempool = priced_pool\<rparr>\<rparr>"

lemma sample_env_ok: "env_ok sample_env sample_world"
  using priced_pool_inv by (simp add: env_ok_def sample_env_def sample_world_def)
    (simp add: priced_pool_def glen_def)

lemma sample_recent: "recent_blocks sample_env sample_world = []"
  by (simp add: recent_blocks_def sample_env_def sample_world_def core_GetRecentBlocks_def core_NewDAG_def go_prefix_def)

lemma sample_create: "\<exists>w'. bp_CreateBlock sample_env 1 1 sample_world = (w', Inr 7)"
proof -
  have [simp]: "be_fresh sample_env = 7" "be_save_ok sample_env"
    "\<And>n hdr. bp_signBlock sample_env n hdr = Some (hdr\<lparr>hdr_signature := \<lparr>sig_validator = n, sig_bytes = [1], sig_time = 0\<rparr>\<rparr>)"
    by (simp_all add: sample_env_def bp_signBlock_def)
  have dag: "\<exists>d. core_AddBlock H hp ord b core_NewDAG = Inr d" for H hp ord b
    by (simp add: core_AddBlock_def core_NewDAG_def Let_def ghas_def)
  have "bp_dag (bw_bp sample_world) = core_NewDAG"
    by (simp add: sample_world_def)
  then show ?thesis
    unfolding bp_CreateBlock_def Let_def sample_recent
    by (auto simp: SaveBlock_def Let_def split: sum.split prod.split dag_error.split) (metis dag sum.distinct(1))+
qed

theorem CreateBlock_correct_witness:
  "\<exists>w' body. bp_CreateBlock sample_env 1 1 sample_world = (w', Inr 7) \<and> blk_body (bw_blocks w' 7) = Some body
     \<and> hdr_validator (hd_of (bw_blocks w') 7) = [] \<and> length (body_txs body) \<le> 40000"
proof -
  obtain w' where w': "bp_CreateBlock sample_env 1 1 sample_world = (w', Inr 7)"
    using sample_create by blast
  have "cfg_node_id (bp_config (bw_bp sample_world)) = []" "unat (max_tx_per_block (bp_config (bw_bp sample_world))) = 40000"
    by (simp_all add: sample_world_def NewDefaultConfig_def max_tx_per_block_def)
  then show ?thesis
    using CreateBlock_correct [OF sample_env_ok w'] w' by auto
qed

definition busy_world :: bp_world where
  "busy_world = sample_world\<lparr>bw_bp := (bw_bp sample_world)\<lparr>bp_config := NewDefaultConfig\<lparr>cfg_node_id := ''v0''\<rparr>,
     bp_dag := core_NewDAG\<lparr>cd_blocks := sample_index [0]\<rparr>\<rparr>\<rparr>"

definition busy_env :: block_env where
  "busy_env = sample_env\<lparr>be_ord_recent := [sample_key 0]\<rparr>"

lemma busy_env_ok: "env_ok busy_env busy_world"
  using sample_env_ok by (simp add: env_ok_def busy_env_def busy_world_def)

lemma busy_recent: "recent_blocks busy_env busy_world = [0]"
proof -
  have "gget (sample_index [0]) (sample_key 0) = Some 0"
    by (simp add: gget_sample_index)
  then show ?thesis
    by (simp add: recent_blocks_def busy_env_def busy_world_def core_GetRecentBlocks_def go_prefix_def Let_def)
qed

lemma busy_refused: "\<exists>w'. bp_CreateBlock busy_env 1 0 busy_world = (w', Inl ErrAlreadyInWave)"
  unfolding bp_CreateBlock_def Let_def busy_recent
  by (simp add: busy_world_def sample_world_def)

theorem CreateBlock_refusal_strands_witness:
  "\<exists>w'. bp_CreateBlock busy_env 1 0 busy_world = (w', Inl ErrAlreadyInWave) \<and> bp_mempool (bw_bp w') = priced_pool"
proof -
  obtain w' where w': "bp_CreateBlock busy_env 1 0 busy_world = (w', Inl ErrAlreadyInWave)"
    using busy_refused by blast
  have "bp_mempool (bw_bp busy_world) = priced_pool"
    by (simp add: busy_world_def sample_world_def)
  then show ?thesis
    using CreateBlock_refusal_strands [OF busy_env_ok w'] w' by simp
qed

end
