(* ===== verification/Consensus_Engine.thy ===== *)
theory Consensus_Engine
  imports Wave_State Block_Processor State_Manager
begin

text \<open>
  \<open>internal/consensus/engine.go\<close> with \<open>wave_manager.go\<close> and \<open>wave_controller.go\<close>: the
  engine that takes proposals, votes and certificates and drives the block processor and
  the state manager.  \<open>core.GetDAG()\<close> is one instance, which the engine shares with its
  block processor, so the DAG is the field of the processor.  The engine and the two heaps
  are one record.  A handler returns the new world and the error, since effects made before
  an error stay.  Sending is the list of messages; a nil block in a proposal is refused by
  the connection handler and has no counterpart here.
\<close>

section \<open>State\<close>

record consensus_engine =
  ce_running :: bool
  ce_node :: address
  ce_state :: state_manager
  ce_wave :: "wave_state option"
  ce_round :: u64
  ce_height :: u64
  ce_leader :: address
  ce_config :: engine_config
  ce_proposals :: "(hash, proposal) gomap"
  ce_validators :: "address list"
  ce_bp :: block_processor
  ce_votes :: "(hash, vote list) gomap"
  ce_saved :: "bref option"

record engine_world =
  ew_blocks :: block_heap
  ew_txs :: tx_heap
  ew_ce :: consensus_engine

datatype engine_error =
    ErrNoActiveWave
  | ErrAddProposal
  | ErrVoteBlockMissing
  | ErrVoteBlockSave dag_error
  | ErrEngineNotRunning
  | ErrInvalidBlock
  | ErrInvalidVote
  | ErrInvalidCert
  | ErrInvalidTransaction
  | ErrDag dag_error
  | ErrState state_error
  | ErrCreate bp_error
  | ErrProposer
  | ErrHashMismatch
  | ErrSignature
  | ErrSigner
  | ErrParent
  | ErrReference
  | ErrNetwork

abbreviation ce_dag :: "consensus_engine \<Rightarrow> core_dag" where
  "ce_dag ce \<equiv> bp_dag (ce_bp ce)"

definition set_dag :: "core_dag \<Rightarrow> consensus_engine \<Rightarrow> consensus_engine" where
  "set_dag d ce = ce\<lparr>ce_bp := (ce_bp ce)\<lparr>bp_dag := d\<rparr>\<rparr>"

definition NewConsensusEngine :: "engine_config \<Rightarrow> state_manager \<Rightarrow> block_processor \<Rightarrow> consensus_engine" where
  "NewConsensusEngine c sm bp = \<lparr>ce_running = False, ce_node = ec_node_id c, ce_state = sm, ce_wave = None,
     ce_round = 0, ce_height = 0, ce_leader = [], ce_config = c, ce_proposals = [], ce_validators = [],
     ce_bp = bp, ce_votes = [], ce_saved = None\<rparr>"

text \<open>\<open>Engine\<close>, the smaller struct: its constructor passes a nil engine to \<open>NewWaveManager\<close>, which
  reads \<open>engine.config\<close>.\<close>

definition NewWaveManager :: "consensus_engine option \<Rightarrow> go_panic + int" where
  "NewWaveManager ce = (case ce of None \<Rightarrow> Inl NilDereference | Some e \<Rightarrow> Inr (ec_wave_timeout (ce_config e)))"

definition NewEngine :: "go_panic + int" where
  "NewEngine = NewWaveManager None"

definition two_thirds :: "int \<Rightarrow> int" where
  "two_thirds n = (2 * n) sdiv 3 + 1"

definition Engine_HasQuorum :: "hash list \<Rightarrow> engine_config \<Rightarrow> (hash, vote list) gomap \<Rightarrow> bool" where
  "Engine_HasQuorum ord c votes =
     (int (card (set (map vote_validator (concat (range_vals ord votes))))) \<ge> two_thirds (ec_total_validators c))"

section \<open>Waves and leaders\<close>

definition ce_selectLeader :: "consensus_engine \<Rightarrow> go_panic + consensus_engine" where
  "ce_selectLeader ce = (case ce_wave ce of
     None \<Rightarrow> if ce_validators ce = [] then Inr ce else Inl NilDereference
   | Some w \<Rightarrow> map_sum id (\<lambda>l. ce\<lparr>ce_leader := l\<rparr>) (engine_selectLeader (ce_leader ce) (ce_validators ce) (ws_number w)))"

text \<open>\<open>Start\<close>: \<open>loaded\<close> are the blocks read from disk, \<open>ordf\<close> the visiting order that each clean-up
  of the DAG sees, \<open>net_ok\<close> whether the listener starts.\<close>

definition load_block :: "header_digest \<Rightarrow> block_heap \<Rightarrow> (core_dag \<Rightarrow> hash list) \<Rightarrow> bref \<Rightarrow> core_dag \<Rightarrow> core_dag" where
  "load_block H hp ordf b d = (case core_AddBlock H hp (ordf d) b d of Inl _ \<Rightarrow> d | Inr d' \<Rightarrow> d')"

definition ce_Start ::
  "header_digest \<Rightarrow> block_heap \<Rightarrow> int \<Rightarrow> (core_dag \<Rightarrow> hash list) \<Rightarrow> bref list \<Rightarrow> bool \<Rightarrow> consensus_engine \<Rightarrow>
     go_panic + (consensus_engine \<times> engine_error option)" where
  "ce_Start H hp now ordf loaded net_ok ce =
     (if ce_running ce then Inr (ce, None)
      else let st = bp_state (ce_bp ce); c = ce_config ce;
               ce1 = ce\<lparr>ce_validators := ec_validator_set c,
                        ce_wave := Some (NewWaveState now (ts_current_wave st) (ec_wave_timeout c) (ec_quorum_size c)),
                        ce_round := ts_current_round st\<rparr>;
               ce2 = (case ts_latest st of
                        None \<Rightarrow> ce1\<lparr>ce_height := 0\<rparr>
                      | Some b \<Rightarrow> set_dag (fold (load_block H hp ordf) loaded (ce_dag ce1)) (ce1\<lparr>ce_height := hdr_height (hd_of hp b)\<rparr>))
           in case ce_selectLeader ce2 of
                Inl p \<Rightarrow> Inl p
              | Inr ce3 \<Rightarrow> if \<not> net_ok then Inr (ce3, Some ErrNetwork) else Inr (ce3\<lparr>ce_running := True\<rparr>, None))"

definition ce_Stop :: "consensus_engine \<Rightarrow> consensus_engine" where
  "ce_Stop ce = (if \<not> ce_running ce then ce else ce\<lparr>ce_running := False\<rparr>)"

definition ce_IsLeader :: "consensus_engine \<Rightarrow> bool" where
  "ce_IsLeader ce = (if \<not> ce_running ce \<or> ce_wave ce = None then False else ce_leader ce = ce_node ce)"

definition ce_GetCurrentWave :: "consensus_engine \<Rightarrow> u64" where
  "ce_GetCurrentWave ce = (case ce_wave ce of None \<Rightarrow> 0 | Some w \<Rightarrow> ws_number w)"

definition ce_ProcessTimeout :: "int \<Rightarrow> consensus_engine \<Rightarrow> go_panic + consensus_engine" where
  "ce_ProcessTimeout now ce =
     (if \<not> ce_running ce then Inr ce
      else case ce_wave ce of
        None \<Rightarrow> Inr ce
      | Some w \<Rightarrow>
          if ws_IsTimedOut now w
          then ce_selectLeader (ce\<lparr>ce_wave := Some (NewWaveState now (ws_number w + 1)
                 (ec_wave_timeout (ce_config ce)) (ec_quorum_size (ce_config ce)))\<rparr>)
          else Inr ce)"

text \<open>\<open>StartNewWave\<close> holds \<open>ce.mu\<close> and calls \<open>waveManager.StartNewWave\<close>, which calls
  \<open>engine.GetCurrentWave\<close>: that waits for the same mutex.\<close>

definition ce_StartNewWave :: "consensus_engine \<Rightarrow> go_panic + consensus_engine" where
  "ce_StartNewWave ce = Inl Deadlock"

definition ce_advanceWave :: "consensus_engine \<Rightarrow> go_panic + consensus_engine" where
  "ce_advanceWave ce = (case ce_wave ce of
     None \<Rightarrow> Inl NilDereference
   | Some w \<Rightarrow> Inr (if ws_status w \<noteq> WaveStatusFinalized
       then ce\<lparr>ce_wave := Some (w\<lparr>ws_number := ws_number w + 1, ws_status := WaveStatusProposing\<rparr>)\<rparr> else ce))"

definition ce_resetWave :: "consensus_engine \<Rightarrow> go_panic + consensus_engine" where
  "ce_resetWave ce = (case ce_wave ce of
     None \<Rightarrow> Inl NilDereference
   | Some w \<Rightarrow> Inr (if ws_status w \<noteq> WaveStatusFinalized
       then ce\<lparr>ce_wave := Some (w\<lparr>ws_number := 0, ws_status := WaveStatusProposing\<rparr>)\<rparr> else ce))"

definition ce_GetWaveStatus :: "consensus_engine \<Rightarrow> string" where
  "ce_GetWaveStatus ce = (case ce_wave ce of
     None \<Rightarrow> ''unknown''
   | Some w \<Rightarrow> (let n = wave_status_num (ws_status w) in
       if n = 0 then ''initializing'' else if n = 1 then ''proposing''
       else if n = 2 then ''finalized'' else if n = 3 then ''failed'' else ''unknown''))"

definition ce_isWaveLeader :: "consensus_engine \<Rightarrow> address \<Rightarrow> bool" where
  "ce_isWaveLeader ce v = (ce_leader ce = v)"

definition ce_GetSavedLeaderBlock :: "consensus_engine \<Rightarrow> bref option" where
  "ce_GetSavedLeaderBlock ce = ce_saved ce"

section \<open>Blocks and votes of the current wave\<close>

definition ce_HandleBlock ::
  "header_digest \<Rightarrow> block_heap \<Rightarrow> int \<Rightarrow> bref \<Rightarrow> consensus_engine \<Rightarrow> go_panic + (consensus_engine \<times> engine_error option)" where
  "ce_HandleBlock H hp now b ce =
     (if \<not> ce_running ce then Inr (ce, None)
      else case ce_wave ce of
        None \<Rightarrow> Inl NilDereference
      | Some w \<Rightarrow>
          let h = block_ComputeHash H (hp b);
              p = \<lparr>prop_id = h, prop_block_hash = h, prop_round = 0, prop_wave = 0, prop_block = b,
                    prop_proposer = ce_node ce, prop_time = now, prop_status = ProposalStatusPending,
                    prop_signature = zero_signature\<rparr>
          in case ws_AddProposal p w of
               Inl _ \<Rightarrow> Inr (ce, Some ErrAddProposal)
             | Inr w1 \<Rightarrow> Inr (ce\<lparr>ce_wave := Some w1\<rparr>, None))"

text \<open>The tail of \<open>HandleVote\<close>, once the block is there.\<close>

definition record_vote :: "vote \<Rightarrow> wave_state \<Rightarrow> consensus_engine \<Rightarrow> consensus_engine" where
  "record_vote v w ce =
     (let w1 = (case ws_AddProposalVote v w of Inl _ \<Rightarrow> w | Inr w' \<Rightarrow> w');
          w2 = (if ws_HasQuorum w1 (vote_proposal_id v) then ws_SetStatus WaveStatusFinalized w1 else w1)
      in ce\<lparr>ce_votes := gappend (vote_block_hash v) v (ce_votes ce), ce_wave := Some w2\<rparr>)"

definition ce_HandleVote ::
  "header_digest \<Rightarrow> block_heap \<Rightarrow> hash list \<Rightarrow> vote \<Rightarrow> consensus_engine \<Rightarrow> consensus_engine \<times> engine_error option" where
  "ce_HandleVote H hp ord v ce =
     (if \<not> ce_running ce then (ce, Some ErrNoActiveWave)
      else case ce_wave ce of
        None \<Rightarrow> (ce, Some ErrNoActiveWave)
      | Some w \<Rightarrow>
          (case core_GetBlock (ce_dag ce) (vote_block_hash v) of
             Inr _ \<Rightarrow> (record_vote v w ce, None)
           | Inl _ \<Rightarrow> (case vote_block v of
               None \<Rightarrow> (ce, Some ErrVoteBlockMissing)
             | Some b \<Rightarrow> (case core_AddBlock H hp ord b (ce_dag ce) of
                 Inl err \<Rightarrow> (ce, Some (ErrVoteBlockSave err))
               | Inr d \<Rightarrow> (record_vote v w (set_dag d ce), None)))))"

definition ce_HasQuorum :: "consensus_engine \<Rightarrow> bool" where
  "ce_HasQuorum ce = (ce_running ce \<and> (case ce_wave ce of
     None \<Rightarrow> False
   | Some w \<Rightarrow> list_ex (\<lambda>(k, p). ws_HasQuorum w (prop_id p)) (ws_GetProposals w)))"

definition block_voters :: "consensus_engine \<Rightarrow> hash \<Rightarrow> address set" where
  "block_voters ce h = set (map vote_validator (slice_at (ce_votes ce) h))"

definition ce_IsBlockApproved :: "consensus_engine \<Rightarrow> hash \<Rightarrow> bool" where
  "ce_IsBlockApproved ce h = (if \<not> ghas (ce_votes ce) h then False
     else int (card (block_voters ce h)) \<ge> ec_quorum_size (ce_config ce))"

definition ce_GetBlockVotes :: "consensus_engine \<Rightarrow> hash \<Rightarrow> nat" where
  "ce_GetBlockVotes ce h = (if \<not> ghas (ce_votes ce) h then 0 else card (block_voters ce h))"

definition ce_processVote :: "bool \<Rightarrow> engine_config \<Rightarrow> wave_state \<Rightarrow> wave_state" where
  "ce_processVote vote c w =
     (let w1 = ws_SetStatus (if vote then WaveStatusProposing else WaveStatusFailed) w
      in if int (glen (ws_GetVotes w1)) \<ge> two_thirds (ec_total_validators c)
         then ws_SetStatus WaveStatusFinalized w1 else w1)"

definition ce_ProcessVote :: "address \<Rightarrow> bool \<Rightarrow> consensus_engine \<Rightarrow> consensus_engine \<times> engine_error option" where
  "ce_ProcessVote validator vote ce = (case ce_wave ce of
     None \<Rightarrow> (ce, Some ErrNoActiveWave)
   | Some w \<Rightarrow> (ce\<lparr>ce_wave := Some (ce_processVote vote (ce_config ce) (ws_AddVote validator w))\<rparr>, None))"

section \<open>Validation\<close>

definition missing :: "core_dag \<Rightarrow> hash \<Rightarrow> bool" where
  "missing d h = (case core_GetBlock d h of Inl _ \<Rightarrow> True | Inr _ \<Rightarrow> False)"

definition ce_validateReferences :: "core_dag \<Rightarrow> block_header \<Rightarrow> engine_error option" where
  "ce_validateReferences d hdr =
     (if length (hdr_parent hdr) > 0 \<and> missing d (hdr_parent hdr) then Some (ErrDag BlockNotFound)
      else if list_ex (\<lambda>r. missing d (ref_hash r)) (hdr_references hdr) then Some (ErrDag BlockNotFound)
      else None)"

fun ce_validateTransactions :: "state_manager \<Rightarrow> transaction list \<Rightarrow> engine_error option" where
  "ce_validateTransactions sm [] = None"
| "ce_validateTransactions sm (tx # txs) =
     (if length (tx_from tx) = 0 \<or> length (tx_to tx) = 0 then Some ErrInvalidTransaction
      else case mgr_GetAccount sm (tx_from tx) of
        Inl err \<Rightarrow> Some (ErrState err)
      | Inr sender \<Rightarrow>
          if acc_balance sender < tx_value tx then Some (ErrState ErrInsufficientBalance)
          else if acc_nonce sender \<noteq> tx_nonce tx then Some (ErrState ErrInvalidNonce)
          else ce_validateTransactions sm txs)"

definition ce_validateBlock :: "tx_heap \<Rightarrow> consensus_engine \<Rightarrow> block \<Rightarrow> engine_error option" where
  "ce_validateBlock th ce b = (case blk_body b of
     None \<Rightarrow> Some ErrInvalidBlock
   | Some body \<Rightarrow> (case ce_validateReferences (ce_dag ce) (blk_header b) of
       Some err \<Rightarrow> Some err
     | None \<Rightarrow> ce_validateTransactions (ce_state ce) (map th (body_txs body))))"

definition ce_validateVote :: "consensus_engine \<Rightarrow> vote option \<Rightarrow> engine_error option" where
  "ce_validateVote ce v = (case v of
     None \<Rightarrow> Some ErrInvalidVote
   | Some x \<Rightarrow> if length (vote_validator x) = 0 then Some ErrInvalidVote
       else if missing (ce_dag ce) (vote_block_hash x) then Some (ErrDag BlockNotFound) else None)"

definition ce_validateCertificate :: "consensus_engine \<Rightarrow> certificate option \<Rightarrow> engine_error option" where
  "ce_validateCertificate ce c = (case c of
     None \<Rightarrow> Some ErrInvalidCert
   | Some x \<Rightarrow> if length (cert_block_hash x) = 0 then Some ErrInvalidCert
       else if missing (ce_dag ce) (cert_block_hash x) then Some (ErrDag BlockNotFound) else None)"

text \<open>The commit of a block through the state manager, with its panic and its error.\<close>

definition commit_block :: "block \<Rightarrow> engine_world \<Rightarrow> go_panic + (engine_world \<times> engine_error option)" where
  "commit_block b w = map_sum id (\<lambda>(sm, err). (w\<lparr>ew_ce := (ew_ce w)\<lparr>ce_state := sm\<rparr>\<rparr>, map_option ErrState err))
     (mgr_CommitBlock (ew_txs w) b (ce_state (ew_ce w)))"

definition ce_HandleCertificate :: "certificate \<Rightarrow> engine_world \<Rightarrow> go_panic + (engine_world \<times> engine_error option)" where
  "ce_HandleCertificate c w =
     (let ce = ew_ce w
      in if \<not> ce_running ce then Inr (w, None)
         else case ce_validateCertificate ce (Some c) of
           Some err \<Rightarrow> Inr (w, Some err)
         | None \<Rightarrow> (case core_GetBlock (ce_dag ce) (cert_block_hash c) of
             Inl err \<Rightarrow> Inr (w, Some (ErrDag err))
           | Inr b \<Rightarrow>
               let blk = (ew_blocks w b)\<lparr>blk_certificate := Some c\<rparr>
               in commit_block blk (w\<lparr>ew_blocks := (ew_blocks w)(b := blk)\<rparr>)))"

definition ce_verifyBlockSignature :: "address list \<Rightarrow> block_header \<Rightarrow> engine_error option" where
  "ce_verifyBlockSignature vs hdr =
     (if sig_validator (hdr_signature hdr) = [] \<or> length (sig_bytes (hdr_signature hdr)) = 0 then Some ErrSignature
      else if sig_validator (hdr_signature hdr) \<in> set vs then None else Some ErrSigner)"

definition ce_verifyBlockReferences :: "core_dag \<Rightarrow> block_header \<Rightarrow> engine_error option" where
  "ce_verifyBlockReferences d hdr =
     (if length (hdr_parent hdr) > 0 \<and> missing d (hdr_parent hdr) then Some ErrParent
      else if list_ex (\<lambda>r. missing d (ref_hash r)) (hdr_references hdr) then Some ErrReference
      else None)"

definition ce_verifyBlock :: "consensus_engine \<Rightarrow> block \<Rightarrow> engine_error option" where
  "ce_verifyBlock ce b = (case ce_verifyBlockSignature (ce_validators ce) (blk_header b) of
     Some err \<Rightarrow> Some err
   | None \<Rightarrow> ce_verifyBlockReferences (ce_dag ce) (blk_header b))"

section \<open>Proposals\<close>

definition ce_verifyProposal ::
  "header_digest \<Rightarrow> block_heap \<Rightarrow> hash list \<Rightarrow> proposal \<Rightarrow> consensus_engine \<Rightarrow> consensus_engine \<times> engine_error option" where
  "ce_verifyProposal H hp ord p ce =
     (if prop_proposer p \<notin> set (ce_validators ce) then (ce, Some ErrProposer)
      else if prop_block_hash p \<noteq> block_ComputeHash H (hp (prop_block p)) then (ce, Some ErrHashMismatch)
      else let ce1 = (case core_AddBlock H hp ord (prop_block p) (ce_dag ce) of
                        Inl _ \<Rightarrow> ce | Inr d \<Rightarrow> set_dag d ce)
           in (ce1, ce_verifyBlockSignature (ce_validators ce) (hd_of hp (prop_block p))))"

text \<open>The transactions of a received block go back to the mempool as pending.\<close>

definition existing_txs :: "(byte list \<Rightarrow> hash) \<Rightarrow> tref list \<Rightarrow> tx_heap \<Rightarrow> tx_heap \<times> (hash, tref) gomap" where
  "existing_txs sha ts th = fold (\<lambda>t (th, m). let (h, tx) = tx_GetHash sha (th t) in (th(t := tx), gput h t m)) ts (th, [])"

definition return_tx ::
  "(byte list \<Rightarrow> hash) \<Rightarrow> (hash, tref) gomap \<Rightarrow> tref \<Rightarrow> tx_heap \<times> mempool \<Rightarrow> tx_heap \<times> mempool" where
  "return_tx sha existing t s = (case s of (th, mp) \<Rightarrow>
     let (h, tx) = tx_GetHash sha (th t); th1 = th(t := tx)
     in case gget existing h of
          None \<Rightarrow> (th1(t := tx\<lparr>tx_state := TransactionStatePending\<rparr>), mp\<lparr>mp_work := mp_work mp @ [t]\<rparr>)
        | Some u \<Rightarrow> (th1(u := (th1 u)\<lparr>tx_state := TransactionStatePending\<rparr>), mp))"

definition ce_processBlock ::
  "header_digest \<Rightarrow> (byte list \<Rightarrow> hash) \<Rightarrow> hash list \<Rightarrow> hash list \<Rightarrow> bref \<Rightarrow> engine_world \<Rightarrow>
     go_panic + (engine_world \<times> engine_error option)" where
  "ce_processBlock H sha ord ordm b w =
     (let ce = ew_ce w; blk = ew_blocks w b
      in case ce_verifyBlock ce blk of
           Some err \<Rightarrow> Inr (w, Some err)
         | None \<Rightarrow> (case blk_body blk of
             None \<Rightarrow> Inl NilDereference
           | Some body \<Rightarrow>
               let ce1 = (if missing (ce_dag ce) (block_ComputeHash H blk)
                          then (case core_AddBlock H (ew_blocks w) ord b (ce_dag ce) of Inl _ \<Rightarrow> ce | Inr d \<Rightarrow> set_dag d ce)
                          else ce);
                   (th1, existing) = existing_txs sha (GetMempoolTransactions ordm (ce_bp ce1)) (ew_txs w);
                   (th2, mp) = fold (return_tx sha existing) (body_txs body) (th1, bp_mempool (ce_bp ce1))
               in commit_block blk (w\<lparr>ew_txs := th2, ew_ce := ce1\<lparr>ce_bp := (ce_bp ce1)\<lparr>bp_mempool := mp\<rparr>\<rparr>\<rparr>)))"

definition ce_HandleProposal ::
  "header_digest \<Rightarrow> (byte list \<Rightarrow> hash) \<Rightarrow> hash list \<Rightarrow> hash list \<Rightarrow> proposal \<Rightarrow> engine_world \<Rightarrow>
     go_panic + (engine_world \<times> engine_error option)" where
  "ce_HandleProposal H sha ord ordm p w =
     (let ce = ew_ce w
      in if \<not> ce_running ce then Inr (w, Some ErrEngineNotRunning)
         else if ghas (ce_proposals ce) (prop_block_hash p) then Inr (w, None)
         else case ce_verifyProposal H (ew_blocks w) ord p ce of
           (ce1, Some err) \<Rightarrow> Inr (w\<lparr>ew_ce := ce1\<rparr>, Some err)
         | (ce1, None) \<Rightarrow>
             ce_processBlock H sha ord ordm (prop_block p)
               (w\<lparr>ew_ce := ce1\<lparr>ce_saved := (if ce_isWaveLeader ce1 (prop_proposer p) then Some (prop_block p) else ce_saved ce1),
                             ce_proposals := gput (prop_block_hash p) p (ce_proposals ce1)\<rparr>\<rparr>))"

section \<open>Making and sending blocks\<close>

definition ce_getNextHeight :: "consensus_engine \<Rightarrow> u64" where
  "ce_getNextHeight ce = ce_height ce + 1"

definition ce_getParentHash :: "header_digest \<Rightarrow> block_heap \<Rightarrow> hash list \<Rightarrow> consensus_engine \<Rightarrow> hash" where
  "ce_getParentHash H hp ord ce = (if ce_height ce = 0 then []
     else case core_GetBlockByHeight hp ord (ce_dag ce) (ce_height ce) of
       Inl _ \<Rightarrow> [] | Inr b \<Rightarrow> block_ComputeHash H (hp b))"

definition ce_CreateBlock ::
  "block_env \<Rightarrow> hash list \<Rightarrow> engine_world \<Rightarrow> go_panic + (engine_world \<times> (engine_error + bref option))" where
  "ce_CreateBlock e ord w =
     (let ce = ew_ce w
      in if \<not> ce_running ce then Inr (w, Inl ErrEngineNotRunning)
         else case ce_wave ce of
           None \<Rightarrow> Inl NilDereference
         | Some ws \<Rightarrow> (case core_GetRecentBlocks (ew_blocks w) ord (ce_dag ce) 10 of
             Inl p \<Rightarrow> Inl p
           | Inr recent \<Rightarrow>
               if list_ex (\<lambda>b. hdr_wave (hd_of (ew_blocks w) b) = ws_number ws \<and> hdr_validator (hd_of (ew_blocks w) b) = ce_node ce) recent
               then Inr (w, Inr None)
               else let (bw, r) = bp_CreateBlock e (ce_round ce) (ws_number ws)
                          \<lparr>bw_blocks = ew_blocks w, bw_txs = ew_txs w, bw_bp = ce_bp ce\<rparr>;
                        w1 = w\<lparr>ew_blocks := bw_blocks bw, ew_txs := bw_txs bw, ew_ce := ce\<lparr>ce_bp := bw_bp bw\<rparr>\<rparr>
                    in Inr (w1, case r of Inl err \<Rightarrow> Inl (ErrCreate err) | Inr b \<Rightarrow> Inr (Some b))))"

definition ce_signBlock :: "int \<Rightarrow> address \<Rightarrow> block \<Rightarrow> block" where
  "ce_signBlock now node b = b\<lparr>blk_header := (blk_header b)\<lparr>hdr_signature :=
     \<lparr>sig_validator = node, sig_bytes = bytes_of ''dummy_signature'', sig_time = now\<rparr>\<rparr>\<rparr>"

definition ce_getValidatorAddress :: "engine_config \<Rightarrow> address \<Rightarrow> string" where
  "ce_getValidatorAddress c v =
     (if v \<in> set (ec_validator_set c)
      then (if v = ''validator1'' then ''54.183.204.244:3000''
            else if v = ''validator2'' then ''52.53.192.236:3000'' else [])
      else [])"

text \<open>\<open>BroadcastBlock\<close> signs the block in place, stores the proposal and sends it to every other
  validator that has an address.\<close>

definition ce_BroadcastBlock ::
  "header_digest \<Rightarrow> int \<Rightarrow> bref option \<Rightarrow> engine_world \<Rightarrow> (engine_world \<times> engine_error option) \<times> (string \<times> proposal) list" where
  "ce_BroadcastBlock H now b w =
     (let ce = ew_ce w
      in if \<not> ce_running ce then ((w, Some ErrEngineNotRunning), [])
         else case b of
           None \<Rightarrow> ((w, None), [])
         | Some r \<Rightarrow>
             let blk = ce_signBlock now (ce_node ce) (ew_blocks w r);
                 h = block_ComputeHash H blk;
                 p = \<lparr>prop_id = h, prop_block_hash = h, prop_round = hdr_round (blk_header blk),
                       prop_wave = hdr_wave (blk_header blk), prop_block = r, prop_proposer = ce_node ce, prop_time = now,
                       prop_status = ProposalStatusPending, prop_signature = zero_signature\<rparr>;
                 targets = filter (\<lambda>a. a \<noteq> []) (map (ce_getValidatorAddress (ce_config ce))
                             (filter (\<lambda>v. v \<noteq> ce_node ce) (ce_validators ce)))
             in ((w\<lparr>ew_blocks := (ew_blocks w)(r := blk), ew_ce := ce\<lparr>ce_proposals := gput h p (ce_proposals ce)\<rparr>\<rparr>, None),
                 map (\<lambda>a. (a, p)) targets))"

definition ce_createProposal :: "header_digest \<Rightarrow> block_heap \<Rightarrow> hash list \<Rightarrow> int \<Rightarrow> consensus_engine \<Rightarrow> go_panic + (hash \<times> u64 \<times> u64 \<times> address \<times> int)" where
  "ce_createProposal H hp ord now ce = (case ce_wave ce of
     None \<Rightarrow> Inl NilDereference
   | Some w \<Rightarrow> Inr (ce_getParentHash H hp ord ce, ce_round ce, ws_number w, ce_node ce, now))"

text \<open>One poll of the wave manager: \<open>handleWaveProposing\<close> when this node leads a wave for which it
  has not proposed; \<open>last\<close> is \<open>lastBlockCreationWave\<close>.\<close>

definition wm_handleWaveProposing ::
  "header_digest \<Rightarrow> block_env \<Rightarrow> hash list \<Rightarrow> int \<Rightarrow> engine_world \<Rightarrow>
     go_panic + (engine_world \<times> engine_error option) \<times> (string \<times> proposal) list" where
  "wm_handleWaveProposing H e ord now w =
     (if \<not> ce_IsLeader (ew_ce w) then Inr ((w, None), [])
      else case ce_CreateBlock e ord w of
        Inl p \<Rightarrow> Inl p
      | Inr (w1, Inl err) \<Rightarrow> Inr ((w1, Some err), [])
      | Inr (w1, Inr None) \<Rightarrow> Inr ((w1, None), [])
      | Inr (w1, Inr (Some b)) \<Rightarrow> Inr (ce_BroadcastBlock H now (Some b) w1))"

definition wm_poll ::
  "header_digest \<Rightarrow> block_env \<Rightarrow> hash list \<Rightarrow> int \<Rightarrow> engine_world \<times> u64 \<Rightarrow> go_panic + (engine_world \<times> u64)" where
  "wm_poll H e ord now s = (case s of (w, lastWave) \<Rightarrow>
     if ce_IsLeader (ew_ce w) \<and> ce_GetCurrentWave (ew_ce w) > lastWave
     then map_sum id (\<lambda>((w1, err), msgs). (w1, if err = None then ce_GetCurrentWave (ew_ce w) else lastWave))
            (wm_handleWaveProposing H e ord now w)
     else Inr (w, lastWave))"

definition wc_handleWaveProposing ::
  "header_digest \<Rightarrow> block_env \<Rightarrow> hash list \<Rightarrow> int \<Rightarrow> engine_world \<Rightarrow>
     go_panic + (engine_world \<times> engine_error option) \<times> (string \<times> proposal) list" where
  "wc_handleWaveProposing H e ord now w = (case ce_CreateBlock e ord w of
     Inl p \<Rightarrow> Inl p
   | Inr (w1, Inl err) \<Rightarrow> Inr ((w1, Some err), [])
   | Inr (w1, Inr b) \<Rightarrow> Inr (ce_BroadcastBlock H now b w1))"

end
