(* ===== verification/Engine_Properties.thy ===== *)
theory Engine_Properties
  imports Consensus_Engine
begin

text \<open>
  What the consensus engine does with proposals and votes: which effects survive a
  rejected proposal, why a failed one is not tried again, why votes never finalise a wave,
  and what signing before broadcast does to the DAG.
\<close>

section \<open>Reachable engines\<close>

text \<open>Every operation of the engine that writes the wave; the others leave it alone
  (\<open>wave_frame\<close>).\<close>

inductive engine_reach :: "engine_config \<Rightarrow> consensus_engine \<Rightarrow> bool" for c where
  init: "engine_reach c (NewConsensusEngine c sm bp)"
| start: "engine_reach c ce \<Longrightarrow> ce_Start H hp now ordf loaded net ce = Inr (ce', err) \<Longrightarrow> engine_reach c ce'"
| stop: "engine_reach c ce \<Longrightarrow> engine_reach c (ce_Stop ce)"
| timeout: "engine_reach c ce \<Longrightarrow> ce_ProcessTimeout now ce = Inr ce' \<Longrightarrow> engine_reach c ce'"
| advance: "engine_reach c ce \<Longrightarrow> ce_advanceWave ce = Inr ce' \<Longrightarrow> engine_reach c ce'"
| reset: "engine_reach c ce \<Longrightarrow> ce_resetWave ce = Inr ce' \<Longrightarrow> engine_reach c ce'"
| block: "engine_reach c ce \<Longrightarrow> ce_HandleBlock H hp now b ce = Inr (ce', err) \<Longrightarrow> engine_reach c ce'"
| vote: "engine_reach c ce \<Longrightarrow> engine_reach c (fst (ce_HandleVote H hp ord v ce))"
| ballot: "engine_reach c ce \<Longrightarrow> engine_reach c (fst (ce_ProcessVote a yes ce))"
| proposal: "engine_reach c ce \<Longrightarrow> ce_HandleProposal H sha ord ordm p \<lparr>ew_blocks = hp, ew_txs = th, ew_ce = ce\<rparr> = Inr (w, err) \<Longrightarrow>
    engine_reach c (ew_ce w)"
| certificate: "engine_reach c ce \<Longrightarrow> ce_HandleCertificate x \<lparr>ew_blocks = hp, ew_txs = th, ew_ce = ce\<rparr> = Inr (w, err) \<Longrightarrow>
    engine_reach c (ew_ce w)"
| create: "engine_reach c ce \<Longrightarrow> ce_CreateBlock e ord \<lparr>ew_blocks = hp, ew_txs = th, ew_ce = ce\<rparr> = Inr (w, r) \<Longrightarrow>
    engine_reach c (ew_ce w)"
| broadcast: "engine_reach c ce \<Longrightarrow> ce_BroadcastBlock H now b \<lparr>ew_blocks = hp, ew_txs = th, ew_ce = ce\<rparr> = ((w, err), msgs) \<Longrightarrow>
    engine_reach c (ew_ce w)"

text \<open>No wave is ever in the voting state, and no proposal has a recorded vote.\<close>

definition wave_idle :: "engine_config \<Rightarrow> wave_state \<Rightarrow> bool" where
  "wave_idle c w = (ws_status w \<noteq> WaveStatusVoting \<and> ws_quorum w = ec_quorum_size c \<and> (\<forall>k. slice_at (ws_votes w) k = []))"

definition engine_idle :: "engine_config \<Rightarrow> consensus_engine \<Rightarrow> bool" where
  "engine_idle c ce = (ce_config ce = c \<and> (\<forall>w. ce_wave ce = Some w \<longrightarrow> wave_idle c w))"

lemma set_dag_simps [simp]:
  "ce_wave (set_dag d ce) = ce_wave ce" "ce_config (set_dag d ce) = ce_config ce" "ce_dag (set_dag d ce) = d"
  "ce_validators (set_dag d ce) = ce_validators ce" "ce_running (set_dag d ce) = ce_running ce"
  "ce_proposals (set_dag d ce) = ce_proposals ce" "ce_state (set_dag d ce) = ce_state ce" "ce_node (set_dag d ce) = ce_node ce"
  by (simp_all add: set_dag_def)

lemma NewWaveState_idle: "wave_idle c (NewWaveState now n t (ec_quorum_size c))"
  by (simp add: wave_idle_def NewWaveState_def)

lemma selectLeader_frame:
  "ce_selectLeader ce = Inr ce' \<Longrightarrow> ce_wave ce' = ce_wave ce \<and> ce_config ce' = ce_config ce"
  by (auto simp: ce_selectLeader_def map_sum_eq_Inr split: option.splits if_splits)

lemma commit_block_frame:
  "commit_block b w = Inr (w', err) \<Longrightarrow>
     ew_ce w' = (ew_ce w)\<lparr>ce_state := ce_state (ew_ce w')\<rparr> \<and> ew_blocks w' = ew_blocks w \<and> ew_txs w' = ew_txs w"
  by (auto simp: commit_block_def map_sum_eq_Inr)

lemma processBlock_frame:
  assumes "ce_processBlock H sha ord ordm b w = Inr (w', err)"
  shows "ce_wave (ew_ce w') = ce_wave (ew_ce w) \<and> ce_config (ew_ce w') = ce_config (ew_ce w)
    \<and> ce_proposals (ew_ce w') = ce_proposals (ew_ce w) \<and> ce_running (ew_ce w') = ce_running (ew_ce w)"
proof (cases "ce_verifyBlock (ew_ce w) (ew_blocks w b)")
  case None
  then obtain w1 where "commit_block (ew_blocks w b) w1 = Inr (w', err)"
      "ce_wave (ew_ce w1) = ce_wave (ew_ce w)" "ce_config (ew_ce w1) = ce_config (ew_ce w)"
      "ce_proposals (ew_ce w1) = ce_proposals (ew_ce w)" "ce_running (ew_ce w1) = ce_running (ew_ce w)"
    using assms unfolding ce_processBlock_def Let_def
    by (auto split: option.splits prod.splits if_splits sum.splits)
  then show ?thesis
    using commit_block_frame [of "ew_blocks w b" w1 w' err] by (metis consensus_engine.ext_inject consensus_engine.surjective
      consensus_engine.update_convs(3))
qed (use assms in \<open>simp add: ce_processBlock_def Let_def\<close>)

lemma verifyProposal_frame:
  "ce_verifyProposal H hp ord p ce = (ce', err) \<Longrightarrow> ce_wave ce' = ce_wave ce \<and> ce_config ce' = ce_config ce
     \<and> ce_proposals ce' = ce_proposals ce \<and> ce_running ce' = ce_running ce"
  by (auto simp: ce_verifyProposal_def Let_def split: if_splits sum.splits)

lemma HandleProposal_frame:
  assumes "ce_HandleProposal H sha ord ordm p w = Inr (w', err)"
  shows "ce_wave (ew_ce w') = ce_wave (ew_ce w) \<and> ce_config (ew_ce w') = ce_config (ew_ce w)
    \<and> ce_running (ew_ce w') = ce_running (ew_ce w)"
proof -
  obtain ce1 e1 where v: "ce_verifyProposal H (ew_blocks w) ord p (ew_ce w) = (ce1, e1)"
    by fastforce
  note f = verifyProposal_frame [OF v]
  show ?thesis
  proof (cases "ce_running (ew_ce w) \<and> \<not> ghas (ce_proposals (ew_ce w)) (prop_block_hash p) \<and> e1 = None")
    case True
    then show ?thesis
      using assms v f by (auto simp: ce_HandleProposal_def Let_def dest!: processBlock_frame)
  qed (use assms v f in \<open>auto simp: ce_HandleProposal_def Let_def split: if_splits option.splits\<close>)
qed

lemma HandleCertificate_frame:
  assumes "ce_HandleCertificate x w = Inr (w', err)"
  shows "ce_wave (ew_ce w') = ce_wave (ew_ce w) \<and> ce_config (ew_ce w') = ce_config (ew_ce w)"
  using assms unfolding ce_HandleCertificate_def Let_def commit_block_def
  by (auto simp: map_sum_eq_Inr split: if_splits option.splits sum.splits)

lemma CreateBlock_frame:
  assumes "ce_CreateBlock e ord w = Inr (w', r)"
  shows "ce_wave (ew_ce w') = ce_wave (ew_ce w) \<and> ce_config (ew_ce w') = ce_config (ew_ce w)"
  using assms unfolding ce_CreateBlock_def Let_def
  by (auto split: if_splits option.splits sum.splits prod.splits)

lemma BroadcastBlock_frame:
  assumes "ce_BroadcastBlock H now b w = ((w', err), msgs)"
  shows "ce_wave (ew_ce w') = ce_wave (ew_ce w) \<and> ce_config (ew_ce w') = ce_config (ew_ce w)
    \<and> ce_bp (ew_ce w') = ce_bp (ew_ce w)"
  using assms unfolding ce_BroadcastBlock_def Let_def by (auto split: if_splits option.splits)

lemmas wave_frame = selectLeader_frame HandleProposal_frame HandleCertificate_frame CreateBlock_frame BroadcastBlock_frame

lemma record_vote_idle:
  assumes "wave_idle c w" "0 < ec_quorum_size c"
  shows "record_vote v w ce = ce\<lparr>ce_votes := gappend (vote_block_hash v) v (ce_votes ce), ce_wave := Some w\<rparr>"
  using assms by (simp add: record_vote_def ws_AddProposalVote_def ws_HasQuorum_def wave_idle_def Let_def)

lemma record_vote_status:
  assumes "wave_idle c w"
  shows "\<exists>w'. ce_wave (record_vote v w ce) = Some w' \<and> wave_idle c w' \<and> ce_config (record_vote v w ce) = ce_config ce"
  using assms by (auto simp: record_vote_def ws_AddProposalVote_def ws_SetStatus_def wave_idle_def Let_def)

lemma HandleVote_cases:
  assumes "ce_HandleVote H hp ord v ce = (ce', err)"
  obtains "ce' = ce" "err \<noteq> None"
  | w d where "ce_running ce" "ce_wave ce = Some w" "ce' = record_vote v w (set_dag d ce)" "err = None"
  using assms that(2) [of _ "ce_dag ce"] that unfolding ce_HandleVote_def
  by (auto simp: set_dag_def split: if_splits option.splits sum.splits)

lemma engine_idle_reach: "engine_reach c ce \<Longrightarrow> engine_idle c ce"
proof (induction rule: engine_reach.induct)
  case (start ce H hp now ordf loaded net ce' err)
  then show ?case
    by (auto simp: engine_idle_def ce_Start_def Let_def NewWaveState_idle split: if_splits sum.splits option.splits
        dest!: selectLeader_frame)
next
  case (timeout ce now ce')
  then show ?case
    by (auto simp: engine_idle_def ce_ProcessTimeout_def NewWaveState_idle split: if_splits option.splits
        dest!: selectLeader_frame)
next
  case (vote ce H hp ord v)
  obtain ce' err where "ce_HandleVote H hp ord v ce = (ce', err)"
    by fastforce
  then show ?case
  proof (cases rule: HandleVote_cases)
    case 1
    then show ?thesis
      using vote \<open>ce_HandleVote H hp ord v ce = (ce', err)\<close> by simp
  next
    case (2 w d)
    then show ?thesis
      using vote record_vote_status [of c w v "set_dag d ce"] \<open>ce_HandleVote H hp ord v ce = (ce', err)\<close>
      by (auto simp: engine_idle_def)
  qed
next
  case (proposal ce H sha ord ordm p hp th w err)
  then show ?case
    by (auto simp: engine_idle_def dest!: HandleProposal_frame)
next
  case (certificate ce x hp th w err)
  then show ?case
    by (auto simp: engine_idle_def dest!: HandleCertificate_frame)
next
  case (create ce e ord hp th w r)
  then show ?case
    by (auto simp: engine_idle_def dest!: CreateBlock_frame)
next
  case (broadcast ce H now b hp th w err msgs)
  then show ?case
    by (auto simp: engine_idle_def dest!: BroadcastBlock_frame)
qed (auto simp: engine_idle_def NewConsensusEngine_def ce_Stop_def ce_advanceWave_def ce_resetWave_def ce_HandleBlock_def
      ce_ProcessVote_def ce_processVote_def ws_AddProposal_def ws_AddVote_def ws_SetStatus_def wave_idle_def Let_def
      split: option.splits if_splits sum.splits)

lemma idle_no_quorum: "engine_idle c ce \<Longrightarrow> 0 < ec_quorum_size c \<Longrightarrow> \<not> ce_HasQuorum ce"
  by (auto simp: ce_HasQuorum_def engine_idle_def wave_idle_def ws_HasQuorum_def list_ex_iff split: option.splits)

text \<open>\<open>GetWaveStatus\<close> prints the numbers of another enumeration.\<close>

lemma wave_status_text:
  "ce_wave ce = Some w \<Longrightarrow> ws_status w = WaveStatusFinalized \<Longrightarrow> ce_GetWaveStatus ce = ''unknown''"
  "ce_wave ce = Some w \<Longrightarrow> ws_status w = WaveStatusVoting \<Longrightarrow> ce_GetWaveStatus ce = ''finalized''"
  by (simp_all add: ce_GetWaveStatus_def)

section \<open>Properties\<close>

text \<open>(C20) In every engine that the operations can reach, with a positive quorum size, \<open>HandleVote\<close>
  never finalises the wave: no operation puts a wave into the voting state, so
  \<open>AddProposalVote\<close> always fails, the wave keeps its state and \<open>HasQuorum\<close> stays false,
  however many votes \<open>IsBlockApproved\<close> has counted.\<close>

theorem votes_never_finalise_wave:
  assumes "engine_reach c ce" "0 < ec_quorum_size c" "ce_HandleVote H hp ord v ce = (ce', err)"
  shows "ce_wave ce' = ce_wave ce \<and> \<not> ce_HasQuorum ce'
    \<and> (err = None \<longrightarrow> slice_at (ce_votes ce') (vote_block_hash v) = slice_at (ce_votes ce) (vote_block_hash v) @ [v])"
proof -
  note idle = engine_idle_reach [OF assms(1)]
  show ?thesis
    using assms(3)
  proof (cases rule: HandleVote_cases)
    case 1
    then show ?thesis
      using idle_no_quorum [OF idle assms(2)] by simp
  next
    case (2 w d)
    then have r: "ce' = (set_dag d ce)\<lparr>ce_votes := gappend (vote_block_hash v) v (ce_votes (set_dag d ce)), ce_wave := Some w\<rparr>"
      using idle record_vote_idle [OF _ assms(2)] by (auto simp: engine_idle_def)
    have "engine_idle c ce'"
      using idle 2(2) unfolding r by (auto simp: engine_idle_def set_dag_def)
    then show ?thesis
      using idle_no_quorum [OF _ assms(2), of ce'] 2(2) by (simp add: r set_dag_def)
  qed
qed

text \<open>The signature of a proposed block is looked at after the block was added to the DAG: a
  proposal with an unsigned block, or one signed by a stranger, is rejected, and its block
  stays in the DAG.\<close>

theorem rejected_block_stays:
  assumes "ce_running (ew_ce w)" "\<not> ghas (ce_proposals (ew_ce w)) (prop_block_hash p)"
    and "prop_proposer p \<in> set (ce_validators (ew_ce w))"
    and "prop_block_hash p = block_ComputeHash H (ew_blocks w (prop_block p))"
    and "prop_block_hash p \<notin> gkeys (cd_blocks (ce_dag (ew_ce w)))"
    and "int (glen (cd_blocks (ce_dag (ew_ce w)))) < cd_maxBlocks (ce_dag (ew_ce w))" "gwf (cd_blocks (ce_dag (ew_ce w)))"
    and "ce_verifyBlockSignature (ce_validators (ew_ce w)) (hd_of (ew_blocks w) (prop_block p)) = Some err"
  shows "\<exists>w'. ce_HandleProposal H sha ord ordm p w = Inr (w', Some err)
    \<and> core_GetBlock (ce_dag (ew_ce w')) (prop_block_hash p) = Inr (prop_block p)"
proof -
  let ?d = "ce_dag (ew_ce w)" and ?b = "prop_block p"
  have "int (glen (cd_blocks (core_inserted H (ew_blocks w) ?b ?d))) \<le> cd_maxBlocks ?d"
    using assms(4-7) by (simp add: core_inserted_def glen_gput)
  then have "core_AddBlock H (ew_blocks w) ord ?b ?d = Inr (core_inserted H (ew_blocks w) ?b ?d)"
    using assms(4,5) by (simp add: core_AddBlock_alt)
  then have "ce_verifyProposal H (ew_blocks w) ord p (ew_ce w)
      = (set_dag (core_inserted H (ew_blocks w) ?b ?d) (ew_ce w), Some err)"
    using assms by (simp add: ce_verifyProposal_def)
  then show ?thesis
    using assms(1,2,4) by (simp add: ce_HandleProposal_def Let_def core_GetBlock_def core_inserted_def)
qed

text \<open>A proposal is remembered before its block is processed.  When processing fails - a parent
  or reference that is not there yet, or a transaction that does not apply - the same
  proposal is taken for a duplicate from then on: it is answered with success and nothing is
  committed.\<close>

theorem failed_proposal_not_retried:
  assumes "ce_HandleProposal H sha ord ordm p w = Inr (w', Some err)"
    and "err = ErrParent \<or> err = ErrReference \<or> err = ErrState e"
  shows "ce_HandleProposal H sha' ord' ordm' p w' = Inr (w', None)"
proof -
  obtain ce1 e1 where v: "ce_verifyProposal H (ew_blocks w) ord p (ew_ce w) = (ce1, e1)"
    by fastforce
  have sig: "e1 = None \<or> e1 \<in> {Some ErrProposer, Some ErrHashMismatch, Some ErrSignature, Some ErrSigner}"
    using v by (auto simp: ce_verifyProposal_def ce_verifyBlockSignature_def Let_def split: if_splits)
  have run: "ce_running (ew_ce w)" "\<not> ghas (ce_proposals (ew_ce w)) (prop_block_hash p)" "e1 = None"
    using assms v sig by (auto simp: ce_HandleProposal_def Let_def split: if_splits)
  then obtain w1 where w1: "ce_processBlock H sha ord ordm (prop_block p) w1 = Inr (w', Some err)"
      "ghas (ce_proposals (ew_ce w1)) (prop_block_hash p)" "ce_running (ew_ce w1)"
    using assms(1) v verifyProposal_frame [OF v] by (auto simp: ce_HandleProposal_def Let_def ghas_def)
  have "ce_running (ew_ce w')" "ghas (ce_proposals (ew_ce w')) (prop_block_hash p)"
    using processBlock_frame [OF w1(1)] w1(2,3) by simp_all
  then show ?thesis
    by (simp add: ce_HandleProposal_def Let_def)
qed

text \<open>\<open>BroadcastBlock\<close> replaces the signature in the header of a block that is already in the
  DAG under its old hash.  Unless the digests collide, the DAG then holds the block under a
  key that is not its hash, and the hash that is broadcast - the one other blocks will refer
  to - is not in the DAG.\<close>

theorem broadcast_block_leaves_key:
  assumes "ce_running (ew_ce w)" "hash_agrees H (ew_blocks w) (cd_blocks (ce_dag (ew_ce w)))"
    and "core_GetBlock (ce_dag (ew_ce w)) (block_ComputeHash H (ew_blocks w b)) = Inr b"
    and "h = block_ComputeHash H (ce_signBlock now (ce_node (ew_ce w)) (ew_blocks w b))"
    and "h \<notin> gkeys (cd_blocks (ce_dag (ew_ce w)))"
    and "ce_BroadcastBlock H now (Some b) w = ((w', err), msgs)"
  shows "err = None \<and> block_ComputeHash H (ew_blocks w' b) = h
    \<and> gget (ce_proposals (ew_ce w')) h \<noteq> None \<and> missing (ce_dag (ew_ce w')) h
    \<and> core_GetBlock (ce_dag (ew_ce w')) (block_ComputeHash H (ew_blocks w b)) = Inr b
    \<and> \<not> hash_agrees H (ew_blocks w') (cd_blocks (ce_dag (ew_ce w')))"
proof -
  have w': "ew_blocks w' = (ew_blocks w)(b := ce_signBlock now (ce_node (ew_ce w)) (ew_blocks w b))"
    "ce_bp (ew_ce w') = ce_bp (ew_ce w)" "err = None" "gget (ce_proposals (ew_ce w')) h \<noteq> None"
    using assms(1,4,6) by (auto simp: ce_BroadcastBlock_def Let_def)
  have key: "gget (cd_blocks (ce_dag (ew_ce w))) (block_ComputeHash H (ew_blocks w b)) = Some b"
    using assms(3) by (simp add: core_GetBlock_def split: option.splits)
  have "missing (ce_dag (ew_ce w')) h"
    using assms(5) w'(2) by (simp add: missing_def core_GetBlock_def gkeys_iff)
  moreover have "h \<noteq> block_ComputeHash H (ew_blocks w b)"
    using key assms(5) by (auto simp: gkeys_iff)
  then have "\<not> hash_agrees H (ew_blocks w') (cd_blocks (ce_dag (ew_ce w')))"
    using key w'(1,2) assms(4) unfolding hash_agrees_def by (metis fun_upd_same)
  ultimately show ?thesis
    using w' assms(3,4) by simp
qed

section \<open>Witnesses\<close>

definition sample_config :: engine_config where
  "sample_config = \<lparr>ec_node_id = ''v0'', ec_wave_timeout = 1000, ec_round_duration = 100,
     ec_validator_set = [''v0'', ''v1''], ec_quorum_size = 2, ec_listen_addr = ''host'', ec_seeds = [], ec_total_validators = 2\<rparr>"

definition sample_engine :: consensus_engine where
  "sample_engine = NewConsensusEngine sample_config NewStateManager (bw_bp sample_world)"

definition started_engine :: consensus_engine where
  "started_engine = sample_engine\<lparr>ce_running := True, ce_validators := [''v0'', ''v1''],
     ce_wave := Some (NewWaveState 0 1 1000 2), ce_leader := ''v1''\<rparr>"

lemma sample_leader: "engine_selectLeader old [''v0'', ''v1''] 1 = Inr ''v1''"
  by (simp add: engine_selectLeader_def rotation_leader_def go_int_def go_rem_def go_index_def smod_int_alt_def)

lemma sample_started: "ce_Start sample_digest sample_heap 0 (\<lambda>_. []) [] True sample_engine = Inr (started_engine, None)"
  by (simp add: ce_Start_def started_engine_def sample_engine_def NewConsensusEngine_def sample_config_def sample_world_def
      types_NewState_def ce_selectLeader_def NewWaveState_def sample_leader Let_def)

lemma started_reach: "engine_reach sample_config started_engine"
  unfolding sample_engine_def by (rule engine_reach.start [OF engine_reach.init sample_started [unfolded sample_engine_def]])

lemma started_simps [simp]:
  "ce_running started_engine" "ce_dag started_engine = core_NewDAG" "ce_validators started_engine = [''v0'', ''v1'']"
  "ce_proposals started_engine = []" "ce_votes started_engine = []" "ce_wave started_engine = Some (NewWaveState 0 1 1000 2)"
  "ce_node started_engine = ''v0''"
  by (simp_all add: started_engine_def sample_engine_def NewConsensusEngine_def sample_world_def sample_config_def)

definition sample_block_vote :: vote where
  "sample_block_vote = \<lparr>vote_block_hash = sample_key 1, vote_round = 1, vote_wave = 1, vote_validator = ''v1'', vote_time = 0,
     vote_proposal_id = sample_key 1, vote_block = Some 1, vote_type = VoteTypeApprove, vote_signature = sample_signature\<rparr>"

theorem votes_never_finalise_wave_witness:
  "\<exists>ce'. ce_HandleVote sample_digest sample_heap [] sample_block_vote started_engine = (ce', None)
     \<and> slice_at (ce_votes ce') (sample_key 1) = [sample_block_vote] \<and> \<not> ce_HasQuorum ce'"
proof -
  obtain ce' where ce': "ce_HandleVote sample_digest sample_heap [] sample_block_vote started_engine = (ce', None)"
    by (simp add: ce_HandleVote_def core_GetBlock_def core_NewDAG_def sample_block_vote_def core_AddBlock_def Let_def ghas_def)
  then show ?thesis
    using votes_never_finalise_wave [OF started_reach _ ce'] by (simp add: sample_config_def sample_block_vote_def)
qed

definition sample_engine_world :: "block_heap \<Rightarrow> engine_world" where
  "sample_engine_world hp = \<lparr>ew_blocks = hp, ew_txs = priced_tx_heap, ew_ce = started_engine\<rparr>"

definition sample_block_proposal :: proposal where
  "sample_block_proposal = \<lparr>prop_id = sample_key 1, prop_block_hash = sample_key 1, prop_round = 1, prop_wave = 1,
     prop_block = 1, prop_proposer = ''v1'', prop_time = 0, prop_status = ProposalStatusPending, prop_signature = sample_signature\<rparr>"

theorem rejected_block_stays_witness:
  "\<exists>w'. ce_HandleProposal sample_digest id [] [] sample_block_proposal (sample_engine_world sample_heap) = Inr (w', Some ErrSignature)
     \<and> core_GetBlock (ce_dag (ew_ce w')) (sample_key 1) = Inr 1"
  using rejected_block_stays [of "sample_engine_world sample_heap" sample_block_proposal sample_digest ErrSignature id "[]" "[]"]
  by (simp add: sample_engine_world_def sample_block_proposal_def core_NewDAG_def ghas_def ce_verifyBlockSignature_def
      sample_heap_def sample_block_def sample_header_def sample_signature_def block_ComputeHash_def sample_digest_def sample_key_def)

definition signed_heap :: block_heap where
  "signed_heap n = (sample_heap n)\<lparr>blk_header := (hd_of sample_heap n)\<lparr>hdr_signature :=
     \<lparr>sig_validator = ''v1'', sig_bytes = [1], sig_time = 0\<rparr>\<rparr>\<rparr>"

lemma signed_heap_hash: "block_ComputeHash sample_digest (signed_heap n) = sample_key n"
  by (simp add: signed_heap_def block_ComputeHash_def sample_digest_def sample_defs)

lemma sample_key_1_0: "sample_key 0 \<noteq> sample_key (Suc 0)"
  using sample_key_inj [of 0 "Suc 0"] by simp

lemma signed_header:
  "hdr_signature (hd_of signed_heap (Suc 0)) = \<lparr>sig_validator = ''v1'', sig_bytes = [1], sig_time = 0\<rparr>"
  "hdr_parent (hd_of signed_heap (Suc 0)) = []" "map ref_hash (hdr_references (hd_of signed_heap (Suc 0))) = [sample_key 0]"
  by (simp_all add: signed_heap_def sample_heap_def sample_block_def sample_header_def)

lemma unknown_reference:
  "\<exists>w'. ce_HandleProposal sample_digest id [] [] sample_block_proposal (sample_engine_world signed_heap) = Inr (w', Some ErrReference)"
proof -
  let ?d = "core_inserted sample_digest signed_heap (Suc 0) core_NewDAG"
  have "core_AddBlock sample_digest signed_heap [] (Suc 0) core_NewDAG = Inr ?d"
    by (simp add: core_AddBlock_alt core_inserted_def core_NewDAG_def glen_gput)
  then have v: "ce_verifyProposal sample_digest signed_heap [] sample_block_proposal started_engine = (set_dag ?d started_engine, None)"
    by (simp add: ce_verifyProposal_def sample_block_proposal_def signed_heap_hash ce_verifyBlockSignature_def signed_header)
  have "missing ?d (sample_key 0)"
    using sample_key_1_0 by (simp add: missing_def core_GetBlock_def core_inserted_def core_NewDAG_def signed_heap_hash)
  then have "list_ex (\<lambda>r. missing ?d (ref_hash r)) (hdr_references (hd_of signed_heap (Suc 0)))"
    using signed_header(3) by (auto simp: list_ex_iff)
  then have "ce_verifyBlock ce (signed_heap (Suc 0)) = Some ErrReference"
    if "ce_validators ce = [''v0'', ''v1'']" "ce_dag ce = ?d" for ce
    using that by (simp add: ce_verifyBlock_def ce_verifyBlockSignature_def ce_verifyBlockReferences_def signed_header)
  then show ?thesis
    using v by (simp add: ce_HandleProposal_def sample_engine_world_def Let_def ghas_def ce_processBlock_def
        sample_block_proposal_def set_dag_def)
qed

theorem failed_proposal_not_retried_witness:
  "\<exists>w'. ce_HandleProposal sample_digest id [] [] sample_block_proposal (sample_engine_world signed_heap) = Inr (w', Some ErrReference)
     \<and> ce_HandleProposal sample_digest id [] [] sample_block_proposal w' = Inr (w', None)"
  using unknown_reference failed_proposal_not_retried by blast

definition sig_digest :: header_digest where
  "sig_digest h = sig_bytes (hdr_signature h)"

definition stored_world :: engine_world where
  "stored_world = \<lparr>ew_blocks = signed_heap, ew_txs = priced_tx_heap,
     ew_ce = set_dag (core_NewDAG\<lparr>cd_blocks := [([1], 1)]\<rparr>) started_engine\<rparr>"

theorem broadcast_block_leaves_key_witness:
  "\<exists>w' msgs. ce_BroadcastBlock sig_digest 5 (Some 1) stored_world = ((w', None), msgs)
     \<and> missing (ce_dag (ew_ce w')) (bytes_of ''dummy_signature'')"
proof -
  obtain w' msgs where b: "ce_BroadcastBlock sig_digest 5 (Some 1) stored_world = ((w', None), msgs)"
    by (simp add: ce_BroadcastBlock_def Let_def stored_world_def)
  have run: "ce_running (ew_ce stored_world)"
    by (simp add: stored_world_def)
  have ha: "hash_agrees sig_digest (ew_blocks stored_world) (cd_blocks (ce_dag (ew_ce stored_world)))"
    by (auto simp: hash_agrees_def stored_world_def gget_def block_ComputeHash_def sig_digest_def signed_heap_def split: if_splits)
  have h: "bytes_of ''dummy_signature'' = block_ComputeHash sig_digest
      (ce_signBlock 5 (ce_node (ew_ce stored_world)) (ew_blocks stored_world 1))"
    by (simp add: block_ComputeHash_def sig_digest_def ce_signBlock_def)
  have new: "bytes_of ''dummy_signature'' \<notin> gkeys (cd_blocks (ce_dag (ew_ce stored_world)))"
    by (simp add: stored_world_def gkeys_def bytes_of_def)
  have get: "core_GetBlock (ce_dag (ew_ce stored_world)) (block_ComputeHash sig_digest (ew_blocks stored_world 1)) = Inr 1"
    by (simp add: stored_world_def core_GetBlock_def gget_def block_ComputeHash_def sig_digest_def signed_heap_def)
  show ?thesis
    using broadcast_block_leaves_key [OF run ha get h new b] b by blast
qed

end
