(* ===== verification/Evm_State.thy ===== *)
theory Evm_State
  imports Chain_Types
begin

text \<open>
  \<open>internal/evm/account.go\<close> and \<open>state.go\<close>: Ethereum-style accounts with unbounded
  balances (\<open>*big.Int\<close> is \<open>int\<close>), code and storage.  Reading an account that is not there
  creates it, so every getter returns the state as well.  \<open>keccak\<close> is Keccak-256; an
  address is its bytes.
\<close>

section \<open>Accounts\<close>

type_synonym eaddress = "byte list"

definition zero_hash :: hash where
  "zero_hash = replicate 32 0"

record evm_account =
  ea_address :: eaddress
  ea_nonce :: u64
  ea_balance :: int
  ea_code_hash :: hash
  ea_code :: "byte list"
  ea_storage :: "(hash, hash) gomap"

definition evm_NewAccount :: "eaddress \<Rightarrow> evm_account" where
  "evm_NewAccount a = \<lparr>ea_address = a, ea_nonce = 0, ea_balance = 0, ea_code_hash = zero_hash, ea_code = [], ea_storage = []\<rparr>"

text \<open>\<open>pubaddr\<close> is \<open>crypto.ToECDSA\<close> and \<open>crypto.PubkeyToAddress\<close>.\<close>

definition NewAccountFromPrivateKey :: "(byte list \<Rightarrow> eaddress option) \<Rightarrow> byte list \<Rightarrow> evm_account option" where
  "NewAccountFromPrivateKey pubaddr privateKey = map_option evm_NewAccount (pubaddr privateKey)"

definition acc_SetBalance :: "int \<Rightarrow> evm_account \<Rightarrow> evm_account" where
  "acc_SetBalance b acc = acc\<lparr>ea_balance := b\<rparr>"

definition acc_AddBalance :: "int \<Rightarrow> evm_account \<Rightarrow> evm_account" where
  "acc_AddBalance v acc = acc\<lparr>ea_balance := ea_balance acc + v\<rparr>"

definition acc_SubBalance :: "int \<Rightarrow> evm_account \<Rightarrow> evm_account \<times> bool" where
  "acc_SubBalance v acc = (if ea_balance acc < v then (acc, False) else (acc\<lparr>ea_balance := ea_balance acc - v\<rparr>, True))"

definition acc_SetNonce :: "u64 \<Rightarrow> evm_account \<Rightarrow> evm_account" where
  "acc_SetNonce n acc = acc\<lparr>ea_nonce := n\<rparr>"

definition acc_IncrementNonce :: "evm_account \<Rightarrow> evm_account" where
  "acc_IncrementNonce acc = acc\<lparr>ea_nonce := ea_nonce acc + 1\<rparr>"

definition acc_SetCodeHash :: "hash \<Rightarrow> evm_account \<Rightarrow> evm_account" where
  "acc_SetCodeHash h acc = acc\<lparr>ea_code_hash := h\<rparr>"

definition acc_SetCode :: "(byte list \<Rightarrow> hash) \<Rightarrow> byte list \<Rightarrow> evm_account \<Rightarrow> evm_account" where
  "acc_SetCode keccak code acc = acc\<lparr>ea_code := code, ea_code_hash := keccak code\<rparr>"

definition acc_IsContract :: "evm_account \<Rightarrow> bool" where
  "acc_IsContract acc = (length (ea_code acc) > 0)"

definition acc_GetStorage :: "evm_account \<Rightarrow> hash \<Rightarrow> hash" where
  "acc_GetStorage acc k = (case gget (ea_storage acc) k of None \<Rightarrow> zero_hash | Some v \<Rightarrow> v)"

definition acc_SetStorage :: "hash \<Rightarrow> hash \<Rightarrow> evm_account \<Rightarrow> evm_account" where
  "acc_SetStorage k v acc = acc\<lparr>ea_storage := gput k v (ea_storage acc)\<rparr>"

text \<open>\<open>Copy\<close> copies every field; the storage map is rebuilt key by key.\<close>

definition acc_Copy :: "evm_account \<Rightarrow> evm_account" where
  "acc_Copy acc = \<lparr>ea_address = ea_address acc, ea_nonce = ea_nonce acc, ea_balance = ea_balance acc,
     ea_code_hash = ea_code_hash acc, ea_code = ea_code acc, ea_storage = ea_storage acc\<rparr>"

section \<open>The state\<close>

record evm_state =
  es_accounts :: "(eaddress, evm_account) gomap"
  es_root :: hash

definition evm_NewState :: evm_state where
  "evm_NewState = \<lparr>es_accounts = [], es_root = zero_hash\<rparr>"

definition account_at :: "evm_state \<Rightarrow> eaddress \<Rightarrow> evm_account" where
  "account_at s a = (case gget (es_accounts s) a of None \<Rightarrow> evm_NewAccount a | Some acc \<Rightarrow> acc)"

definition es_GetAccount :: "eaddress \<Rightarrow> evm_state \<Rightarrow> evm_account \<times> evm_state" where
  "es_GetAccount a s = (case gget (es_accounts s) a of
     Some acc \<Rightarrow> (acc, s)
   | None \<Rightarrow> (evm_NewAccount a, s\<lparr>es_accounts := gput a (evm_NewAccount a) (es_accounts s)\<rparr>))"

definition es_GetOrCreateAccount :: "eaddress \<Rightarrow> evm_state \<Rightarrow> evm_account \<times> evm_state" where
  "es_GetOrCreateAccount a s = es_GetAccount a s"

definition es_AccountExists :: "evm_state \<Rightarrow> eaddress \<Rightarrow> bool" where
  "es_AccountExists s a = ghas (es_accounts s) a"

text \<open>\<open>GetAccount\<close> and a write through the pointer it returns.\<close>

definition on_account :: "eaddress \<Rightarrow> (evm_account \<Rightarrow> evm_account) \<Rightarrow> evm_state \<Rightarrow> evm_state" where
  "on_account a f s = (let (acc, s1) = es_GetAccount a s in s1\<lparr>es_accounts := gput a (f acc) (es_accounts s1)\<rparr>)"

definition invalidateRoot :: "evm_state \<Rightarrow> evm_state" where
  "invalidateRoot s = s\<lparr>es_root := zero_hash\<rparr>"

definition es_GetBalance :: "eaddress \<Rightarrow> evm_state \<Rightarrow> int \<times> evm_state" where
  "es_GetBalance a s = (let (acc, s1) = es_GetAccount a s in (ea_balance acc, s1))"

definition es_SetBalance :: "eaddress \<Rightarrow> int \<Rightarrow> evm_state \<Rightarrow> evm_state" where
  "es_SetBalance a b s = invalidateRoot (on_account a (acc_SetBalance b) s)"

definition es_AddBalance :: "eaddress \<Rightarrow> int \<Rightarrow> evm_state \<Rightarrow> evm_state" where
  "es_AddBalance a v s = invalidateRoot (on_account a (acc_AddBalance v) s)"

definition es_SubBalance :: "eaddress \<Rightarrow> int \<Rightarrow> evm_state \<Rightarrow> evm_state \<times> bool" where
  "es_SubBalance a v s =
     (let (acc, s1) = es_GetAccount a s; (acc', ok) = acc_SubBalance v acc;
          s2 = s1\<lparr>es_accounts := gput a acc' (es_accounts s1)\<rparr>
      in (if ok then invalidateRoot s2 else s2, ok))"

definition es_GetNonce :: "eaddress \<Rightarrow> evm_state \<Rightarrow> u64 \<times> evm_state" where
  "es_GetNonce a s = (let (acc, s1) = es_GetAccount a s in (ea_nonce acc, s1))"

definition es_SetNonce :: "eaddress \<Rightarrow> u64 \<Rightarrow> evm_state \<Rightarrow> evm_state" where
  "es_SetNonce a n s = invalidateRoot (on_account a (acc_SetNonce n) s)"

definition es_IncrementNonce :: "eaddress \<Rightarrow> evm_state \<Rightarrow> evm_state" where
  "es_IncrementNonce a s = invalidateRoot (on_account a acc_IncrementNonce s)"

definition es_GetCode :: "eaddress \<Rightarrow> evm_state \<Rightarrow> byte list \<times> evm_state" where
  "es_GetCode a s = (let (acc, s1) = es_GetAccount a s in (ea_code acc, s1))"

definition es_SetCode :: "(byte list \<Rightarrow> hash) \<Rightarrow> eaddress \<Rightarrow> byte list \<Rightarrow> evm_state \<Rightarrow> evm_state" where
  "es_SetCode keccak a code s = invalidateRoot (on_account a (acc_SetCode keccak code) s)"

definition es_GetCodeHash :: "eaddress \<Rightarrow> evm_state \<Rightarrow> hash \<times> evm_state" where
  "es_GetCodeHash a s = (let (acc, s1) = es_GetAccount a s in (ea_code_hash acc, s1))"

definition es_GetStorage :: "eaddress \<Rightarrow> hash \<Rightarrow> evm_state \<Rightarrow> hash \<times> evm_state" where
  "es_GetStorage a k s = (let (acc, s1) = es_GetAccount a s in (acc_GetStorage acc k, s1))"

definition es_SetStorage :: "eaddress \<Rightarrow> hash \<Rightarrow> hash \<Rightarrow> evm_state \<Rightarrow> evm_state" where
  "es_SetStorage a k v s = invalidateRoot (on_account a (acc_SetStorage k v) s)"

definition es_IsContract :: "eaddress \<Rightarrow> evm_state \<Rightarrow> bool \<times> evm_state" where
  "es_IsContract a s = (let (acc, s1) = es_GetAccount a s in (acc_IsContract acc, s1))"

datatype evm_error =
    ErrEvmInsufficientGas | ErrEvmInvalidNonce | ErrEvmInsufficientBalance | ErrContractNotFound
  | ErrInvalidSignature | ErrContractCreationFailed | ErrContractExists | ErrVm string

text \<open>\<open>CreateContract\<close> holds \<open>s.mu\<close> and calls \<open>GetAccount\<close>, which waits for it.\<close>

definition es_CreateContract :: "eaddress \<Rightarrow> byte list \<Rightarrow> evm_state \<Rightarrow> go_panic + (evm_error + evm_state)" where
  "es_CreateContract a code s = (case gget (es_accounts s) a of
     Some acc \<Rightarrow> if acc_IsContract acc then Inr (Inl ErrContractExists) else Inl Deadlock
   | None \<Rightarrow> Inl Deadlock)"

definition es_Copy :: "evm_state \<Rightarrow> evm_state" where
  "es_Copy s = \<lparr>es_accounts = gmap_vals acc_Copy (es_accounts s), es_root = es_root s\<rparr>"

text \<open>\<open>big.Int.Bytes\<close>: the magnitude, most significant byte first, without leading zeros.\<close>

fun big_bytes :: "nat \<Rightarrow> byte list" where
  "big_bytes n = (if n = 0 then [] else big_bytes (n div 256) @ [word_of_nat n])"

declare big_bytes.simps [simp del]

definition evm_account_bytes :: "hash list \<Rightarrow> eaddress \<times> evm_account \<Rightarrow> byte list" where
  "evm_account_bytes ordk x = (case x of (a, acc) \<Rightarrow>
     a @ ea_code_hash acc @ big_bytes (nat \<bar>ea_balance acc\<bar>) @ rev (uint64ToBytes (ea_nonce acc))
       @ concat (map (\<lambda>(k, v). k @ v) (range_items ordk (ea_storage acc))))"

definition updateRoot :: "(byte list \<Rightarrow> hash) \<Rightarrow> eaddress list \<Rightarrow> (eaddress \<Rightarrow> hash list) \<Rightarrow> evm_state \<Rightarrow> evm_state" where
  "updateRoot keccak ord ordk s = s\<lparr>es_root := keccak (concat (map (\<lambda>x. evm_account_bytes (ordk (fst x)) x)
     (range_items ord (es_accounts s))))\<rparr>"

definition es_Root :: "(byte list \<Rightarrow> hash) \<Rightarrow> eaddress list \<Rightarrow> (eaddress \<Rightarrow> hash list) \<Rightarrow> evm_state \<Rightarrow> hash \<times> evm_state" where
  "es_Root keccak ord ordk s =
     (let s1 = (if es_root s = zero_hash then updateRoot keccak ord ordk s else s) in (es_root s1, s1))"

definition es_GetAllAccounts :: "evm_state \<Rightarrow> (eaddress, evm_account) gomap" where
  "es_GetAllAccounts s = gmap_vals acc_Copy (es_accounts s)"

section \<open>Lemmas\<close>

text \<open>All that can be seen of a state is \<open>account_at\<close>: getters return it and do not change it.\<close>

lemma es_GetAccount_eq: "fst (es_GetAccount a s) = account_at s a"
  by (simp add: es_GetAccount_def account_at_def split: option.split)

lemma account_at_GetAccount: "account_at (snd (es_GetAccount a s)) b = account_at s b"
  by (simp add: es_GetAccount_def account_at_def split: option.split)

lemma account_at_on_account: "account_at (on_account a f s) b = (if b = a then f (account_at s a) else account_at s b)"
  by (simp add: on_account_def es_GetAccount_def account_at_def split: option.split)

lemma account_at_invalidate [simp]: "account_at (invalidateRoot s) a = account_at s a"
  by (simp add: invalidateRoot_def account_at_def)

lemma account_at_Copy [simp]: "account_at (es_Copy s) a = account_at s a"
  by (simp add: es_Copy_def account_at_def acc_Copy_def split: option.split)

lemma account_at_Root [simp]: "account_at (snd (es_Root keccak ord ordk s)) a = account_at s a"
  by (simp add: es_Root_def updateRoot_def account_at_def Let_def)

lemma getter_simps [simp]:
  "fst (es_GetBalance a s) = ea_balance (account_at s a)" "account_at (snd (es_GetBalance a s)) b = account_at s b"
  "fst (es_GetNonce a s) = ea_nonce (account_at s a)" "account_at (snd (es_GetNonce a s)) b = account_at s b"
  "fst (es_GetCode a s) = ea_code (account_at s a)" "account_at (snd (es_GetCode a s)) b = account_at s b"
  "fst (es_GetStorage a k s) = acc_GetStorage (account_at s a) k" "account_at (snd (es_GetStorage a k s)) b = account_at s b"
  by (simp_all add: es_GetBalance_def es_GetNonce_def es_GetCode_def es_GetStorage_def case_prod_beta
      es_GetAccount_eq account_at_GetAccount)

lemma setter_simps [simp]:
  "account_at (es_SetBalance a v s) b = (if b = a then acc_SetBalance v (account_at s a) else account_at s b)"
  "account_at (es_AddBalance a v s) b = (if b = a then acc_AddBalance v (account_at s a) else account_at s b)"
  "account_at (es_SetNonce a n s) b = (if b = a then acc_SetNonce n (account_at s a) else account_at s b)"
  "account_at (es_SetCode keccak a code s) b = (if b = a then acc_SetCode keccak code (account_at s a) else account_at s b)"
  "account_at (es_SetStorage a k w s) b = (if b = a then acc_SetStorage k w (account_at s a) else account_at s b)"
  by (simp_all add: es_SetBalance_def es_AddBalance_def es_SetNonce_def es_SetCode_def es_SetStorage_def account_at_on_account)

lemma account_at_SubBalance:
  "account_at (fst (es_SubBalance a v s)) b =
     (if b = a then fst (acc_SubBalance v (account_at s a)) else account_at s b)"
  "snd (es_SubBalance a v s) = (v \<le> ea_balance (account_at s a))"
  by (auto simp: es_SubBalance_def acc_SubBalance_def Let_def es_GetAccount_def account_at_def invalidateRoot_def
      split: option.split prod.split)

text \<open>Two states that look the same.\<close>

definition same_accounts :: "evm_state \<Rightarrow> evm_state \<Rightarrow> bool" where
  "same_accounts s t = (\<forall>a. account_at s a = account_at t a)"

lemma es_CreateContract_blocks: "\<not> acc_IsContract (account_at s a) \<Longrightarrow> es_CreateContract a code s = Inl Deadlock"
  by (auto simp: es_CreateContract_def account_at_def split: option.splits)

end
