(* ===== verification/Evm_Exec.thy ===== *)
theory Evm_Exec
  imports Evm_State
begin

text \<open>
  \<open>internal/evm/execution.go\<close> and \<open>types.go\<close>: the executor and the adapter through which the
  virtual machine sees the state.  The machine itself is go-ethereum's: \<open>vm_create\<close> and \<open>vm_call\<close>
  are arguments, functions of a context, the call and the state behind the adapter, and
  \<open>create_address\<close> is \<open>crypto.CreateAddress\<close>.  A result holds what \<open>ExecutionResult\<close> holds.
\<close>

section \<open>Transactions and contracts\<close>

record evm_tx =
  et_from :: eaddress
  et_to :: "eaddress option"
  et_value :: int
  et_gas_price :: int
  et_gas_limit :: u64
  et_nonce :: u64
  et_data :: "byte list"
  et_time :: u64
  et_hash :: hash
  et_signature :: "byte list"

record evm_contract =
  ec_address :: eaddress
  ec_code :: "byte list"
  ec_storage :: "(hash, hash) gomap"

definition NewContract :: "eaddress \<Rightarrow> byte list \<Rightarrow> evm_contract" where
  "NewContract a code = \<lparr>ec_address = a, ec_code = code, ec_storage = []\<rparr>"

definition CreateContractAddress :: "(eaddress \<Rightarrow> u64 \<Rightarrow> eaddress) \<Rightarrow> eaddress \<Rightarrow> u64 \<Rightarrow> eaddress" where
  "CreateContractAddress create_address deployer nonce = create_address deployer nonce"

definition evm_CreateHash :: "(byte list \<Rightarrow> hash) \<Rightarrow> evm_tx \<Rightarrow> hash" where
  "evm_CreateHash keccak tx =
     (let bytes = et_from tx @ et_data tx;
          bytes = (case et_to tx of None \<Rightarrow> bytes | Some t \<Rightarrow> bytes @ t)
      in keccak bytes)"

record exec_result =
  er_success :: bool
  er_gas_used :: u64
  er_return :: "byte list"
  er_error :: "evm_error option"
  er_root :: hash
  er_created :: "eaddress option"

definition failed_result :: "evm_error \<Rightarrow> exec_result" where
  "failed_result e = \<lparr>er_success = False, er_gas_used = 0, er_return = [], er_error = Some e,
     er_root = zero_hash, er_created = None\<rparr>"

text \<open>\<open>Contract.Execute\<close> runs nothing.\<close>

definition contract_Execute ::
  "(byte list \<Rightarrow> hash) \<Rightarrow> eaddress list \<Rightarrow> (eaddress \<Rightarrow> hash list) \<Rightarrow> evm_contract \<Rightarrow> evm_state \<Rightarrow> exec_result \<times> evm_state" where
  "contract_Execute keccak ord ordk c s = (let (root, s1) = es_Root keccak ord ordk s
     in (\<lparr>er_success = True, er_gas_used = 0, er_return = [], er_error = None, er_root = root, er_created = None\<rparr>, s1))"

section \<open>The state adapter\<close>

text \<open>\<open>StateDBAdapter\<close>: what \<open>vm.StateDB\<close> asks for.  Refunds, logs, access lists, transient
  storage, self-destruction and snapshots are not implemented: the operations return a
  constant and change nothing.\<close>

definition db_CreateAccount :: "eaddress \<Rightarrow> evm_state \<Rightarrow> evm_state" where
  "db_CreateAccount a s = snd (es_GetAccount a s)"

definition db_SubBalance :: "eaddress \<Rightarrow> int \<Rightarrow> evm_state \<Rightarrow> evm_state" where
  "db_SubBalance a v s = fst (es_SubBalance a v s)"

definition db_AddBalance :: "eaddress \<Rightarrow> int \<Rightarrow> evm_state \<Rightarrow> evm_state" where
  "db_AddBalance a v s = es_AddBalance a v s"

definition db_GetBalance :: "eaddress \<Rightarrow> evm_state \<Rightarrow> int \<times> evm_state" where
  "db_GetBalance a s = es_GetBalance a s"

definition db_GetNonce :: "eaddress \<Rightarrow> evm_state \<Rightarrow> u64 \<times> evm_state" where
  "db_GetNonce a s = es_GetNonce a s"

definition db_SetNonce :: "eaddress \<Rightarrow> u64 \<Rightarrow> evm_state \<Rightarrow> evm_state" where
  "db_SetNonce a n s = es_SetNonce a n s"

definition db_GetCodeHash :: "eaddress \<Rightarrow> evm_state \<Rightarrow> hash \<times> evm_state" where
  "db_GetCodeHash a s = es_GetCodeHash a s"

definition db_GetCode :: "eaddress \<Rightarrow> evm_state \<Rightarrow> byte list \<times> evm_state" where
  "db_GetCode a s = es_GetCode a s"

definition db_SetCode :: "(byte list \<Rightarrow> hash) \<Rightarrow> eaddress \<Rightarrow> byte list \<Rightarrow> evm_state \<Rightarrow> evm_state" where
  "db_SetCode keccak a code s = es_SetCode keccak a code s"

definition db_GetCodeSize :: "eaddress \<Rightarrow> evm_state \<Rightarrow> nat \<times> evm_state" where
  "db_GetCodeSize a s = (let (code, s1) = es_GetCode a s in (length code, s1))"

definition db_AddRefund :: "u64 \<Rightarrow> evm_state \<Rightarrow> evm_state" where
  "db_AddRefund gas s = s"

definition db_SubRefund :: "u64 \<Rightarrow> evm_state \<Rightarrow> evm_state" where
  "db_SubRefund gas s = s"

definition db_GetRefund :: "evm_state \<Rightarrow> u64" where
  "db_GetRefund s = 0"

definition db_GetCommittedState :: "eaddress \<Rightarrow> hash \<Rightarrow> evm_state \<Rightarrow> hash \<times> evm_state" where
  "db_GetCommittedState a k s = es_GetStorage a k s"

definition db_GetState :: "eaddress \<Rightarrow> hash \<Rightarrow> evm_state \<Rightarrow> hash \<times> evm_state" where
  "db_GetState a k s = es_GetStorage a k s"

definition db_SetState :: "eaddress \<Rightarrow> hash \<Rightarrow> hash \<Rightarrow> evm_state \<Rightarrow> evm_state" where
  "db_SetState a k v s = es_SetStorage a k v s"

definition db_Suicide :: "eaddress \<Rightarrow> evm_state \<Rightarrow> bool \<times> evm_state" where
  "db_Suicide a s = (False, s)"

definition db_HasSuicided :: "eaddress \<Rightarrow> evm_state \<Rightarrow> bool" where
  "db_HasSuicided a s = False"

definition db_Exist :: "eaddress \<Rightarrow> evm_state \<Rightarrow> bool" where
  "db_Exist a s = es_AccountExists s a"

definition db_Empty :: "eaddress \<Rightarrow> evm_state \<Rightarrow> bool \<times> evm_state" where
  "db_Empty a s =
     (if \<not> es_AccountExists s a then (True, s)
      else let (b, s1) = es_GetBalance a s; (n, s2) = es_GetNonce a s1; (code, s3) = es_GetCode a s2
           in (sgn b = 0 \<and> n = 0 \<and> length code = 0, s3))"

definition db_AddressInAccessList :: "eaddress \<Rightarrow> evm_state \<Rightarrow> bool" where
  "db_AddressInAccessList a s = False"

definition db_SlotInAccessList :: "eaddress \<Rightarrow> hash \<Rightarrow> evm_state \<Rightarrow> bool \<times> bool" where
  "db_SlotInAccessList a slot s = (False, False)"

definition db_Snapshot :: "evm_state \<Rightarrow> int \<times> evm_state" where
  "db_Snapshot s = (0, s)"

definition db_RevertToSnapshot :: "int \<Rightarrow> evm_state \<Rightarrow> evm_state" where
  "db_RevertToSnapshot i s = s"

definition db_GetTransientState :: "eaddress \<Rightarrow> hash \<Rightarrow> evm_state \<Rightarrow> hash" where
  "db_GetTransientState a k s = zero_hash"

definition db_SetTransientState :: "eaddress \<Rightarrow> hash \<Rightarrow> hash \<Rightarrow> evm_state \<Rightarrow> evm_state" where
  "db_SetTransientState a k v s = s"

definition db_SelfDestruct :: "eaddress \<Rightarrow> evm_state \<Rightarrow> evm_state" where
  "db_SelfDestruct a s = s"

definition db_HasSelfDestructed :: "eaddress \<Rightarrow> evm_state \<Rightarrow> bool" where
  "db_HasSelfDestructed a s = False"

section \<open>The executor\<close>

text \<open>The block and transaction contexts handed to the machine; the fields the code sets to a
  constant (coinbase, difficulty, base fee, gas limit) are left out.\<close>

record vm_context =
  vc_origin :: eaddress
  vc_gas_price :: int
  vc_block_number :: int
  vc_time :: u64
  vc_hashes :: "u64 \<Rightarrow> hash"

type_synonym vm_create = "vm_context \<Rightarrow> eaddress \<Rightarrow> byte list \<Rightarrow> u64 \<Rightarrow> int \<Rightarrow> evm_state
  \<Rightarrow> byte list \<times> eaddress \<times> u64 \<times> evm_error option \<times> evm_state"

type_synonym vm_call = "vm_context \<Rightarrow> eaddress \<Rightarrow> eaddress \<Rightarrow> byte list \<Rightarrow> u64 \<Rightarrow> int \<Rightarrow> evm_state
  \<Rightarrow> byte list \<times> u64 \<times> evm_error option \<times> evm_state"

text \<open>The code the executor calls and the orders in which \<open>Root\<close> visits the maps.\<close>

record evm_env =
  ev_keccak :: "byte list \<Rightarrow> hash"
  ev_address :: "eaddress \<Rightarrow> u64 \<Rightarrow> eaddress"
  ev_create :: vm_create
  ev_call :: vm_call
  ev_order :: "eaddress list"
  ev_slots :: "eaddress \<Rightarrow> hash list"

record evm_executor =
  ex_state :: evm_state
  ex_gas_price :: int
  ex_block_number :: int

definition NewEVMExecutor :: "evm_state \<Rightarrow> int \<Rightarrow> evm_executor" where
  "NewEVMExecutor s p = \<lparr>ex_state = s, ex_gas_price = p, ex_block_number = 0\<rparr>"

definition getHashFunc :: "evm_env \<Rightarrow> u64 \<Rightarrow> hash" where
  "getHashFunc E n = ev_keccak E (big_bytes (nat \<bar>sint n\<bar>))"

definition evm_validateTransaction :: "evm_tx \<Rightarrow> evm_state \<Rightarrow> evm_error option \<times> evm_state" where
  "evm_validateTransaction tx s =
     (let (currentNonce, s1) = es_GetNonce (et_from tx) s
      in if et_nonce tx \<noteq> currentNonce then (Some ErrEvmInvalidNonce, s1)
         else let (balance, s2) = es_GetBalance (et_from tx) s1;
                  gasCost = uint (et_gas_limit tx) * et_gas_price tx;
                  totalCost = gasCost + et_value tx
              in if balance < totalCost then (Some ErrEvmInsufficientBalance, s2) else (None, s2))"

definition exec_context :: "evm_env \<Rightarrow> evm_executor \<Rightarrow> evm_tx \<Rightarrow> vm_context" where
  "exec_context E e tx = \<lparr>vc_origin = et_from tx, vc_gas_price = et_gas_price tx,
     vc_block_number = ex_block_number e, vc_time = et_time tx, vc_hashes = getHashFunc E\<rparr>"

text \<open>The run of the machine: a creation without a recipient, a call otherwise.\<close>

definition run_vm :: "evm_env \<Rightarrow> evm_executor \<Rightarrow> evm_tx \<Rightarrow> evm_state
    \<Rightarrow> byte list \<times> eaddress \<times> u64 \<times> evm_error option \<times> evm_state" where
  "run_vm E e tx s = (case et_to tx of
     None \<Rightarrow> ev_create E (exec_context E e tx) (et_from tx) (et_data tx) (et_gas_limit tx) (et_value tx) s
   | Some t \<Rightarrow>
       let (ret, left_over, err, s1) =
             ev_call E (exec_context E e tx) (et_from tx) t (et_data tx) (et_gas_limit tx) (et_value tx) s
       in (ret, replicate 20 0, left_over, err, s1))"

definition deduct_gas :: "eaddress \<Rightarrow> int \<Rightarrow> evm_state \<Rightarrow> evm_state" where
  "deduct_gas a gasCost s =
     (let (senderBalance, s1) = db_GetBalance a s in if senderBalance \<ge> gasCost then db_SubBalance a gasCost s1 else s1)"

definition executeInternal :: "evm_env \<Rightarrow> evm_executor \<Rightarrow> evm_tx \<Rightarrow> evm_state \<Rightarrow> exec_result \<times> evm_state" where
  "executeInternal E e tx s =
     (let s1 = db_SetNonce (et_from tx) (et_nonce tx + 1) s;
          (ret, addr, left_over, err, s2) = run_vm E e tx s1;
          gasUsed = et_gas_limit tx - left_over;
          s3 = deduct_gas (et_from tx) (uint gasUsed * et_gas_price tx) s2;
          (root, s4) = es_Root (ev_keccak E) (ev_order E) (ev_slots E) s3
      in (\<lparr>er_success = (err = None), er_gas_used = gasUsed, er_return = ret, er_error = err, er_root = root,
           er_created = (if et_to tx = None \<and> err = None then Some addr else None)\<rparr>, s4))"

definition evm_ExecuteTransaction :: "evm_env \<Rightarrow> evm_tx \<Rightarrow> evm_executor \<Rightarrow> exec_result \<times> evm_executor" where
  "evm_ExecuteTransaction E tx e =
     (let (err, s1) = evm_validateTransaction tx (ex_state e); e1 = e\<lparr>ex_state := s1\<rparr>
      in case err of
           Some x \<Rightarrow> (failed_result x, e1)
         | None \<Rightarrow> let (r, snapshot) = executeInternal E e1 tx (es_Copy s1)
                   in (r, if er_success r then e1\<lparr>ex_state := snapshot\<rparr> else e1))"

text \<open>The transaction the three entry points build: the executor's price and the sender's
  next nonce; its time is the zero time, whose Unix seconds are cast to \<open>uint64\<close>.\<close>

definition next_tx :: "eaddress \<Rightarrow> eaddress option \<Rightarrow> byte list \<Rightarrow> u64 \<Rightarrow> int \<Rightarrow> evm_executor \<Rightarrow> evm_tx \<times> evm_executor" where
  "next_tx from to bytes gasLimit v e =
     (let (nonce, s1) = es_GetNonce from (ex_state e)
      in (\<lparr>et_from = from, et_to = to, et_value = v, et_gas_price = ex_gas_price e, et_gas_limit = gasLimit,
           et_nonce = nonce, et_data = bytes, et_time = word_of_int (-62135596800),
           et_hash = zero_hash, et_signature = []\<rparr>, e\<lparr>ex_state := s1\<rparr>))"

definition DeployContract ::
  "evm_env \<Rightarrow> eaddress \<Rightarrow> byte list \<Rightarrow> u64 \<Rightarrow> int \<Rightarrow> evm_executor \<Rightarrow> exec_result \<times> eaddress \<times> evm_executor" where
  "DeployContract E from code gasLimit v e =
     (let (tx, e1) = next_tx from None code gasLimit v e;
          (r, e2) = evm_ExecuteTransaction E tx e1
      in (r, CreateContractAddress (ev_address E) from (et_nonce tx), e2))"

definition CallContract ::
  "evm_env \<Rightarrow> eaddress \<Rightarrow> eaddress \<Rightarrow> byte list \<Rightarrow> u64 \<Rightarrow> int \<Rightarrow> evm_executor \<Rightarrow> exec_result \<times> evm_executor" where
  "CallContract E from to bytes gasLimit v e =
     (let (tx, e1) = next_tx from (Some to) bytes gasLimit v e in evm_ExecuteTransaction E tx e1)"

definition evm_Transfer ::
  "evm_env \<Rightarrow> eaddress \<Rightarrow> eaddress \<Rightarrow> int \<Rightarrow> evm_executor \<Rightarrow> exec_result \<times> evm_executor" where
  "evm_Transfer E from to v e =
     (let (tx, e1) = next_tx from (Some to) [] 21000 v e in evm_ExecuteTransaction E tx e1)"

definition UpdateBlockNumber :: "int \<Rightarrow> evm_executor \<Rightarrow> evm_executor" where
  "UpdateBlockNumber n e = e\<lparr>ex_block_number := n\<rparr>"

definition UpdateGasPrice :: "int \<Rightarrow> evm_executor \<Rightarrow> evm_executor" where
  "UpdateGasPrice p e = e\<lparr>ex_gas_price := p\<rparr>"

definition evm_GetState :: "evm_executor \<Rightarrow> evm_state" where
  "evm_GetState e = ex_state e"

section \<open>Lemmas\<close>

lemma db_simps [simp]:
  "account_at (db_CreateAccount a s) b = account_at s b"
  "account_at (db_SubBalance a v s) b = (if b = a then fst (acc_SubBalance v (account_at s a)) else account_at s b)"
  "account_at (db_AddBalance a v s) b = (if b = a then acc_AddBalance v (account_at s a) else account_at s b)"
  "account_at (db_SetNonce a n s) b = (if b = a then acc_SetNonce n (account_at s a) else account_at s b)"
  by (simp_all add: db_CreateAccount_def db_SubBalance_def db_AddBalance_def db_SetNonce_def
      account_at_GetAccount account_at_SubBalance)

text \<open>Whether the machine sees an account as empty does not depend on whether it was read before.\<close>

lemma db_Empty_eq: "fst (db_Empty a s) =
    (ea_balance (account_at s a) = 0 \<and> ea_nonce (account_at s a) = 0 \<and> ea_code (account_at s a) = [])"
proof (cases "es_AccountExists s a")
  case True
  then show ?thesis
    by (simp add: db_Empty_def Let_def case_prod_beta sgn_0_0)
next
  case False
  then show ?thesis
    by (simp add: db_Empty_def es_AccountExists_def ghas_def account_at_def evm_NewAccount_def split: option.split)
qed

lemma same_accounts_refl [simp]: "same_accounts s s"
  by (simp add: same_accounts_def)

text \<open>Validation in terms of what can be seen; it changes nothing that can be seen.\<close>

lemma validate_error:
  "fst (evm_validateTransaction tx s) =
     (if et_nonce tx \<noteq> ea_nonce (account_at s (et_from tx)) then Some ErrEvmInvalidNonce
      else if ea_balance (account_at s (et_from tx)) < uint (et_gas_limit tx) * et_gas_price tx + et_value tx
      then Some ErrEvmInsufficientBalance else None)"
  by (simp add: evm_validateTransaction_def Let_def case_prod_beta)

lemma validate_state [simp]: "account_at (snd (evm_validateTransaction tx s)) a = account_at s a"
  by (simp add: evm_validateTransaction_def Let_def case_prod_beta)

lemma next_tx_fields [simp]:
  "et_from (fst (next_tx a t d g v e)) = a" "et_to (fst (next_tx a t d g v e)) = t"
  "et_value (fst (next_tx a t d g v e)) = v" "et_gas_price (fst (next_tx a t d g v e)) = ex_gas_price e"
  "et_gas_limit (fst (next_tx a t d g v e)) = g" "et_data (fst (next_tx a t d g v e)) = d"
  "et_nonce (fst (next_tx a t d g v e)) = ea_nonce (account_at (ex_state e) a)"
  "account_at (ex_state (snd (next_tx a t d g v e))) b = account_at (ex_state e) b"
  by (simp_all add: next_tx_def Let_def case_prod_beta)

lemma deduct_gas_account:
  "account_at (deduct_gas a c s) b =
     (if b = a \<and> c \<le> ea_balance (account_at s a) then (account_at s a)\<lparr>ea_balance := ea_balance (account_at s a) - c\<rparr>
      else account_at s b)"
  by (simp add: deduct_gas_def db_GetBalance_def Let_def case_prod_beta acc_SubBalance_def)

text \<open>The two ways \<open>ExecuteTransaction\<close> goes.\<close>

lemma execute_rejected:
  "fst (evm_validateTransaction tx (ex_state e)) = Some x \<Longrightarrow>
     evm_ExecuteTransaction E tx e = (failed_result x, e\<lparr>ex_state := snd (evm_validateTransaction tx (ex_state e))\<rparr>)"
  by (simp add: evm_ExecuteTransaction_def Let_def case_prod_beta)

lemma execute_accepted:
  fixes E :: evm_env
  assumes "fst (evm_validateTransaction tx (ex_state e)) = None"
  defines "e1 \<equiv> e\<lparr>ex_state := snd (evm_validateTransaction tx (ex_state e))\<rparr>"
  defines "run \<equiv> executeInternal E e1 tx (es_Copy (ex_state e1))"
  shows "evm_ExecuteTransaction E tx e = (fst run, if er_success (fst run) then e1\<lparr>ex_state := snd run\<rparr> else e1)"
  using assms(1) by (simp add: evm_ExecuteTransaction_def Let_def case_prod_beta e1_def run_def)

lemma execute_error:
  assumes "evm_ExecuteTransaction E tx e = (r, e')"
  shows "\<not> er_success r \<Longrightarrow> e' = e\<lparr>ex_state := snd (evm_validateTransaction tx (ex_state e))\<rparr>"
    and "er_success r \<Longrightarrow> fst (evm_validateTransaction tx (ex_state e)) = None"
  using assms by (cases "fst (evm_validateTransaction tx (ex_state e))";
      auto simp: execute_rejected execute_accepted failed_result_def)+

lemma run_vm_create: "et_to tx = None \<Longrightarrow> run_vm E e tx s =
    ev_create E (exec_context E e tx) (et_from tx) (et_data tx) (et_gas_limit tx) (et_value tx) s"
  by (simp add: run_vm_def)

lemma execute_created:
  assumes "et_to tx = None"
  shows "er_success (fst (executeInternal E e tx s)) \<Longrightarrow> er_created (fst (executeInternal E e tx s)) =
    Some (fst (snd (ev_create E (exec_context E e tx) (et_from tx) (et_data tx) (et_gas_limit tx) (et_value tx)
       (db_SetNonce (et_from tx) (et_nonce tx + 1) s))))"
  using assms by (simp add: executeInternal_def Let_def case_prod_beta run_vm_create)

section \<open>A failed transaction\<close>

text \<open>A machine to apply the results to: a call moves the value and uses no gas, a creation
  stores the code at the address \<open>crypto.CreateAddress\<close> gives for the nonce in the state.\<close>

definition sample_vm :: evm_env where
  "sample_vm = \<lparr>ev_keccak = (\<lambda>d. take 32 (d @ zero_hash)),
     ev_address = (\<lambda>a n. take 12 a @ uint64ToBytes n),
     ev_create = (\<lambda>ctx c code g v s. (code, take 12 c @ uint64ToBytes (fst (db_GetNonce c s)), 0, None,
        db_SetCode (\<lambda>d. zero_hash) (take 12 c @ uint64ToBytes (fst (db_GetNonce c s))) code s)),
     ev_call = (\<lambda>ctx c t d g v s. if d = [] then ([], g, None, db_AddBalance t v (db_SubBalance c v s))
        else ([], 0, Some (ErrVm ''revert''), db_AddBalance t v (db_SubBalance c v s))),
     ev_order = [], ev_slots = (\<lambda>a. [])\<rparr>"

definition rich_executor :: evm_executor where
  "rich_executor = NewEVMExecutor (es_SetBalance [1] 1000000 evm_NewState) 2"

definition reverting_tx :: evm_tx where
  "reverting_tx = \<lparr>et_from = [1], et_to = Some [2], et_value = 5, et_gas_price = 2, et_gas_limit = 100, et_nonce = 0,
     et_data = [7], et_time = 0, et_hash = zero_hash, et_signature = []\<rparr>"

text \<open>(C15) All or nothing.  A transaction that is rejected or fails in the machine leaves every
  account as it was, the sender's nonce and the gas included, and the executor's parameters;
  so the same transaction is answered in the same way again, also one the machine has run.
  One that succeeds had the sender's nonce and a balance for the whole gas limit and the
  value.\<close>

theorem evm_all_or_nothing:
  assumes "evm_ExecuteTransaction E tx e = (r, e')"
  shows "if er_success r
    then et_nonce tx = ea_nonce (account_at (ex_state e) (et_from tx)) \<and>
      uint (et_gas_limit tx) * et_gas_price tx + et_value tx \<le> ea_balance (account_at (ex_state e) (et_from tx))
    else same_accounts (ex_state e') (ex_state e) \<and>
      fst (evm_validateTransaction tx (ex_state e')) = fst (evm_validateTransaction tx (ex_state e)) \<and>
      ex_gas_price e' = ex_gas_price e \<and> ex_block_number e' = ex_block_number e"
  using execute_error[OF assms] by (auto simp: same_accounts_def validate_error split: if_splits)

text \<open>The call of \<open>reverting_tx\<close> passes the validation, fails in the machine and pays nothing.\<close>

theorem evm_all_or_nothing_witness:
  "fst (evm_validateTransaction reverting_tx (ex_state rich_executor)) = None \<and>
   \<not> er_success (fst (evm_ExecuteTransaction sample_vm reverting_tx rich_executor)) \<and>
   same_accounts (ex_state (snd (evm_ExecuteTransaction sample_vm reverting_tx rich_executor))) (ex_state rich_executor)"
proof -
  let ?run = "evm_ExecuteTransaction sample_vm reverting_tx rich_executor"
  have valid: "fst (evm_validateTransaction reverting_tx (ex_state rich_executor)) = None"
    by code_simp
  have failed: "\<not> er_success (fst ?run)"
    by code_simp
  from evm_all_or_nothing[of sample_vm reverting_tx rich_executor "fst ?run" "snd ?run"] valid failed
  show ?thesis by simp
qed

section \<open>The address of a new contract\<close>

text \<open>\<open>DeployContract\<close> returns an address at which there is no new contract.  go-ethereum's
  \<open>Create\<close> derives the address from the nonce it finds in the state, which \<open>executeInternal\<close>
  has already raised; \<open>DeployContract\<close> derives it from the nonce before.  So a successful
  deployment creates the address for nonce \<open>n + 1\<close>, and returns the one for \<open>n\<close>.\<close>

theorem DeployContract_wrong_address:
  assumes create: "\<And>ctx c code g v s. fst (snd (ev_create E ctx c code g v s)) = ev_address E c (fst (db_GetNonce c s))"
    and deploy: "DeployContract E from code gasLimit v e = (r, addr, e')" and success: "er_success r"
  defines "n \<equiv> ea_nonce (account_at (ex_state e) from)"
  shows "addr = ev_address E from n \<and> er_created r = Some (ev_address E from (n + 1))"
proof -
  let ?tx = "fst (next_tx from None code gasLimit v e)" and ?e1 = "snd (next_tx from None code gasLimit v e)"
  have exec: "evm_ExecuteTransaction E ?tx ?e1 = (r, e')" and addr: "addr = ev_address E from n"
    using deploy by (auto simp: DeployContract_def Let_def case_prod_beta CreateContractAddress_def n_def)
  from execute_error(2)[OF exec success] have valid: "fst (evm_validateTransaction ?tx (ex_state ?e1)) = None" .
  from exec obtain e2 s2 where "r = fst (executeInternal E e2 ?tx s2)"
    unfolding execute_accepted[OF valid] by (simp add: prod_eq_iff) metis
  with success have "er_created r = Some (ev_address E from (n + 1))"
    by (simp add: execute_created create db_GetNonce_def acc_SetNonce_def n_def)
  with addr show ?thesis by simp
qed

theorem DeployContract_wrong_address_witness:
  "let d = DeployContract sample_vm [1] [96] 100 0 rich_executor
   in fst (snd d) = ev_address sample_vm [1] 0 \<and> er_created (fst d) = Some (ev_address sample_vm [1] 1) \<and>
      ea_code (account_at (ex_state (snd (snd d))) (fst (snd d))) = []"
proof -
  let ?d = "DeployContract sample_vm [1] [96] 100 0 rich_executor"
  have "\<And>ctx c code g v s. fst (snd (ev_create sample_vm ctx c code g v s)) = ev_address sample_vm c (fst (db_GetNonce c s))"
    by (simp add: sample_vm_def)
  moreover have "er_success (fst ?d)" "ea_nonce (account_at (ex_state rich_executor) [1]) = 0"
    "ea_code (account_at (ex_state (snd (snd ?d))) (fst (snd ?d))) = []"
    by code_simp+
  ultimately show ?thesis
    using DeployContract_wrong_address[of sample_vm "[1]" "[96]" 100 0 rich_executor "fst ?d" "fst (snd ?d)" "snd (snd ?d)"]
    by (simp add: Let_def)
qed

section \<open>Transfers\<close>

text \<open>(C16) A transfer moves the value and is free.  go-ethereum's \<open>Call\<close> of an account without
  code moves the value and returns all the gas; the fixed cost of a transaction is charged
  by the caller of the machine in go-ethereum, and nowhere here.  So \<open>Transfer\<close>, which asks
  for a balance of \<open>21000\<close> gas and the value, moves the value, raises the nonce, reports no
  gas used and takes none, and leaves all other accounts as they were.\<close>

theorem evm_Transfer_moves_value:
  assumes plain: "\<And>ctx g s. \<lbrakk>ea_code (account_at s to) = []; v \<le> ea_balance (account_at s from)\<rbrakk> \<Longrightarrow>
      \<exists>s'. ev_call E ctx from to [] g v s = ([], g, None, s') \<and>
        same_accounts s' (db_AddBalance to v (db_SubBalance from v s))"
    and code: "ea_code (account_at (ex_state e) to) = []" and v: "0 \<le> v" and price: "0 \<le> ex_gas_price e"
    and funds: "21000 * ex_gas_price e + v \<le> ea_balance (account_at (ex_state e) from)" and "from \<noteq> to"
    and run: "evm_Transfer E from to v e = (r, e')"
  shows "er_success r \<and> er_gas_used r = 0 \<and>
    (\<forall>a. account_at (ex_state e') a =
       (let acc = account_at (ex_state e) a
        in if a = from then acc\<lparr>ea_balance := ea_balance acc - v, ea_nonce := ea_nonce acc + 1\<rparr>
           else if a = to then acc\<lparr>ea_balance := ea_balance acc + v\<rparr> else acc))"
proof -
  let ?tx = "fst (next_tx from (Some to) [] 21000 v e)" and ?e1 = "snd (next_tx from (Some to) [] 21000 v e)"
  have exec: "evm_ExecuteTransaction E ?tx ?e1 = (r, e')"
    using run by (simp add: evm_Transfer_def Let_def case_prod_beta)
  have valid: "fst (evm_validateTransaction ?tx (ex_state ?e1)) = None"
    using funds by (simp add: validate_error)
  define e2 where "e2 = ?e1\<lparr>ex_state := snd (evm_validateTransaction ?tx (ex_state ?e1))\<rparr>"
  define s where "s = db_SetNonce from (et_nonce ?tx + 1) (es_Copy (ex_state e2))"
  have at: "account_at s a = (if a = from then acc_SetNonce (et_nonce ?tx + 1) (account_at (ex_state e) from)
      else account_at (ex_state e) a)" for a
    by (simp add: s_def e2_def)
  have "v \<le> ea_balance (account_at s from)"
    using funds v price by (simp add: at acc_SetNonce_def)
  then obtain s' where call: "ev_call E (exec_context E e2 ?tx) from to [] 21000 v s = ([], 21000, None, s')"
    and moved: "\<And>a. account_at s' a = account_at (db_AddBalance to v (db_SubBalance from v s)) a"
    using plain[of s] code \<open>from \<noteq> to\<close> by (force simp: at same_accounts_def)
  have result: "er_success r" "er_gas_used r = 0"
      "account_at (ex_state e') a = account_at (deduct_gas from 0 s') a" for a
    using exec call unfolding execute_accepted[OF valid]
    by (auto simp: executeInternal_def Let_def case_prod_beta run_vm_def s_def e2_def)
  have "v \<le> ea_balance (account_at (ex_state e) from)" and "0 \<le> ea_balance (account_at (ex_state e) from) - v"
    using funds price by auto
  with result \<open>from \<noteq> to\<close> show ?thesis
    by (simp add: Let_def deduct_gas_account moved at acc_SubBalance_def acc_AddBalance_def acc_SetNonce_def)
qed

lemma sample_vm_plain:
  "\<exists>s'. ev_call sample_vm ctx from to [] g v s = ([], g, None, s') \<and>
     same_accounts s' (db_AddBalance to v (db_SubBalance from v s))"
  by (simp add: sample_vm_def)

theorem evm_Transfer_moves_value_witness:
  "let e' = snd (evm_Transfer sample_vm [1] [2] 10 rich_executor)
   in ea_balance (account_at (ex_state e') [1]) = 999990 \<and> ea_nonce (account_at (ex_state e') [1]) = 1 \<and>
      ea_balance (account_at (ex_state e') [2]) = 10"
proof -
  let ?run = "evm_Transfer sample_vm [1] [2] 10 rich_executor"
  have start: "ea_code (account_at (ex_state rich_executor) [2]) = []" "ex_gas_price rich_executor = 2"
    "ea_balance (account_at (ex_state rich_executor) [1]) = 1000000" "ea_nonce (account_at (ex_state rich_executor) [1]) = 0"
    "ea_balance (account_at (ex_state rich_executor) [2]) = 0"
    by code_simp+
  show ?thesis
    using evm_Transfer_moves_value[of "[2]" 10 "[1]" sample_vm rich_executor "fst ?run" "snd ?run", OF sample_vm_plain] start
    by (simp add: Let_def)
qed

section \<open>Hashes of transactions\<close>

text \<open>\<open>CreateHash\<close> covers sender, data and recipient only, without separators: neither nonce,
  value and gas nor the border between data and recipient are part of it.\<close>

lemma evm_CreateHash_ignores:
  "evm_CreateHash keccak (tx\<lparr>et_nonce := n, et_value := v, et_gas_price := p, et_gas_limit := g\<rparr>) = evm_CreateHash keccak tx"
  by (simp add: evm_CreateHash_def)

lemma evm_CreateHash_creation_is_call:
  "evm_CreateHash keccak (tx\<lparr>et_to := Some t, et_data := d\<rparr>) = evm_CreateHash keccak (tx\<lparr>et_to := None, et_data := d @ t\<rparr>)"
  by (simp add: evm_CreateHash_def)

end
