(* ===== verification/Go_Float.thy ===== *)
theory Go_Float
  imports Go_Prelude
begin

text \<open>
  Go's \<open>float64\<close>: correctly rounded arithmetic on binary floating-point numbers.  There is one
  zero; no operation of the program tells its two signs apart.
\<close>

section \<open>Representation and rounding\<close>

text \<open>A \<open>float64\<close> is \<open>m * 2^e\<close>, an infinity (with its sign bit) or not a number.  \<open>round_bits\<close> rounds
  a mantissa to a number of bits, half to even, as both \<open>float64\<close> addition and \<open>big.Float\<close> do.\<close>

datatype float64 = Finite int int | Infinity bool | Nan

fun big_BitLen :: "nat \<Rightarrow> nat" where
  "big_BitLen n = (if n = 0 then 0 else Suc (big_BitLen (n div 2)))"

declare big_BitLen.simps [simp del]

definition round_bits :: "nat \<Rightarrow> nat \<Rightarrow> nat" where
  "round_bits p n =
     (let k = big_BitLen n - p
      in if k = 0 then n
         else let q = n div 2 ^ k; r = n mod 2 ^ k; h = 2 ^ (k - 1)
              in (if r > h \<or> (r = h \<and> odd q) then q + 1 else q) * 2 ^ k)"

definition round_int :: "nat \<Rightarrow> int \<Rightarrow> int" where
  "round_int p m = sgn m * int (round_bits p (nat \<bar>m\<bar>))"

text \<open>The integer nearest to a quotient, ties to even, and the \<open>float64\<close> nearest to one: 53 bits,
  exponents from \<open>-1074\<close>, infinity from \<open>2^1024\<close> on.\<close>

definition div_even :: "nat \<Rightarrow> nat \<Rightarrow> nat" where
  "div_even n d = (let q = n div d; r = n mod d in if 2 * r > d \<or> (2 * r = d \<and> odd q) then q + 1 else q)"

definition quot_exp :: "nat \<Rightarrow> nat \<Rightarrow> int" where
  "quot_exp n d =
     (let e = int (big_BitLen n) - int (big_BitLen d) - 53
      in max (- 1074) (if n * 2 ^ nat (- e) < 2 ^ 53 * (d * 2 ^ nat e) then e else e + 1))"

definition float_quot :: "int \<Rightarrow> nat \<Rightarrow> float64" where
  "float_quot n d =
     (if n = 0 then Finite 0 0
      else let e = quot_exp (nat \<bar>n\<bar>) d;
               m = div_even (nat \<bar>n\<bar> * 2 ^ nat (- e)) (d * 2 ^ nat e)
           in if e \<ge> 0 \<and> m * 2 ^ nat e \<ge> 2 ^ 1024 then Infinity (n < 0) else Finite (sgn n * int m) e)"

definition float_scale :: "int \<Rightarrow> int \<Rightarrow> float64" where
  "float_scale m e = float_quot (m * 2 ^ nat e) (2 ^ nat (- e))"

section \<open>Operations\<close>

definition float_of_int :: "int \<Rightarrow> float64" where
  "float_of_int n = float_quot n 1"

fun float_add :: "float64 \<Rightarrow> float64 \<Rightarrow> float64" where
  "float_add (Finite m e) (Finite m' e') = (let k = min e e' in float_scale (m * 2 ^ nat (e - k) + m' * 2 ^ nat (e' - k)) k)"
| "float_add (Infinity s) (Infinity s') = (if s = s' then Infinity s else Nan)"
| "float_add (Infinity s) (Finite m e) = Infinity s"
| "float_add (Finite m e) (Infinity s) = Infinity s"
| "float_add Nan y = Nan"
| "float_add x Nan = Nan"

fun float_mul :: "float64 \<Rightarrow> float64 \<Rightarrow> float64" where
  "float_mul (Finite m e) (Finite m' e') = float_scale (m * m') (e + e')"
| "float_mul (Infinity s) (Infinity s') = Infinity (s \<noteq> s')"
| "float_mul (Infinity s) (Finite m e) = (if m = 0 then Nan else Infinity (s \<noteq> (m < 0)))"
| "float_mul (Finite m e) (Infinity s) = (if m = 0 then Nan else Infinity (s \<noteq> (m < 0)))"
| "float_mul Nan y = Nan"
| "float_mul x Nan = Nan"

fun float_div :: "float64 \<Rightarrow> float64 \<Rightarrow> float64" where
  "float_div (Finite m e) (Finite m' e') =
     (if m' = 0 then if m = 0 then Nan else Infinity (m < 0)
      else float_quot (sgn m' * m * 2 ^ nat (e - e')) (nat \<bar>m'\<bar> * 2 ^ nat (e' - e)))"
| "float_div (Infinity s) (Infinity s') = Nan"
| "float_div (Infinity s) (Finite m e) = Infinity (s \<noteq> (m < 0))"
| "float_div (Finite m e) (Infinity s) = Finite 0 0"
| "float_div Nan y = Nan"
| "float_div x Nan = Nan"

fun float_less :: "float64 \<Rightarrow> float64 \<Rightarrow> bool" where
  "float_less (Finite m e) (Finite m' e') = (m * 2 ^ nat (e - e') < m' * 2 ^ nat (e' - e))"
| "float_less (Infinity s) (Infinity s') = (s \<and> \<not> s')"
| "float_less (Infinity s) (Finite m e) = s"
| "float_less (Finite m e) (Infinity s) = (\<not> s)"
| "float_less Nan y = False"
| "float_less x Nan = False"

section \<open>Lemmas\<close>

lemma round_bits_exact: "big_BitLen n \<le> p \<Longrightarrow> round_bits p n = n"
  by (simp add: round_bits_def)

lemma round_int_exact: "big_BitLen (nat \<bar>m\<bar>) \<le> p \<Longrightarrow> round_int p m = m"
  by (simp add: round_int_def round_bits_exact sgn_mult_abs)

end
