(* ===== verification/Evm_Gas.thy ===== *)
theory Evm_Gas
  imports Evm_Exec Go_Float
begin

text \<open>
  \<open>internal/evm/gas.go\<close> and \<open>storage.go\<close>: the gas price, which follows the network load
  through floating-point arithmetic, the checks of prices and limits, and the key-value
  storage with its proofs.
\<close>

section \<open>Floating-point numbers\<close>

text \<open>\<open>1.0 + x\<close>: the sum neither overflows nor is subnormal.\<close>

definition one_plus :: "float64 \<Rightarrow> float64" where
  "one_plus x = (case x of
     Finite m e \<Rightarrow> if e \<ge> 0 then Finite (round_int 53 (1 + m * 2 ^ nat e)) 0
                   else Finite (round_int 53 (2 ^ nat (- e) + m)) e
   | Infinity s \<Rightarrow> Infinity s
   | Nan \<Rightarrow> Nan)"

text \<open>\<open>new(big.Float).Mul(new(big.Float).SetInt(b), multiplier)\<close> and its integer part: setting
  a NaN and the product of zero and infinity panic; the integer of an infinity is nil.\<close>

definition big_mul_int :: "int \<Rightarrow> float64 \<Rightarrow> go_panic + int" where
  "big_mul_int b x = (case x of
     Nan \<Rightarrow> Inl NotANumber
   | Infinity s \<Rightarrow> if b = 0 then Inl NotANumber else Inl NilDereference
   | Finite m e \<Rightarrow>
       let p = max 64 (big_BitLen (nat \<bar>b\<bar>)); z = round_int p (b * m)
       in Inr (if e \<ge> 0 then z * 2 ^ nat e else sgn z * (\<bar>z\<bar> div 2 ^ nat (- e))))"

section \<open>The gas manager\<close>

record gas_manager =
  gm_base :: int
  gm_min :: int
  gm_max :: int

definition NewGasManager :: "int \<Rightarrow> gas_manager" where
  "NewGasManager b = \<lparr>gm_base = b, gm_min = b div 2, gm_max = b * 2\<rparr>"

definition CalculateGasPrice :: "gas_manager \<Rightarrow> float64 \<Rightarrow> go_panic + int" where
  "CalculateGasPrice gm networkLoad = (case big_mul_int (gm_base gm) (one_plus networkLoad) of
     Inl p \<Rightarrow> Inl p
   | Inr price \<Rightarrow> Inr (if price < gm_min gm then gm_min gm else if price > gm_max gm then gm_max gm else price))"

text \<open>\<open>len(tx.To)\<close> is the length of the array type behind the pointer, for a nil pointer too.\<close>

definition len_To :: "eaddress option \<Rightarrow> nat" where
  "len_To t = 20"

definition EstimateGas :: "evm_tx \<Rightarrow> u64" where
  "EstimateGas tx =
     (let gas = 21000;
          gas = (if length (et_data tx) > 0 then gas + word_of_nat (length (et_data tx)) * 16 else gas)
      in if len_To (et_to tx) = 0 then gas + 53000 else gas)"

definition ValidateGasPrice :: "gas_manager \<Rightarrow> int \<Rightarrow> bool" where
  "ValidateGasPrice gm p = (p \<ge> gm_min gm \<and> p \<le> gm_max gm)"

definition UpdateBaseGasPrice :: "int \<Rightarrow> gas_manager \<Rightarrow> gas_manager" where
  "UpdateBaseGasPrice b gm = gm\<lparr>gm_base := b, gm_min := b div 2, gm_max := b * 2\<rparr>"

definition GetBaseGasPrice :: "gas_manager \<Rightarrow> int" where
  "GetBaseGasPrice gm = gm_base gm"

definition GetMinGasPrice :: "gas_manager \<Rightarrow> int" where
  "GetMinGasPrice gm = gm_min gm"

definition GetMaxGasPrice :: "gas_manager \<Rightarrow> int" where
  "GetMaxGasPrice gm = gm_max gm"

definition CalculateTotalGasCost :: "int \<Rightarrow> u64 \<Rightarrow> int" where
  "CalculateTotalGasCost p gasLimit = p * sint gasLimit"

definition ValidateGasLimit :: "u64 \<Rightarrow> bool" where
  "ValidateGasLimit gasLimit = (if gasLimit < 21000 then False else if gasLimit > 8000000 then False else True)"

section \<open>Storage\<close>

type_synonym slot_map = "(string, byte list) gomap"
type_synonym storage_manager = "(string, slot_map) gomap"

datatype slot_error = NoSuchAccount

record storage_proof =
  spf_address :: string
  spf_key :: string
  spf_value :: "byte list"
  spf_elements :: "byte list list"

definition NewStorageManager :: storage_manager where
  "NewStorageManager = []"

definition sm_GetValue :: "storage_manager \<Rightarrow> string \<Rightarrow> string \<Rightarrow> slot_error + byte list" where
  "sm_GetValue sm a k = (case gget sm a of
     None \<Rightarrow> Inl NoSuchAccount
   | Some st \<Rightarrow> (case gget st k of None \<Rightarrow> Inr [] | Some v \<Rightarrow> Inr v))"

definition sm_SetValue :: "string \<Rightarrow> string \<Rightarrow> byte list \<Rightarrow> storage_manager \<Rightarrow> storage_manager" where
  "sm_SetValue a k v sm =
     (let st = (case gget sm a of None \<Rightarrow> [] | Some st \<Rightarrow> st) in gput a (gput k v st) sm)"

definition sm_DeleteValue :: "string \<Rightarrow> string \<Rightarrow> storage_manager \<Rightarrow> slot_error + storage_manager" where
  "sm_DeleteValue a k sm = (case gget sm a of None \<Rightarrow> Inl NoSuchAccount | Some st \<Rightarrow> Inr (gput a (gdel k st) sm))"

definition evm_calculateStorageRoot :: "(byte list \<Rightarrow> byte list) \<Rightarrow> string list \<Rightarrow> slot_map \<Rightarrow> byte list" where
  "evm_calculateStorageRoot sha ord st = sha (concat (map (\<lambda>(k, v). bytes_of k @ v) (range_items ord st)))"

definition sm_GetStorageRoot :: "(byte list \<Rightarrow> byte list) \<Rightarrow> string list \<Rightarrow> storage_manager \<Rightarrow> string \<Rightarrow> slot_error + byte list" where
  "sm_GetStorageRoot sha ord sm a = (case gget sm a of None \<Rightarrow> Inl NoSuchAccount | Some st \<Rightarrow> Inr (evm_calculateStorageRoot sha ord st))"

definition sm_GetStorageProof :: "string list \<Rightarrow> storage_manager \<Rightarrow> string \<Rightarrow> string \<Rightarrow> slot_error + storage_proof option" where
  "sm_GetStorageProof ord sm a k = (case gget sm a of
     None \<Rightarrow> Inl NoSuchAccount
   | Some st \<Rightarrow> (case gget st k of
       None \<Rightarrow> Inr None
     | Some v \<Rightarrow> Inr (Some \<lparr>spf_address = a, spf_key = k, spf_value = v,
         spf_elements = concat (map (\<lambda>(k', v'). if k' \<noteq> k then [bytes_of k', v'] else []) (range_items ord st))\<rparr>)))"

definition calculateStorageRootFromProof :: "(byte list \<Rightarrow> byte list) \<Rightarrow> storage_proof \<Rightarrow> byte list" where
  "calculateStorageRootFromProof sha pr = sha (bytes_of (spf_key pr) @ spf_value pr @ concat (spf_elements pr))"

definition sm_VerifyStorageProof :: "(byte list \<Rightarrow> byte list) \<Rightarrow> string list \<Rightarrow> storage_manager \<Rightarrow> storage_proof \<Rightarrow> bool" where
  "sm_VerifyStorageProof sha ord sm pr = (case sm_GetStorageRoot sha ord sm (spf_address pr) of
     Inl _ \<Rightarrow> False
   | Inr actualRoot \<Rightarrow> calculateStorageRootFromProof sha pr = actualRoot)"

definition sm_GetStorageSize :: "storage_manager \<Rightarrow> string \<Rightarrow> slot_error + nat" where
  "sm_GetStorageSize sm a = (case gget sm a of None \<Rightarrow> Inl NoSuchAccount | Some st \<Rightarrow> Inr (glen st))"

definition sm_ClearStorage :: "string \<Rightarrow> storage_manager \<Rightarrow> slot_error + storage_manager" where
  "sm_ClearStorage a sm = (if \<not> ghas sm a then Inl NoSuchAccount else Inr (gput a [] sm))"

definition slots_New :: slot_map where
  "slots_New = []"

definition slots_Get :: "slot_map \<Rightarrow> string \<Rightarrow> slot_error + byte list" where
  "slots_Get st k = (case gget st k of None \<Rightarrow> Inl NoSuchAccount | Some v \<Rightarrow> Inr v)"

definition slots_Set :: "string \<Rightarrow> byte list \<Rightarrow> slot_map \<Rightarrow> slot_map" where
  "slots_Set k v st = gput k v st"

definition slots_Delete :: "string \<Rightarrow> slot_map \<Rightarrow> slot_map" where
  "slots_Delete k st = gdel k st"

definition slots_Has :: "slot_map \<Rightarrow> string \<Rightarrow> bool" where
  "slots_Has st k = ghas st k"

definition slots_Clear :: "slot_map \<Rightarrow> slot_map" where
  "slots_Clear st = []"

definition slots_GetKeys :: "string list \<Rightarrow> slot_map \<Rightarrow> string list" where
  "slots_GetKeys ord st = map fst (range_items ord st)"

definition slots_GetValues :: "string list \<Rightarrow> slot_map \<Rightarrow> byte list list" where
  "slots_GetValues ord st = map snd (range_items ord st)"

section \<open>Lemmas on prices\<close>

lemma one_plus_zero: "one_plus (Finite 0 0) = Finite 1 0"
proof -
  have "big_BitLen 1 = 1"
    by code_simp
  then show ?thesis
    by (simp add: one_plus_def round_int_exact)
qed

lemma one_plus_Finite: "\<exists>m' e'. one_plus (Finite m e) = Finite m' e'"
  by (simp add: one_plus_def)

lemma gas_manager_simps [simp]:
  "gm_base (NewGasManager b) = b" "gm_min (NewGasManager b) = b div 2" "gm_max (NewGasManager b) = b * 2"
  "UpdateBaseGasPrice b gm = NewGasManager b"
  by (simp_all add: NewGasManager_def UpdateBaseGasPrice_def)

text \<open>(C17) For every finite network load \<open>CalculateGasPrice\<close> returns a price between half and
  twice the base price, which \<open>ValidateGasPrice\<close> accepts; without load it is the base price
  exactly, however many digits that has.  A load that is infinite or not a number panics.\<close>

theorem CalculateGasPrice_bounds:
  assumes "0 \<le> b"
  shows "(\<exists>p. CalculateGasPrice (NewGasManager b) (Finite m e) = Inr p \<and> ValidateGasPrice (NewGasManager b) p) \<and>
    CalculateGasPrice (NewGasManager b) (Finite 0 0) = Inr b \<and>
    (\<exists>x. CalculateGasPrice (NewGasManager b) (Infinity s) = Inl x) \<and> CalculateGasPrice (NewGasManager b) Nan = Inl NotANumber"
proof (intro conjI)
  obtain m' e' where "one_plus (Finite m e) = Finite m' e'"
    using one_plus_Finite by blast
  then obtain p where "big_mul_int b (one_plus (Finite m e)) = Inr p"
    by (simp add: big_mul_int_def Let_def)
  moreover have "b div 2 \<le> b * 2"
    using assms by linarith
  ultimately show "\<exists>p. CalculateGasPrice (NewGasManager b) (Finite m e) = Inr p \<and> ValidateGasPrice (NewGasManager b) p"
    by (auto simp: CalculateGasPrice_def ValidateGasPrice_def)
  have "big_mul_int b (one_plus (Finite 0 0)) = Inr b"
    by (simp add: one_plus_zero big_mul_int_def Let_def round_int_exact)
  moreover have "\<not> b < b div 2" "\<not> b > b * 2"
    using assms by linarith+
  ultimately show "CalculateGasPrice (NewGasManager b) (Finite 0 0) = Inr b"
    by (simp add: CalculateGasPrice_def)
qed (simp_all add: CalculateGasPrice_def big_mul_int_def one_plus_def)

text \<open>A base price of \<open>10\<close> at a load of a half.\<close>

theorem CalculateGasPrice_bounds_witness:
  "CalculateGasPrice (NewGasManager 10) (Finite 1 (-1)) = Inr 15 \<and> ValidateGasPrice (NewGasManager 10) 15"
proof -
  have "CalculateGasPrice (NewGasManager 10) (Finite 1 (-1)) = Inr 15"
    by code_simp
  with CalculateGasPrice_bounds[of 10 1 "-1" False] show ?thesis by simp
qed

text \<open>The surcharge for a creation is never added.\<close>

lemma EstimateGas_ignores_creation: "EstimateGas (tx\<lparr>et_to := None\<rparr>) = EstimateGas (tx\<lparr>et_to := Some t\<rparr>)"
  by (simp add: EstimateGas_def len_To_def)

text \<open>A valid limit is charged in full; from \<open>2^63\<close> on the cost is negative.\<close>

lemma CalculateTotalGasCost_valid:
  assumes "ValidateGasLimit g"
  shows "CalculateTotalGasCost p g = p * uint g"
proof -
  have "uint g \<le> 8000000"
    using assms by (auto simp: ValidateGasLimit_def word_less_def split: if_splits)
  then have "uint g < 2 ^ 63" by simp
  then show ?thesis
    by (simp add: CalculateTotalGasCost_def sint_u64)
qed

section \<open>Lemmas on storage\<close>

text \<open>What all key-value stores of the package promise: a read returns the last write.\<close>

locale kv_store =
  fixes rd :: "'s \<Rightarrow> 'k \<Rightarrow> 'r" and wr :: "'k \<Rightarrow> 'v \<Rightarrow> 's \<Rightarrow> 's" and found :: "'v \<Rightarrow> 'r"
  assumes read_write: "rd (wr k v s) k' = (if k' = k then found v else rd s k')"
begin

lemma read_writes:
  "rd (fold (\<lambda>(k, v). wr k v) ws s) k = (case map_of (rev ws) k of None \<Rightarrow> rd s k | Some v \<Rightarrow> found v)"
  by (induction ws arbitrary: s) (auto simp: read_write map_add_def split: option.split)

lemma writes_commute:
  "k1 \<noteq> k2 \<Longrightarrow> rd (wr k1 v1 (wr k2 v2 s)) k = rd (wr k2 v2 (wr k1 v1 s)) k"
  by (simp add: read_write)

end

interpretation slots: kv_store slots_Get slots_Set Inr
  by unfold_locales (simp add: slots_Get_def slots_Set_def)

interpretation account_slots: kv_store acc_GetStorage acc_SetStorage "\<lambda>v. v"
  by unfold_locales (simp add: acc_GetStorage_def acc_SetStorage_def)

interpretation db_slots: kv_store "\<lambda>s k. fst (db_GetState a k s)" "db_SetState a" "\<lambda>v. v"
  by unfold_locales (simp add: db_GetState_def db_SetState_def account_slots.read_write)

text \<open>A manager answers for an account once something was written to it.\<close>

lemma sm_SetValue_has: "ghas (sm_SetValue a k v sm) a"
  by (simp add: sm_SetValue_def ghas_def Let_def)

lemma sm_read_write:
  "sm_GetValue (sm_SetValue a k v sm) a' k' =
     (if a' = a then if k' = k then Inr v else if ghas sm a then sm_GetValue sm a k' else Inr [] else sm_GetValue sm a' k')"
  by (simp add: sm_GetValue_def sm_SetValue_def ghas_def Let_def split: option.split)

lemma db_SetStates_account:
  "account_at (fold (\<lambda>(k, v). db_SetState a k v) ws s) b =
     (if b = a then fold (\<lambda>(k, v). acc_SetStorage k v) ws (account_at s a) else account_at s b)"
  by (induction ws arbitrary: s) (auto simp: db_SetState_def)

text \<open>Contract storage through the adapter: after any sequence of writes to the slots of an
  account, a slot reads as the last value written to it, or as before when there was none;
  other accounts, and the balance, nonce and code of this one, are unchanged.\<close>

theorem contract_storage_last_write:
  "let s' = fold (\<lambda>(k, v). db_SetState a k v) ws s
   in fst (db_GetState a k s') = (case map_of (rev ws) k of None \<Rightarrow> fst (db_GetState a k s) | Some v \<Rightarrow> v) \<and>
      (\<forall>b. b = a \<or> account_at s' b = account_at s b) \<and>
      (account_at s' a)\<lparr>ea_storage := ea_storage (account_at s a)\<rparr> = account_at s a"
proof -
  have "(fold (\<lambda>(k, v). acc_SetStorage k v) ws acc)\<lparr>ea_storage := st\<rparr> = acc\<lparr>ea_storage := st\<rparr>" for acc st
    by (induction ws arbitrary: acc) (auto simp: acc_SetStorage_def)
  then show ?thesis
    by (simp add: Let_def db_slots.read_writes db_SetStates_account)
qed

text \<open>What a proof hashes and what the root hashes.\<close>

lemma concat_proof_elements:
  "concat (concat (map (\<lambda>(k', v'). if k' \<noteq> k then [bytes_of k', v'] else []) (range_items ord st))) =
     concat (map (\<lambda>(k', v'). bytes_of k' @ v') (range_items (filter (\<lambda>k'. k' \<noteq> k) ord) st))"
  by (induction ord) (auto split: option.split)

lemma proof_root:
  assumes "sm_GetStorageProof ord sm a k = Inr (Some pr)" "gget sm a = Some st"
  shows "calculateStorageRootFromProof sha pr = evm_calculateStorageRoot sha (k # filter (\<lambda>k'. k' \<noteq> k) ord) st"
    and "spf_address pr = a"
proof -
  obtain v where v: "gget st k = Some v"
    and pr: "pr = \<lparr>spf_address = a, spf_key = k, spf_value = v,
      spf_elements = concat (map (\<lambda>(k', v'). if k' \<noteq> k then [bytes_of k', v'] else []) (range_items ord st))\<rparr>"
    using assms by (auto simp: sm_GetStorageProof_def split: option.splits)
  show "calculateStorageRootFromProof sha pr = evm_calculateStorageRoot sha (k # filter (\<lambda>k'. k' \<noteq> k) ord) st"
    using v by (simp only: pr calculateStorageRootFromProof_def evm_calculateStorageRoot_def storage_proof.select_convs concat_proof_elements)
      simp
  show "spf_address pr = a"
    by (simp add: pr)
qed

text \<open>A storage proof verifies when the root is computed with the proven key visited first
  and the others in the order of the proof.  The keys are not sorted, although a comment
  says so, and Go visits a map in any order: with another order the proof of a value that
  is stored is refused, unless the two texts that are hashed are the same.\<close>

theorem storage_proof_needs_order:
  assumes "sm_GetStorageProof ord sm a k = Inr (Some pr)" "gget sm a = Some st"
    and "\<And>x y. sha x = sha y \<Longrightarrow> x = y"
  defines "hashed \<equiv> evm_calculateStorageRoot (\<lambda>x. x)"
  shows "sm_VerifyStorageProof sha (k # filter (\<lambda>k'. k' \<noteq> k) ord) sm pr \<and>
    (sm_VerifyStorageProof sha ord' sm pr \<longleftrightarrow> hashed (k # filter (\<lambda>k'. k' \<noteq> k) ord) st = hashed ord' st)"
proof -
  have "evm_calculateStorageRoot sha o1 st = evm_calculateStorageRoot sha o2 st \<longleftrightarrow> hashed o1 st = hashed o2 st" for o1 o2
    using assms(3) by (auto simp: evm_calculateStorageRoot_def hashed_def)
  then show ?thesis
    using assms(2) proof_root[OF assms(1,2)]
    by (simp add: sm_VerifyStorageProof_def sm_GetStorageRoot_def)
qed

definition two_slots :: storage_manager where
  "two_slots = sm_SetValue ''acc'' ''b'' [2] (sm_SetValue ''acc'' ''a'' [1] NewStorageManager)"

text \<open>The proof for \<open>a\<close> is refused when \<open>b\<close> is visited first.\<close>

theorem storage_proof_needs_order_witness:
  "\<not> sm_VerifyStorageProof (\<lambda>x. x) [''b'', ''a''] two_slots (the (projr (sm_GetStorageProof [''a'', ''b''] two_slots ''acc'' ''a'')))"
proof -
  let ?pr = "the (projr (sm_GetStorageProof [''a'', ''b''] two_slots ''acc'' ''a''))" and ?st = "the (gget two_slots ''acc'')"
  have pr: "sm_GetStorageProof [''a'', ''b''] two_slots ''acc'' ''a'' = Inr (Some ?pr)"
    and st: "gget two_slots ''acc'' = Some ?st"
    by code_simp+
  have "evm_calculateStorageRoot (\<lambda>x. x) (''a'' # filter (\<lambda>k'. k' \<noteq> ''a'') [''a'', ''b'']) ?st
      \<noteq> evm_calculateStorageRoot (\<lambda>x. x) [''b'', ''a''] ?st"
    by code_simp
  with storage_proof_needs_order[OF pr st, of "\<lambda>x. x"] show ?thesis by blast
qed

end
