(* ===== verification/Float_Error.thy ===== *)
theory Float_Error
  imports Complex_Main Go_Float
begin

text \<open>
  The error of the \<open>float64\<close> operations: each result is within \<open>2^-53\<close> of the exact one, relative to
  it, as long as that is neither tiny nor huge.
\<close>

lemma BitLen_upper: "n < 2 ^ big_BitLen n"
proof (induction n rule: big_BitLen.induct)
  case (1 n)
  then show ?case
    by (cases "n = 0") (simp_all add: big_BitLen.simps[of n])
qed

lemma BitLen_lower: "n > 0 \<Longrightarrow> 2 ^ big_BitLen n \<le> 2 * n"
proof (induction n rule: big_BitLen.induct)
  case (1 n)
  have "2 ^ big_BitLen (n div 2) \<le> n"
  proof (cases "n div 2 = 0")
    case False
    then have "2 ^ big_BitLen (n div 2) \<le> 2 * (n div 2)"
      using 1 by simp
    also have "\<dots> \<le> n"
      by simp
    finally show ?thesis .
  qed (use 1(2) in \<open>simp add: big_BitLen.simps[of 0]\<close>)
  then show ?case
    using 1(2) by (simp add: big_BitLen.simps[of n])
qed

text \<open>The value of a finite number, and how far the nearest integer and the nearest number are.\<close>

definition fl_val :: "int \<Rightarrow> int \<Rightarrow> real" where
  "fl_val m e = m * 2 powi e"

lemma fl_val_0 [simp]: "fl_val 0 e = 0"
  by (simp add: fl_val_def)

lemma powi_split: "(2::real) powi e = 2 ^ nat e / 2 ^ nat (- e)"
  by (cases "e \<ge> 0") (simp_all add: power_int_def field_simps)

lemma float_less_val: "float_less (Finite m e) (Finite m' e') \<longleftrightarrow> fl_val m e < fl_val m' e'"
proof -
  have "fl_val m e < fl_val m' e' \<longleftrightarrow> m * (2 powi (e - e') :: real) < m'"
    by (simp add: fl_val_def power_int_diff field_simps)
  also have "\<dots> \<longleftrightarrow> real_of_int m * 2 ^ nat (e - e') < real_of_int m' * 2 ^ nat (e' - e)"
    by (simp add: powi_split field_simps)
  also have "\<dots> \<longleftrightarrow> real_of_int (m * 2 ^ nat (e - e')) < real_of_int (m' * 2 ^ nat (e' - e))"
    by simp
  also have "\<dots> \<longleftrightarrow> m * 2 ^ nat (e - e') < m' * 2 ^ nat (e' - e)"
    by (rule of_int_less_iff)
  finally show ?thesis
    by simp
qed

lemma div_even_near:
  assumes "d > 0"
  shows "\<bar>real (div_even n d) - n / d\<bar> \<le> 1 / 2"
proof -
  define f where "f = real (n mod d) / d"
  have "real n = real (n div d) * d + real (n mod d)"
    by (metis div_mult_mod_eq of_nat_add of_nat_mult)
  then have "n / d = real (n div d) + f"
    using assms by (simp add: field_simps f_def)
  moreover have "0 \<le> f" "f < 1"
    using assms by (simp_all add: f_def)
  moreover have "2 * (n mod d) > d \<longleftrightarrow> f > 1 / 2" "2 * (n mod d) = d \<longleftrightarrow> f = 1 / 2"
    using assms by (simp_all add: f_def field_simps) linarith+
  ultimately show ?thesis
    by (simp add: div_even_def Let_def)
qed

lemma quot_scaled: "real (n * 2 ^ nat (- e)) / real (d * 2 ^ nat e) = real n / real d / 2 powi e"
  by (simp add: powi_split)

lemma mult_half_one:
  fixes a b :: real
  assumes "1 / 2 \<le> a" "a < 1" "1 \<le> b" "b \<le> 2"
  shows "1 / 2 \<le> a * b" "a * b < 2"
proof -
  have "a * 1 \<le> a * b" "a * b \<le> a * 2"
    using assms by (intro mult_left_mono; simp)+
  then show "1 / 2 \<le> a * b" "a * b < 2"
    using assms by linarith+
qed

lemma quot_exp_scales:
  assumes "n > 0" "d > 0" "1 / 2 ^ 100 \<le> real n / real d"
  shows "2 ^ 52 \<le> real n / real d / 2 powi quot_exp n d" "real n / real d / 2 powi quot_exp n d < 2 ^ 53" "quot_exp n d \<ge> - 1074"
proof -
  define x where "x = real n / real d"
  define e where "e = int (big_BitLen n) - int (big_BitLen d) - 53"
  define e' where "e' = (if n * 2 ^ nat (- e) < 2 ^ 53 * (d * 2 ^ nat e) then e else e + 1)"
  let ?N = "2 ^ big_BitLen n :: real" and ?D = "2 ^ big_BitLen d :: real"
  have pow: "(2 :: real) powi e = ?N / ?D / 2 ^ 53"
    by (simp add: e_def power_int_diff)
  have n: "real n < ?N" "?N \<le> 2 * real n"
    using BitLen_upper[of n] BitLen_lower[OF assms(1)] by (metis of_nat_less_numeral_power_cancel_iff, metis numeral_power_le_of_nat_cancel_iff of_nat_mult of_nat_numeral)
  have d: "real d < ?D" "?D \<le> 2 * real d"
    using BitLen_upper[of d] BitLen_lower[OF assms(2)] by (metis of_nat_less_numeral_power_cancel_iff, metis numeral_power_le_of_nat_cancel_iff of_nat_mult of_nat_numeral)
  define y where "y = (real n / ?N) * (?D / real d)"
  have q: "x / 2 powi e = y * 2 ^ 53"
    by (simp add: pow x_def y_def mult_ac)
  have "1 / 2 \<le> y" "y < 2"
    unfolding y_def by (rule mult_half_one; use n d assms in \<open>simp add: field_simps\<close>)+
  then have base: "2 ^ 52 \<le> x / 2 powi e" "x / 2 powi e < 2 ^ 54"
    unfolding q by simp_all
  have test: "n * 2 ^ nat (- e) < 2 ^ 53 * (d * 2 ^ nat e) \<longleftrightarrow> x / 2 powi e < 2 ^ 53"
  proof -
    have "n * 2 ^ nat (- e) < 2 ^ 53 * (d * 2 ^ nat e) \<longleftrightarrow> real (n * 2 ^ nat (- e)) < 2 ^ 53 * real (d * 2 ^ nat e)"
      by (metis of_nat_less_iff of_nat_mult of_nat_numeral of_nat_power)
    also have "\<dots> \<longleftrightarrow> real (n * 2 ^ nat (- e)) / real (d * 2 ^ nat e) < 2 ^ 53"
      using assms(2) by (subst pos_divide_less_eq) simp_all
    finally show ?thesis
      unfolding quot_scaled x_def .
  qed
  have e': "2 ^ 52 \<le> x / 2 powi e'" "x / 2 powi e' < 2 ^ 53"
    using base unfolding e'_def test by (auto simp: power_int_add)
  have "(1 / 2 ^ 100 :: real) < 2 ^ 53 * 2 powi e'"
    using e'(2) assms(3) by (simp add: x_def[symmetric] field_simps)
  then have "(2 :: real) powi (- 153) < 2 powi e'"
    by (simp add: power_int_def field_simps)
  then have "e' > - 153"
    using power_int_increasing[of e' "- 153" "2 :: real"] by (cases "e' \<le> - 153") simp_all
  then have "quot_exp n d = e'"
    unfolding quot_exp_def e_def[symmetric] Let_def e'_def[symmetric] by simp
  with e' \<open>e' > - 153\<close> show "2 ^ 52 \<le> real n / real d / 2 powi quot_exp n d" "real n / real d / 2 powi quot_exp n d < 2 ^ 53" "quot_exp n d \<ge> - 1074"
    by (simp_all add: x_def)
qed

text \<open>The relative error of a quotient in the normal range is at most \<open>2^-53\<close>.\<close>

lemma float_quot_near:
  assumes "n > 0" "d > 0" "1 / 2 ^ 100 \<le> real n / real d" "real n / real d \<le> 2 ^ 100"
  shows "\<exists>m e. float_quot (int n) d = Finite m e \<and> \<bar>fl_val m e - real n / real d\<bar> \<le> real n / real d / 2 ^ 53"
proof -
  define x where "x = real n / real d"
  define e where "e = quot_exp n d"
  define m where "m = div_even (n * 2 ^ nat (- e)) (d * 2 ^ nat e)"
  have e: "2 ^ 52 \<le> x / 2 powi e" "0 < x"
    using quot_exp_scales(1)[OF assms(1-3)] assms(1,2) by (simp_all add: x_def e_def)
  have "\<bar>real m - x / 2 powi e\<bar> \<le> 1 / 2"
    using div_even_near[of "d * 2 ^ nat e" "n * 2 ^ nat (- e)", unfolded quot_scaled] assms(2) by (simp add: m_def x_def)
  then have "\<bar>real m - x / 2 powi e\<bar> * 2 powi e \<le> 1 / 2 * 2 powi e"
    by (rule mult_right_mono) simp
  moreover have "\<bar>real m - x / 2 powi e\<bar> * 2 powi e = \<bar>(real m - x / 2 powi e) * 2 powi e\<bar>"
    by (simp add: abs_mult)
  moreover have "(real m - x / 2 powi e) * 2 powi e = real m * 2 powi e - x"
    by (simp add: left_diff_distrib)
  moreover have "2 powi e \<le> x / 2 ^ 52"
    using e by (simp add: field_simps)
  ultimately have near: "\<bar>fl_val (int m) e - x\<bar> \<le> x / 2 ^ 53"
    by (simp add: fl_val_def)
  have "\<not> (e \<ge> 0 \<and> m * 2 ^ nat e \<ge> 2 ^ 1024)"
  proof
    assume big: "e \<ge> 0 \<and> m * 2 ^ nat e \<ge> 2 ^ 1024"
    then have "fl_val (int m) e = real (m * 2 ^ nat e)"
      by (simp add: fl_val_def power_int_def)
    also have "\<dots> \<ge> 2 ^ 1024"
      using big by (metis numeral_power_le_of_nat_cancel_iff)
    also have "fl_val (int m) e \<le> 2 * x"
    proof -
      have "x / 2 ^ 53 \<le> x"
        using e(2) by simp
      with near show ?thesis
        by linarith
    qed
    finally have "(2 :: real) ^ 1024 \<le> 2 * x" .
    moreover have "2 * x \<le> 2 ^ 101"
      using assms(4) by (simp add: x_def)
    moreover have "(2 :: real) ^ 101 < 2 ^ 1024"
      by (rule power_strict_increasing) simp_all
    ultimately show False
      by linarith
  qed
  then have "float_quot (int n) d = Finite (int m) e"
    using assms(1) by (auto simp: float_quot_def e_def m_def Let_def)
  with near show ?thesis
    unfolding x_def by blast
qed

lemma float_scale_near:
  assumes "m > 0" "1 / 2 ^ 100 \<le> fl_val m e" "fl_val m e \<le> 2 ^ 100"
  shows "\<exists>m' e'. float_scale m e = Finite m' e' \<and> \<bar>fl_val m' e' - fl_val m e\<bar> \<le> fl_val m e / 2 ^ 53"
proof -
  have v: "real (nat m * 2 ^ nat e) / real (2 ^ nat (- e)) = fl_val m e"
    using assms(1) by (simp add: fl_val_def powi_split)
  have "int (nat m * 2 ^ nat e) = m * 2 ^ nat e"
    using assms(1) by simp
  with float_quot_near[of "nat m * 2 ^ nat e" "2 ^ nat (- e)"] assms show ?thesis
    unfolding v float_scale_def by simp
qed

lemma float_mul_near:
  assumes "0 < m" "0 < m'" "1 / 2 ^ 100 \<le> fl_val m e * fl_val m' e'" "fl_val m e * fl_val m' e' \<le> 2 ^ 100"
  shows "\<exists>k f. float_mul (Finite m e) (Finite m' e') = Finite k f \<and>
    \<bar>fl_val k f - fl_val m e * fl_val m' e'\<bar> \<le> fl_val m e * fl_val m' e' / 2 ^ 53"
proof -
  have "fl_val (m * m') (e + e') = fl_val m e * fl_val m' e'"
    by (simp add: fl_val_def power_int_add)
  then show ?thesis
    using float_scale_near[of "m * m'" "e + e'"] assms by simp
qed

lemma float_div_near:
  assumes "0 < m" "0 < m'" "1 / 2 ^ 100 \<le> fl_val m e / fl_val m' e'" "fl_val m e / fl_val m' e' \<le> 2 ^ 100"
  shows "\<exists>k f. float_div (Finite m e) (Finite m' e') = Finite k f \<and>
    \<bar>fl_val k f - fl_val m e / fl_val m' e'\<bar> \<le> fl_val m e / fl_val m' e' / 2 ^ 53"
proof -
  have v: "real (nat m * 2 ^ nat (e - e')) / real (nat m' * 2 ^ nat (e' - e)) = fl_val m e / fl_val m' e'"
    using assms(1,2) powi_split[of "e - e'"] by (simp add: fl_val_def power_int_diff field_simps)
  have "int (nat m * 2 ^ nat (e - e')) = m * 2 ^ nat (e - e')"
    using assms(1) by simp
  with float_quot_near[of "nat m * 2 ^ nat (e - e')" "nat m' * 2 ^ nat (e' - e)"] assms show ?thesis
    unfolding v by simp
qed

lemma fl_val_sign: "0 < fl_val m e \<longleftrightarrow> 0 < m" "0 \<le> fl_val m e \<longleftrightarrow> 0 \<le> m"
proof -
  have "(0 :: real) < 2 powi e"
    by simp
  then show "0 < fl_val m e \<longleftrightarrow> 0 < m" "0 \<le> fl_val m e \<longleftrightarrow> 0 \<le> m"
    unfolding fl_val_def by (metis of_int_0_less_iff zero_less_mult_pos2 mult_pos_pos, metis of_int_0_le_iff mult_le_cancel_right_pos mult_zero_left)
qed

lemma float_add_near:
  assumes "0 \<le> m" "0 \<le> m'" "1 / 2 ^ 100 \<le> fl_val m e + fl_val m' e'" "fl_val m e + fl_val m' e' \<le> 2 ^ 100"
  shows "\<exists>k f. float_add (Finite m e) (Finite m' e') = Finite k f \<and>
    \<bar>fl_val k f - (fl_val m e + fl_val m' e')\<bar> \<le> (fl_val m e + fl_val m' e') / 2 ^ 53"
proof -
  define k where "k = min e e'"
  define z where "z = m * 2 ^ nat (e - k) + m' * 2 ^ nat (e' - k)"
  have "fl_val (x * 2 ^ nat (f - k)) k = fl_val x f" if "k \<le> f" for x f
    using that by (simp add: fl_val_def power_int_diff power_int_def[of _ "f - k", symmetric] flip: power_int_of_nat)
  then have "fl_val (m * 2 ^ nat (e - k)) k = fl_val m e" "fl_val (m' * 2 ^ nat (e' - k)) k = fl_val m' e'"
    by (simp_all add: k_def)
  then have v: "fl_val z k = fl_val m e + fl_val m' e'"
    unfolding z_def fl_val_def of_int_add distrib_right by (rule arg_cong2)
  have "z > 0"
  proof -
    have "0 < fl_val z k"
      using assms(3) unfolding v by (rule less_le_trans[rotated]) simp
    then show ?thesis
      by (simp add: fl_val_sign)
  qed
  from float_scale_near[OF this, of k] assms(3,4) show ?thesis
    unfolding v by (simp add: z_def k_def Let_def)
qed

text \<open>Bounds that survive rounding up to a factor of two.\<close>

definition float_in :: "float64 \<Rightarrow> real \<Rightarrow> real \<Rightarrow> bool" where
  "float_in x lo hi = (\<exists>m e. x = Finite m e \<and> lo \<le> fl_val m e \<and> fl_val m e \<le> hi)"

lemma float_in_near:
  assumes "\<exists>m e. x = Finite m e \<and> \<bar>fl_val m e - y\<bar> \<le> y / 2 ^ 53" "lo \<le> y" "y \<le> hi" "0 \<le> y"
  shows "float_in x (lo / 2) (2 * hi)"
proof -
  obtain m e where m: "x = Finite m e" "\<bar>fl_val m e - y\<bar> \<le> y / 2 ^ 53"
    using assms(1) by blast
  moreover have "y / 2 ^ 53 \<le> y / 2"
    using assms(4) by (intro divide_left_mono) simp_all
  ultimately have "\<bar>fl_val m e - y\<bar> \<le> y / 2"
    by linarith
  then have "lo / 2 \<le> fl_val m e \<and> fl_val m e \<le> 2 * hi"
    using assms(2-4) by linarith
  with m(1) show ?thesis
    unfolding float_in_def by blast
qed

lemma float_of_int_in:
  assumes "0 \<le> n" "n < 2 ^ 63"
  shows "float_in (float_of_int n) (n / 2) (2 * n)"
proof (cases "n = 0")
  case True
  then show ?thesis
    by (auto simp: float_of_int_def float_quot_def float_in_def fl_val_def)
next
  case False
  have r: "real (nat n) = n" "int (nat n) = n"
    using assms by simp_all
  have "1 \<le> real_of_int n" "real_of_int n \<le> 2 ^ 100"
    using False assms by simp_all
  then have "\<exists>m e. float_quot n 1 = Finite m e \<and> \<bar>fl_val m e - n\<bar> \<le> n / 2 ^ 53"
    using float_quot_near[of "nat n" 1] r False assms(1) by simp
  from float_in_near[OF this order_refl order_refl] assms(1) show ?thesis
    by (simp add: float_of_int_def)
qed

lemma float_div_in:
  assumes "float_in x a b" "float_in y c d" "0 < c" "1 / 2 ^ 100 \<le> a / d" "b / c \<le> 2 ^ 100"
  shows "float_in (float_div x y) (a / d / 2) (2 * (b / c))"
proof -
  obtain m e m' e' where x: "x = Finite m e" "a \<le> fl_val m e" "fl_val m e \<le> b"
      and y: "y = Finite m' e'" "c \<le> fl_val m' e'" "fl_val m' e' \<le> d"
    using assms(1,2) by (auto simp: float_in_def)
  have "0 < a / d"
    using assms(4) by (rule less_le_trans[rotated]) simp
  moreover have d: "0 < d"
    using y assms(3) by linarith
  ultimately have a: "0 < a"
    by (simp add: zero_less_divide_iff)
  have lo: "a / d \<le> fl_val m e / fl_val m' e'"
    using x y a assms(3) by (intro frac_le) simp_all
  have hi: "fl_val m e / fl_val m' e' \<le> b / c"
    using x y a assms(3) by (intro frac_le) simp_all
  have "0 < m" "0 < m'"
    using x y a assms(3) fl_val_sign(1)[of m e] fl_val_sign(1)[of m' e'] by linarith+
  from float_div_near[OF this] have "\<exists>k f. float_div x y = Finite k f \<and> \<bar>fl_val k f - fl_val m e / fl_val m' e'\<bar> \<le> fl_val m e / fl_val m' e' / 2 ^ 53"
    using lo hi assms(4,5) unfolding x(1) y(1) by (meson order_trans)
  from float_in_near[OF this lo hi] lo \<open>0 < a / d\<close> show ?thesis
    by linarith
qed

lemma float_add_in:
  assumes "float_in x a b" "float_in y c d" "0 \<le> a" "0 \<le> c" "1 / 2 ^ 100 \<le> a + c" "b + d \<le> 2 ^ 100"
  shows "float_in (float_add x y) ((a + c) / 2) (2 * (b + d))"
proof -
  obtain m e m' e' where x: "x = Finite m e" "a \<le> fl_val m e" "fl_val m e \<le> b"
      and y: "y = Finite m' e'" "c \<le> fl_val m' e'" "fl_val m' e' \<le> d"
    using assms(1,2) by (auto simp: float_in_def)
  have lo: "a + c \<le> fl_val m e + fl_val m' e'" and hi: "fl_val m e + fl_val m' e' \<le> b + d"
    using x y by simp_all
  have "0 \<le> m" "0 \<le> m'"
    using x y assms(3,4) fl_val_sign(2)[of m e] fl_val_sign(2)[of m' e'] by linarith+
  from float_add_near[OF this] have "\<exists>k f. float_add x y = Finite k f \<and>
      \<bar>fl_val k f - (fl_val m e + fl_val m' e')\<bar> \<le> (fl_val m e + fl_val m' e') / 2 ^ 53"
    using lo hi assms(5,6) unfolding x(1) y(1) by (meson order_trans)
  from float_in_near[OF this lo hi] lo assms(3,4) show ?thesis
    by linarith
qed

end
