(* ===== verification/Dag_Optimizer.thy ===== *)
theory Dag_Optimizer
  imports Float_Error
begin

text \<open>
  \<open>internal/dag/optimization.go\<close>: the metrics of waves, the suggestions computed from them and
  their application.  The map of pointers to metrics is a map of records, since every entry has
  its own record; \<open>time.Now()\<close> is an argument.
\<close>

section \<open>Metrics\<close>

record wave_metrics =
  mt_WaveNumber :: int
  mt_BlockCount :: int
  mt_AverageLatency :: int
  mt_Throughput :: float64
  mt_ResourceUsage :: float64
  mt_ConflictCount :: int
  mt_LastUpdate :: int

type_synonym wave_optimizer = "(int, wave_metrics) gomap"

definition NewWaveOptimizer :: wave_optimizer where
  "NewWaveOptimizer = []"

text \<open>\<open>Duration.Seconds\<close> of a positive duration.\<close>

definition duration_Seconds :: "int \<Rightarrow> float64" where
  "duration_Seconds d = float_add (float_of_int (d div 1000000000)) (float_div (float_of_int (d mod 1000000000)) (Finite 1000000000 0))"

definition new_metrics :: "int \<Rightarrow> wave_metrics" where
  "new_metrics waveNumber = \<lparr>mt_WaveNumber = waveNumber, mt_BlockCount = 0, mt_AverageLatency = 0, mt_Throughput = Finite 0 0,
     mt_ResourceUsage = Finite 0 0, mt_ConflictCount = 0, mt_LastUpdate = zero_time\<rparr>"

definition UpdateMetrics :: "int \<Rightarrow> int \<Rightarrow> int \<Rightarrow> int \<Rightarrow> float64 \<Rightarrow> int \<Rightarrow> wave_optimizer \<Rightarrow> wave_optimizer" where
  "UpdateMetrics now waveNumber blockCount latency resourceUsage conflictCount wo =
     (let metrics = (case gget wo waveNumber of None \<Rightarrow> new_metrics waveNumber | Some m \<Rightarrow> m);
          metrics = metrics\<lparr>mt_BlockCount := blockCount, mt_AverageLatency := latency, mt_ResourceUsage := resourceUsage,
            mt_ConflictCount := conflictCount, mt_LastUpdate := now\<rparr>;
          metrics = (if latency > 0
            then metrics\<lparr>mt_Throughput := float_div (float_of_int blockCount) (duration_Seconds latency)\<rparr> else metrics)
      in gput waveNumber metrics wo)"

definition GetMetrics :: "int \<Rightarrow> wave_optimizer \<Rightarrow> wave_metrics option" where
  "GetMetrics waveNumber wo = gget wo waveNumber"

definition later :: "int \<times> wave_metrics \<Rightarrow> int \<times> int \<Rightarrow> int \<times> int" where
  "later = (\<lambda>(waveNumber, metrics) (latestWave, latestTime).
     if mt_LastUpdate metrics > latestTime then (waveNumber, mt_LastUpdate metrics) else (latestWave, latestTime))"

definition GetLatestMetrics :: "int list \<Rightarrow> wave_optimizer \<Rightarrow> wave_metrics option" where
  "GetLatestMetrics ord wo = gget wo (fst (fold later (range_items ord wo) (0, zero_time)))"

section \<open>Suggestions\<close>

record wave_optimization =
  op_WaveNumber :: int
  op_SuggestedLatency :: int
  op_SuggestedThroughput :: float64
  op_SuggestedResourceUsage :: float64
  op_SuggestedConflictResolution :: bool

text \<open>The constants: \<open>100*time.Millisecond\<close>, \<open>1000\<close>, \<open>1.5\<close>, \<open>0.8\<close> and \<open>0.6\<close>.\<close>

abbreviation "latencyTarget \<equiv> 100000000 :: int"
abbreviation "throughputTarget \<equiv> Finite 1000 0"
abbreviation "one_and_half \<equiv> Finite 3 (- 1)"
abbreviation "usageTarget \<equiv> float_quot 4 5"
abbreviation "usageSuggested \<equiv> float_quot 3 5"

definition OptimizeWave :: "int \<Rightarrow> wave_optimizer \<Rightarrow> wave_optimization option" where
  "OptimizeWave waveNumber wo = (case gget wo waveNumber of
     None \<Rightarrow> None
   | Some metrics \<Rightarrow> Some \<lparr>op_WaveNumber = waveNumber,
       op_SuggestedLatency = (if mt_AverageLatency metrics > latencyTarget then mt_AverageLatency metrics sdiv 2 else 0),
       op_SuggestedThroughput = (if float_less (mt_Throughput metrics) throughputTarget
         then float_mul (mt_Throughput metrics) one_and_half else Finite 0 0),
       op_SuggestedResourceUsage = (if float_less usageTarget (mt_ResourceUsage metrics) then usageSuggested else Finite 0 0),
       op_SuggestedConflictResolution = (mt_ConflictCount metrics > 10)\<rparr>)"

definition ApplyOptimization :: "int \<Rightarrow> wave_optimization \<Rightarrow> wave_optimizer \<Rightarrow> wave_optimizer" where
  "ApplyOptimization now optimization wo = (case gget wo (op_WaveNumber optimization) of
     None \<Rightarrow> wo
   | Some metrics \<Rightarrow>
       let metrics = (if op_SuggestedLatency optimization > 0
             then metrics\<lparr>mt_AverageLatency := op_SuggestedLatency optimization\<rparr> else metrics);
           metrics = (if float_less (Finite 0 0) (op_SuggestedThroughput optimization)
             then metrics\<lparr>mt_Throughput := op_SuggestedThroughput optimization\<rparr> else metrics);
           metrics = (if float_less (Finite 0 0) (op_SuggestedResourceUsage optimization)
             then metrics\<lparr>mt_ResourceUsage := op_SuggestedResourceUsage optimization\<rparr> else metrics);
           metrics = (if op_SuggestedConflictResolution optimization then metrics\<lparr>mt_ConflictCount := 0\<rparr> else metrics)
       in gput (op_WaveNumber optimization) (metrics\<lparr>mt_LastUpdate := now\<rparr>) wo)"

definition GetOptimizationHistory :: "int list \<Rightarrow> wave_optimizer \<Rightarrow> wave_optimization list" where
  "GetOptimizationHistory ord wo = List.map_filter (\<lambda>(waveNumber, _). OptimizeWave waveNumber wo) (range_items ord wo)"

section \<open>The latest metrics\<close>

inductive optimizer_reach :: "wave_optimizer \<Rightarrow> bool" where
  or_new: "optimizer_reach NewWaveOptimizer"
| or_update: "optimizer_reach wo \<Longrightarrow> now > zero_time \<Longrightarrow> optimizer_reach (UpdateMetrics now w bc lat ru cc wo)"
| or_apply: "optimizer_reach wo \<Longrightarrow> now > zero_time \<Longrightarrow> optimizer_reach (ApplyOptimization now op wo)"

definition optimizer_inv :: "wave_optimizer \<Rightarrow> bool" where
  "optimizer_inv wo = (gwf wo \<and> (\<forall>w m. gget wo w = Some m \<longrightarrow> mt_WaveNumber m = w \<and> mt_LastUpdate m > zero_time))"

lemma optimizer_inv_put: "optimizer_inv wo \<Longrightarrow> mt_WaveNumber m = w \<Longrightarrow> mt_LastUpdate m > zero_time \<Longrightarrow> optimizer_inv (gput w m wo)"
  by (simp add: optimizer_inv_def)

lemma optimizer_reach_inv: "optimizer_reach wo \<Longrightarrow> optimizer_inv wo"
proof (induction rule: optimizer_reach.induct)
  case or_new
  show ?case
    by (simp add: optimizer_inv_def NewWaveOptimizer_def)
next
  case (or_update wo now w bc lat ru cc)
  then show ?case
    unfolding UpdateMetrics_def Let_def
    by (intro optimizer_inv_put) (auto simp: optimizer_inv_def new_metrics_def split: option.splits)
next
  case (or_apply wo now op)
  then show ?case
    unfolding ApplyOptimization_def Let_def
    by (auto split: option.split intro!: optimizer_inv_put) (auto simp: optimizer_inv_def)
qed

text \<open>The fold keeps the largest time it has seen and a wave with that time.\<close>

lemma fold_later:
  "let (w', t') = fold later ms (w, t)
   in t \<le> t' \<and> (\<forall>(k, m) \<in> set ms. mt_LastUpdate m \<le> t') \<and> (w' = w \<and> t' = t \<or> (\<exists>m. (w', m) \<in> set ms \<and> mt_LastUpdate m = t' \<and> t < t'))"
proof (induction ms arbitrary: w t)
  case (Cons a ms)
  show ?case
    using Cons[of "fst (later a (w, t))" "snd (later a (w, t))"]
    by (cases a) (auto simp: later_def Let_def split: prod.splits if_splits)
qed simp

text \<open>\<open>GetLatestMetrics\<close> returns an entry no other entry is newer than, whatever the order in which
  Go visits the map, and nothing only when there are no metrics.\<close>

theorem latest_metrics:
  assumes "optimizer_reach wo" "range_order ord wo"
  shows "case GetLatestMetrics ord wo of
      None \<Rightarrow> wo = []
    | Some m \<Rightarrow> gget wo (mt_WaveNumber m) = Some m \<and> (\<forall>w' m'. gget wo w' = Some m' \<longrightarrow> mt_LastUpdate m' \<le> mt_LastUpdate m)"
proof (cases "wo = []")
  case False
  have inv: "optimizer_inv wo"
    using optimizer_reach_inv[OF assms(1)] .
  obtain w t where f: "fold later (range_items ord wo) (0, zero_time) = (w, t)"
    by fastforce
  have items: "(k, m) \<in> set (range_items ord wo) \<longleftrightarrow> gget wo k = Some m" for k m
    using assms(2) by (auto simp: set_range_items range_order_def gkeys_iff)
  have max: "mt_LastUpdate m \<le> t" if "gget wo k = Some m" for k m
    using fold_later[of "range_items ord wo" 0 zero_time] that by (auto simp: f items[symmetric])
  obtain k m where "gget wo k = Some m"
    using False inv gget_set[of wo "fst (hd wo)" "snd (hd wo)"] by (auto simp: optimizer_inv_def)
  then have "zero_time < t"
    using max[of k m] inv unfolding optimizer_inv_def by (meson less_le_trans)
  then obtain m where "gget wo w = Some m" "mt_LastUpdate m = t"
    using fold_later[of "range_items ord wo" 0 zero_time] by (auto simp: f items)
  then show ?thesis
    using max inv by (auto simp: GetLatestMetrics_def f optimizer_inv_def)
qed (simp add: GetLatestMetrics_def)

section \<open>Repeated optimisation\<close>

definition optimise_round :: "int \<Rightarrow> int \<Rightarrow> wave_optimizer \<Rightarrow> wave_optimizer" where
  "optimise_round now w wo = (case OptimizeWave w wo of None \<Rightarrow> wo | Some op \<Rightarrow> ApplyOptimization now op wo)"

text \<open>What a round does to the metrics of the wave.\<close>

definition better_throughput :: "float64 \<Rightarrow> float64" where
  "better_throughput t = (if float_less t throughputTarget \<and> float_less (Finite 0 0) (float_mul t one_and_half)
     then float_mul t one_and_half else t)"

definition better_metrics :: "int \<Rightarrow> wave_metrics \<Rightarrow> wave_metrics" where
  "better_metrics now m = m\<lparr>mt_AverageLatency := (if mt_AverageLatency m > latencyTarget then mt_AverageLatency m div 2 else mt_AverageLatency m),
     mt_Throughput := better_throughput (mt_Throughput m),
     mt_ResourceUsage := (if float_less usageTarget (mt_ResourceUsage m) then usageSuggested else mt_ResourceUsage m),
     mt_ConflictCount := (if mt_ConflictCount m > 10 then 0 else mt_ConflictCount m), mt_LastUpdate := now\<rparr>"

lemma usage_targets: "\<not> float_less usageTarget usageSuggested" "float_less (Finite 0 0) usageSuggested"
proof -
  have "\<exists>m e. usageTarget = Finite m e \<and> \<bar>fl_val m e - 4 / 5\<bar> \<le> 4 / 5 / 2 ^ 53"
    "\<exists>m e. usageSuggested = Finite m e \<and> \<bar>fl_val m e - 3 / 5\<bar> \<le> 3 / 5 / 2 ^ 53"
    using float_quot_near[of 4 5] float_quot_near[of 3 5] by simp_all
  then obtain m e m' e' where "usageTarget = Finite m e" "usageSuggested = Finite m' e'"
      and n: "\<bar>fl_val m e - 4 / 5\<bar> \<le> 4 / 5 / 2 ^ 53" "\<bar>fl_val m' e' - 3 / 5\<bar> \<le> 3 / 5 / 2 ^ 53"
    by blast
  moreover have "\<not> fl_val m e < fl_val m' e'" "0 < fl_val m' e'"
    using n by (simp, argo)+
  ultimately show "\<not> float_less usageTarget usageSuggested" "float_less (Finite 0 0) usageSuggested"
    by (simp_all only: float_less_val fl_val_0 not_False_eq_True)
qed

lemma round_metrics:
  assumes "gget wo w = Some m"
  shows "gget (optimise_round now w wo) w = Some (better_metrics now m)"
proof -
  have "x sdiv 2 = x div 2" "0 < x div 2" if "x > latencyTarget" for x :: int
    using that by (simp_all add: signed_divide_int_def sgn_if)
  moreover have "\<not> float_less (Finite 0 0) (Finite 0 0)"
    by simp
  ultimately show ?thesis
    using assms usage_targets(2)
    by (auto simp: optimise_round_def OptimizeWave_def ApplyOptimization_def better_metrics_def better_throughput_def Let_def
        simp del: float_less.simps)
qed

lemma rounds_metrics:
  assumes "gget wo w = Some m"
  shows "gget ((optimise_round now w ^^ n) wo) w = Some ((better_metrics now ^^ n) m)"
  by (induction n) (simp_all add: assms round_metrics)

text \<open>The latency halves until it meets its target.\<close>

lemma latency_rounds:
  "nat (mt_AverageLatency m) \<le> n \<Longrightarrow> mt_AverageLatency ((better_metrics now ^^ n) m) \<le> latencyTarget"
proof (induction n arbitrary: m)
  case (Suc n)
  have "nat (mt_AverageLatency (better_metrics now m)) \<le> n \<or> mt_AverageLatency m \<le> latencyTarget"
    using Suc.prems by (auto simp: better_metrics_def)
  moreover have "mt_AverageLatency ((better_metrics now ^^ k) m) \<le> latencyTarget" if "mt_AverageLatency m \<le> latencyTarget" for k
    using that by (induction k) (simp_all add: better_metrics_def)
  ultimately show ?case
    using Suc.IH[of "better_metrics now m"] by (metis comp_apply funpow_Suc_right)
qed simp

lemma better_stays:
  "mt_ConflictCount ((better_metrics now ^^ Suc n) m) \<le> 10"
  "\<not> float_less usageTarget (mt_ResourceUsage ((better_metrics now ^^ Suc n) m))"
  using usage_targets(1) by (simp_all add: better_metrics_def del: float_less.simps)

text \<open>A positive throughput grows by a quarter at least until it meets its target.\<close>

lemma throughput_grows:
  assumes "float_in t lo (2 ^ 100)" "1 / 2 ^ 50 \<le> lo" "float_less t throughputTarget"
  shows "float_in (better_throughput t) (5 / 4 * lo) (2 ^ 100)"
proof -
  obtain m e where t: "t = Finite m e" "lo \<le> fl_val m e"
    using assms(1) by (auto simp: float_in_def)
  have small: "fl_val m e < 1000"
    using assms(3) by (simp only: t(1) float_less_val) (simp add: fl_val_def)
  have one: "fl_val 3 (- 1) = 3 / 2"
    by (simp add: fl_val_def)
  have "0 < fl_val m e"
    by (rule less_le_trans[OF _ order_trans[OF assms(2) t(2)]]) simp
  then have "0 < m"
    by (simp add: fl_val_sign)
  have "1 / 2 ^ 100 \<le> fl_val m e * fl_val 3 (- 1)"
  proof -
    have "1 / 2 ^ 100 \<le> (1 / 2 ^ 50 :: real)" by simp
    then show ?thesis using t(2) assms(2) \<open>0 < fl_val m e\<close> unfolding one by linarith
  qed
  moreover have "fl_val m e * fl_val 3 (- 1) \<le> 2 ^ 100"
    using small by (simp add: one)
  ultimately obtain k f where k: "float_mul t one_and_half = Finite k f"
      and near: "\<bar>fl_val k f - fl_val m e * (3 / 2)\<bar> \<le> fl_val m e * (3 / 2) / 2 ^ 53"
    using float_mul_near[OF \<open>0 < m\<close>, of 3 e "- 1"] t(1) one by auto
  have "fl_val m e * (3 / 2) / 2 ^ 53 \<le> fl_val m e * (1 / 4)"
    using \<open>0 < fl_val m e\<close> by simp
  then have v: "5 / 4 * fl_val m e \<le> fl_val k f" "fl_val k f \<le> 2 * fl_val m e"
    using near by (simp_all only: abs_le_iff) linarith+
  moreover have "float_less (Finite 0 0) (Finite k f)"
    using v \<open>0 < fl_val m e\<close> by (simp only: float_less_val fl_val_0)
  ultimately show ?thesis
    using t(2) small assms(3) k by (auto simp: better_throughput_def float_in_def simp del: float_less.simps)
qed

lemma throughput_rounds:
  assumes "float_in t lo (2 ^ 100)" "1 / 2 ^ 50 \<le> lo" "1000 \<le> (5 / 4) ^ n * lo"
  shows "\<not> float_less ((better_throughput ^^ n) t) throughputTarget"
  using assms
proof (induction n arbitrary: t lo)
  case 0
  then obtain m e where "t = Finite m e" "1000 \<le> fl_val m e"
    by (auto simp: float_in_def)
  moreover have "fl_val 1000 0 = 1000"
    by (simp add: fl_val_def)
  ultimately show ?case
    by (simp only: funpow_0 float_less_val not_less)
next
  case (Suc n)
  show ?case
  proof (cases "float_less t throughputTarget")
    case True
    from Suc.IH[OF throughput_grows[OF Suc.prems(1,2) True]] Suc.prems(2,3) show ?thesis
      by (simp add: funpow_Suc_right mult_ac del: funpow.simps float_less.simps)
  next
    case False
    then have "(better_throughput ^^ k) t = t" for k
      by (induction k) (simp_all add: better_throughput_def)
    with False show ?thesis
      by (simp only: not_False_eq_True)
  qed
qed

lemma rounds_throughput: "mt_Throughput ((better_metrics now ^^ n) m) = (better_throughput ^^ n) (mt_Throughput m)"
  by (induction n) (simp_all add: better_metrics_def)

lemma seconds_range:
  fixes s q :: real
  assumes "1 / 2 ^ 40 \<le> s + q" "s + q \<le> 2 ^ 63" "0 \<le> s" "0 \<le> q"
  shows "1 / 2 ^ 100 \<le> s / 2 + q / 4 \<and> 2 * s + 4 * q \<le> 2 ^ 100"
proof -
  have "(1 / 2 ^ 100 :: real) \<le> 1 / 2 ^ 40 / 4"
    by simp
  also have "\<dots> \<le> (s + q) / 4"
    using assms(1) by (rule divide_right_mono) simp
  also have "\<dots> \<le> s / 2 + q / 4"
    using assms(3) by (simp add: field_simps)
  finally have lo: "1 / 2 ^ 100 \<le> s / 2 + q / 4" .
  have "2 * s + 4 * q \<le> 4 * (s + q)"
    using assms(3) by simp
  also have "\<dots> \<le> 4 * 2 ^ 63"
    using assms(2) by (rule mult_left_mono) simp
  finally show ?thesis
    using lo by simp
qed

lemma seconds_in:
  assumes "0 < d" "d < 2 ^ 63"
  shows "float_in (duration_Seconds d) (d / 10 ^ 9 / 8) (8 * (d / 10 ^ 9))"
proof -
  define s r where "s = d div 10 ^ 9" and "r = d mod 10 ^ 9"
  have d: "d = s * 10 ^ 9 + r" "0 \<le> s" "0 \<le> r" "r < 10 ^ 9" "s < 2 ^ 63" "r < 2 ^ 63"
    using assms by (simp_all add: s_def r_def)
  have nano: "float_in (Finite (10 ^ 9) 0) (10 ^ 9) (10 ^ 9)"
    by (simp add: float_in_def fl_val_def)
  have frac: "float_in (float_div (float_of_int r) (Finite (10 ^ 9) 0)) (r / 10 ^ 9 / 4) (4 * (r / 10 ^ 9))"
  proof (cases "r = 0")
    case True
    then show ?thesis
      by (auto simp: float_of_int_def float_quot_def float_in_def)
  next
    case False
    then have "1 \<le> real_of_int r" "real_of_int r < 10 ^ 9"
      using d by simp_all
    with float_div_in[OF float_of_int_in[OF d(3,6)] nano] show ?thesis
      by simp
  qed
  have real: "real_of_int d / 10 ^ 9 = s + r / 10 ^ 9"
    using d(1) by simp
  have "1 / 2 ^ 40 \<le> real_of_int d / 10 ^ 9" "real_of_int d / 10 ^ 9 \<le> 2 ^ 63"
    using assms by simp_all
  then have "1 / 2 ^ 100 \<le> s / 2 + r / 10 ^ 9 / 4 \<and> 2 * real_of_int s + 4 * (r / 10 ^ 9) \<le> 2 ^ 100"
    unfolding real by (rule seconds_range) (use d in simp_all)
  then have "float_in (float_add (float_of_int s) (float_div (float_of_int r) (Finite (10 ^ 9) 0)))
      ((s / 2 + r / 10 ^ 9 / 4) / 2) (2 * (2 * real_of_int s + 4 * (r / 10 ^ 9)))"
    by (intro float_add_in[OF float_of_int_in frac]) (use d in simp_all)
  moreover have "real_of_int d / 10 ^ 9 / 8 \<le> (s / 2 + r / 10 ^ 9 / 4) / 2" "2 * (2 * real_of_int s + 4 * (r / 10 ^ 9)) \<le> 8 * (real_of_int d / 10 ^ 9)"
    using d unfolding real by simp_all
  ultimately have "float_in (float_add (float_of_int s) (float_div (float_of_int r) (Finite (10 ^ 9) 0)))
      (real_of_int d / 10 ^ 9 / 8) (8 * (real_of_int d / 10 ^ 9))"
    unfolding float_in_def by (meson order_trans)
  then show ?thesis
    by (simp add: duration_Seconds_def s_def r_def)
qed

lemma throughput_start:
  assumes "1 \<le> bc" "bc < 2 ^ 63" "0 < d" "d < 2 ^ 63"
  shows "float_in (float_div (float_of_int bc) (duration_Seconds d)) (1 / 2 ^ 50) (2 ^ 100)"
proof -
  have b: "1 \<le> real_of_int bc" "real_of_int bc \<le> 2 ^ 63" "1 \<le> real_of_int d" "real_of_int d \<le> 2 ^ 63"
    using assms by simp_all
  have lo: "1 / 2 ^ 49 \<le> bc / 2 / (8 * (d / 10 ^ 9))"
  proof -
    have "1 / 2 ^ 49 * (16 * real_of_int d / 10 ^ 9) \<le> bc"
      using b by simp
    then show ?thesis
      using b by (simp add: field_simps)
  qed
  have hi: "2 * real_of_int bc / (d / 10 ^ 9 / 8) \<le> 2 ^ 99"
  proof -
    have "16 * 10 ^ 9 * real_of_int bc \<le> 2 ^ 99 * d"
      using b by simp
    then show ?thesis
      using b by (simp add: field_simps)
  qed
  have "float_in (float_div (float_of_int bc) (duration_Seconds d)) (bc / 2 / (8 * (d / 10 ^ 9)) / 2) (2 * (2 * real_of_int bc / (d / 10 ^ 9 / 8)))"
    by (rule float_div_in[OF float_of_int_in seconds_in]) (use assms lo hi in simp_all)
  then show ?thesis
    using lo hi unfolding float_in_def by force
qed

text \<open>(C39) Suggesting and applying repeatedly ends: after enough rounds the latency of a wave with
  blocks is at most 100 ms, its throughput at least 1000, its resource usage at most 0.8 and
  its conflict count at most 10, for as long as the rounds continue, and nothing more is
  suggested.  The arithmetic is that of \<open>float64\<close>, rounding included.\<close>

theorem optimisation_converges:
  assumes "1 \<le> blockCount" "blockCount < 2 ^ 63" "0 < latency" "latency < 2 ^ 63"
  shows "\<exists>N. \<forall>n \<ge> N. \<exists>m. (let wo' = (optimise_round now w ^^ n) (UpdateMetrics t w blockCount latency usage conflicts wo)
      in gget wo' w = Some m \<and> mt_AverageLatency m \<le> 100000000 \<and> \<not> float_less (mt_Throughput m) (Finite 1000 0) \<and>
         \<not> float_less usageTarget (mt_ResourceUsage m) \<and> mt_ConflictCount m \<le> 10 \<and>
         OptimizeWave w wo' = Some \<lparr>op_WaveNumber = w, op_SuggestedLatency = 0, op_SuggestedThroughput = Finite 0 0,
           op_SuggestedResourceUsage = Finite 0 0, op_SuggestedConflictResolution = False\<rparr>)"
proof -
  obtain m where m: "gget (UpdateMetrics t w blockCount latency usage conflicts wo) w = Some m"
      and thr: "mt_Throughput m = float_div (float_of_int blockCount) (duration_Seconds latency)"
    using assms(3) by (simp add: UpdateMetrics_def Let_def)
  have start: "float_in (mt_Throughput m) (1 / 2 ^ 50) (2 ^ 100)"
    unfolding thr using throughput_start[OF assms] .
  obtain k where "1000 * 2 ^ 50 < (5 / 4 :: real) ^ k"
    using real_arch_pow[of "5 / 4" "1000 * 2 ^ 50"] by auto
  then have "1000 * 2 ^ 50 \<le> (5 / 4 :: real) ^ n" if "k \<le> n" for n
    using power_increasing[OF that, of "5 / 4 :: real"] by linarith
  then have k: "1000 \<le> (5 / 4) ^ n * (1 / 2 ^ 50 :: real)" if "k \<le> n" for n
    using that by simp
  have "\<exists>m. (let wo' = (optimise_round now w ^^ n) (UpdateMetrics t w blockCount latency usage conflicts wo)
      in gget wo' w = Some m \<and> mt_AverageLatency m \<le> 100000000 \<and> \<not> float_less (mt_Throughput m) (Finite 1000 0) \<and>
         \<not> float_less usageTarget (mt_ResourceUsage m) \<and> mt_ConflictCount m \<le> 10 \<and>
         OptimizeWave w wo' = Some \<lparr>op_WaveNumber = w, op_SuggestedLatency = 0, op_SuggestedThroughput = Finite 0 0,
           op_SuggestedResourceUsage = Finite 0 0, op_SuggestedConflictResolution = False\<rparr>)"
    if n: "max (Suc k) (nat (mt_AverageLatency m)) \<le> n" for n
  proof -
    obtain i where i: "n = Suc i"
      using n by (cases n) simp_all
    let ?m = "(better_metrics now ^^ n) m"
    have "mt_AverageLatency ?m \<le> 100000000" "\<not> float_less (mt_Throughput ?m) (Finite 1000 0)"
      "\<not> float_less usageTarget (mt_ResourceUsage ?m)" "mt_ConflictCount ?m \<le> 10"
      using latency_rounds[where m = m and n = n and now = now] throughput_rounds[OF start order_refl k, of n] better_stays[where n = i and m = m and now = now] n
      unfolding i rounds_throughput by linarith+
    then show ?thesis
      using rounds_metrics[OF m, where n = n and now = now] by (simp add: OptimizeWave_def Let_def del: float_less.simps)
  qed
  then show ?thesis
    by blast
qed

section \<open>Witnesses\<close>

definition two_waves :: wave_optimizer where
  "two_waves = UpdateMetrics 5 2 20 0 (Finite 0 0) 0 (UpdateMetrics 3 1 10 0 (Finite 0 0) 0 NewWaveOptimizer)"

theorem latest_metrics_witness: "\<exists>m. GetLatestMetrics [1, 2] two_waves = Some m \<and> mt_WaveNumber m = 2 \<and> mt_BlockCount m = 20"
proof -
  have "optimizer_reach two_waves"
    unfolding two_waves_def by (intro optimizer_reach.intros) (simp_all add: zero_time_def)
  moreover have "range_order [1, 2] two_waves"
    by (auto simp: range_order_def two_waves_def UpdateMetrics_def NewWaveOptimizer_def gkeys_iff Let_def split: if_splits)
  ultimately have "case GetLatestMetrics [1, 2] two_waves of None \<Rightarrow> two_waves = []
    | Some m \<Rightarrow> gget two_waves (mt_WaveNumber m) = Some m \<and> (\<forall>w' m'. gget two_waves w' = Some m' \<longrightarrow> mt_LastUpdate m' \<le> mt_LastUpdate m)"
    by (rule latest_metrics)
  moreover have "\<exists>m. GetLatestMetrics [1, 2] two_waves = Some m \<and> mt_WaveNumber m = 2 \<and> mt_BlockCount m = 20"
    by (simp add: two_waves_def GetLatestMetrics_def UpdateMetrics_def NewWaveOptimizer_def new_metrics_def later_def zero_time_def Let_def
        range_items_def map_filter_simps)
  ultimately show ?thesis
    by auto
qed

theorem optimisation_converges_witness:
  "\<exists>N. \<forall>n \<ge> N. \<exists>m. (let wo' = (optimise_round 9 1 ^^ n) (UpdateMetrics 5 1 10 500000000 (Finite 1 0) 12 NewWaveOptimizer)
      in gget wo' 1 = Some m \<and> mt_AverageLatency m \<le> 100000000 \<and> \<not> float_less (mt_Throughput m) (Finite 1000 0) \<and>
         \<not> float_less usageTarget (mt_ResourceUsage m) \<and> mt_ConflictCount m \<le> 10 \<and>
         OptimizeWave 1 wo' = Some \<lparr>op_WaveNumber = 1, op_SuggestedLatency = 0, op_SuggestedThroughput = Finite 0 0,
           op_SuggestedResourceUsage = Finite 0 0, op_SuggestedConflictResolution = False\<rparr>)"
  by (rule optimisation_converges) simp_all

end
