(* ===== verification/Service_Lifecycle.thy ===== *)
theory Service_Lifecycle
  imports Go_Prelude "HOL-Library.Multiset"
begin

text \<open>
  Starting and stopping: the life cycles of \<open>WaveConsensus\<close> (\<open>internal/consensus/wave_consensus.go\<close>)
  and \<open>DAGSync\<close> (\<open>internal/dag/dag_sync.go\<close>), of the node that runs both
  (\<open>cmd/integrated-node/main.go\<close>), and the signal handling of \<open>cmd/wave/main.go\<close>.  The two
  services have the same fields for this and the same text but for one loop, so that they share a record;
  their goroutines are a multiset, each at the point where it waits or looks at the context.
\<close>

section \<open>A service\<close>

text \<open>\<open>Handler\<close> and \<open>DialLoop\<close> are before the look at \<open>ctx.Done()\<close> of their loops, \<open>Decoding\<close> and
  \<open>Dialling\<close> after it; \<open>WaitPeers\<close> is \<open>Start\<close> in \<open>waitForAllPeers\<close>.\<close>

datatype goroutine = AcceptLoop | HttpServe | DialLoop string | Dialling string | Handler nat | Decoding nat | WaitPeers | TickLoop

text \<open>A listener, HTTP server and ticker is nil, running (\<open>Some True\<close>) or stopped; \<open>srv_tick\<close> is a tick
  in the ticker's channel.  Closed connections, ticks and messages handled are recorded.\<close>

record run_service =
  srv_peers :: "string list"
  srv_cancelled :: bool
  srv_listener :: "bool option"
  srv_http :: "bool option"
  srv_ticker :: "bool option"
  srv_tick :: bool
  srv_connections :: "(string, nat) gomap"
  srv_closed :: "nat set"
  srv_gos :: "goroutine multiset"
  srv_ticks :: nat
  srv_handled :: nat

definition new_service :: "string list \<Rightarrow> run_service" where
  "new_service peers = \<lparr>srv_peers = peers, srv_cancelled = False, srv_listener = None, srv_http = None, srv_ticker = None, srv_tick = False,
     srv_connections = [], srv_closed = {}, srv_gos = {#}, srv_ticks = 0, srv_handled = 0\<rparr>"

definition spawn :: "goroutine \<Rightarrow> run_service \<Rightarrow> run_service" where
  "spawn g s = s\<lparr>srv_gos := add_mset g (srv_gos s)\<rparr>"

definition become :: "goroutine \<Rightarrow> goroutine multiset \<Rightarrow> run_service \<Rightarrow> run_service" where
  "become g M s = s\<lparr>srv_gos := srv_gos s - {#g#} + M\<rparr>"

definition startListener :: "bool \<Rightarrow> run_service \<Rightarrow> run_service option" where
  "startListener listen s = (if listen then Some (spawn AcceptLoop (s\<lparr>srv_listener := Some True\<rparr>)) else None)"

definition startHTTPServer :: "run_service \<Rightarrow> run_service" where
  "startHTTPServer s = spawn HttpServe (s\<lparr>srv_http := Some True\<rparr>)"

definition start_dialling :: "run_service \<Rightarrow> run_service" where
  "start_dialling s = fold (\<lambda>p. spawn (DialLoop p)) (srv_peers s) s"

definition start_ticking :: "run_service \<Rightarrow> run_service" where
  "start_ticking s = spawn TickLoop (s\<lparr>srv_ticker := Some True\<rparr>)"

text \<open>\<open>Start\<close> up to the wait for peers, which is a goroutine of the model.\<close>

definition service_Start :: "bool \<Rightarrow> run_service \<Rightarrow> string + run_service" where
  "service_Start listen s = (case startListener listen s of
     None \<Rightarrow> Inl ''failed to start listener''
   | Some s1 \<Rightarrow> let s2 = start_dialling (startHTTPServer s1)
                in Inr (if length (srv_peers s) > 0 then spawn WaitPeers s2 else start_ticking s2))"

definition service_Stop :: "run_service \<Rightarrow> run_service" where
  "service_Stop s = s\<lparr>srv_cancelled := True, srv_ticker := map_option (\<lambda>_. False) (srv_ticker s),
     srv_http := map_option (\<lambda>_. False) (srv_http s), srv_listener := map_option (\<lambda>_. False) (srv_listener s),
     srv_closed := srv_closed s \<union> snd ` set (srv_connections s)\<rparr>"

text \<open>The same operations of \<open>DAGSync\<close>, whose ticker is that of the rounds.\<close>

definition sync_startListener :: "bool \<Rightarrow> run_service \<Rightarrow> run_service option" where
  "sync_startListener listen ds = (if listen then Some (spawn AcceptLoop (ds\<lparr>srv_listener := Some True\<rparr>)) else None)"

definition sync_service_Start :: "bool \<Rightarrow> run_service \<Rightarrow> string + run_service" where
  "sync_service_Start listen ds = (case sync_startListener listen ds of
     None \<Rightarrow> Inl ''failed to start listener''
   | Some s1 \<Rightarrow> let s2 = start_dialling (startHTTPServer s1)
                in Inr (if length (srv_peers ds) > 0 then spawn WaitPeers s2 else start_ticking s2))"

definition sync_service_Stop :: "run_service \<Rightarrow> run_service" where
  "sync_service_Stop ds = ds\<lparr>srv_cancelled := True, srv_ticker := map_option (\<lambda>_. False) (srv_ticker ds),
     srv_http := map_option (\<lambda>_. False) (srv_http ds), srv_listener := map_option (\<lambda>_. False) (srv_listener ds),
     srv_closed := srv_closed ds \<union> snd ` set (srv_connections ds)\<rparr>"

lemma sync_service_same [simp]:
  "sync_service_Start = service_Start" "sync_service_Stop = service_Stop"
  by (auto simp: fun_eq_iff sync_service_Start_def service_Start_def sync_startListener_def startListener_def
      sync_service_Stop_def service_Stop_def)

text \<open>The steps of the goroutines.  \<open>chk\<close> says whether \<open>waitForAllPeers\<close> looks at the context: it does in
  \<open>WaveConsensus\<close> and does not in \<open>DAGSync\<close>.  A new connection has a number not used before.\<close>

definition used_conns :: "run_service \<Rightarrow> nat set" where
  "used_conns s = srv_closed s \<union> snd ` set (srv_connections s) \<union> {c. Handler c \<in># srv_gos s \<or> Decoding c \<in># srv_gos s}"

inductive service_step :: "bool \<Rightarrow> run_service \<Rightarrow> run_service \<Rightarrow> bool" for chk where
  st_accept: "AcceptLoop \<in># srv_gos s \<Longrightarrow> srv_listener s = Some True \<Longrightarrow> c \<notin> used_conns s \<Longrightarrow> service_step chk s (spawn (Handler c) s)"
| st_accept_error: "AcceptLoop \<in># srv_gos s \<Longrightarrow> service_step chk s (if srv_cancelled s then become AcceptLoop {#} s else s)"
| st_dial_look: "DialLoop p \<in># srv_gos s \<Longrightarrow> service_step chk s (become (DialLoop p) (if srv_cancelled s then {#} else {#Dialling p#}) s)"
| st_dial_ok: "Dialling p \<in># srv_gos s \<Longrightarrow> c \<notin> used_conns s \<Longrightarrow>
    service_step chk s (become (Dialling p) {#Handler c#} (s\<lparr>srv_connections := gput p c (srv_connections s)\<rparr>))"
| st_dial_fail: "Dialling p \<in># srv_gos s \<Longrightarrow> service_step chk s (become (Dialling p) {#DialLoop p#} s)"
| st_handler_look: "Handler c \<in># srv_gos s \<Longrightarrow> service_step chk s
    (if srv_cancelled s then become (Handler c) {#} (s\<lparr>srv_closed := insert c (srv_closed s)\<rparr>) else become (Handler c) {#Decoding c#} s)"
| st_message: "Decoding c \<in># srv_gos s \<Longrightarrow> c \<notin> srv_closed s \<Longrightarrow>
    service_step chk s (become (Decoding c) {#Handler c#} (s\<lparr>srv_handled := Suc (srv_handled s)\<rparr>))"
| st_decode_error: "Decoding c \<in># srv_gos s \<Longrightarrow> service_step chk s (become (Decoding c) {#} (s\<lparr>srv_closed := insert c (srv_closed s)\<rparr>))"
| st_tick: "srv_ticker s = Some True \<Longrightarrow> service_step chk s (s\<lparr>srv_tick := True\<rparr>)"
| st_ticked: "TickLoop \<in># srv_gos s \<Longrightarrow> srv_tick s \<Longrightarrow> service_step chk s (s\<lparr>srv_tick := False, srv_ticks := Suc (srv_ticks s)\<rparr>)"
| st_tick_done: "TickLoop \<in># srv_gos s \<Longrightarrow> srv_cancelled s \<Longrightarrow> service_step chk s (become TickLoop {#} s)"
| st_connected: "WaitPeers \<in># srv_gos s \<Longrightarrow> length (srv_peers s) \<le> glen (srv_connections s) \<Longrightarrow>
    service_step chk s (start_ticking (become WaitPeers {#} s))"
| st_wait_cancelled: "WaitPeers \<in># srv_gos s \<Longrightarrow> chk \<Longrightarrow> srv_cancelled s \<Longrightarrow> service_step chk s (start_ticking (become WaitPeers {#} s))"
| st_wait: "WaitPeers \<in># srv_gos s \<Longrightarrow> glen (srv_connections s) < length (srv_peers s) \<Longrightarrow> \<not> (chk \<and> srv_cancelled s) \<Longrightarrow> service_step chk s s"
| st_http_done: "HttpServe \<in># srv_gos s \<Longrightarrow> srv_http s = Some False \<Longrightarrow> service_step chk s (become HttpServe {#} s)"

text \<open>Runs of a started service up to the moment it is stopped.\<close>

definition service_run :: "bool \<Rightarrow> string list \<Rightarrow> run_service \<Rightarrow> bool" where
  "service_run chk peers s = (\<exists>s0. service_Start True (new_service peers) = Inr s0 \<and> (service_step chk)\<^sup>*\<^sup>* s0 s)"

section \<open>After the stop\<close>

text \<open>What is left to do for each goroutine once the context is cancelled.\<close>

fun go_weight :: "goroutine \<Rightarrow> nat" where
  "go_weight (Dialling p) = 2"
| "go_weight (Decoding c) = 2"
| "go_weight g = 1"

definition weight :: "run_service \<Rightarrow> nat" where
  "weight s = sum_mset (image_mset go_weight (srv_gos s)) + (if srv_tick s then 1 else 0)"

definition stopped :: "run_service \<Rightarrow> bool" where
  "stopped s = (srv_cancelled s \<and> srv_listener s \<noteq> Some True \<and> srv_ticker s \<noteq> Some True \<and> WaitPeers \<notin># srv_gos s)"

lemma become_fields [simp]:
  "srv_gos (become g M s) = srv_gos s - {#g#} + M" "srv_cancelled (become g M s) = srv_cancelled s" "srv_listener (become g M s) = srv_listener s"
  "srv_ticker (become g M s) = srv_ticker s" "srv_tick (become g M s) = srv_tick s" "srv_connections (become g M s) = srv_connections s"
  "srv_closed (become g M s) = srv_closed s" "srv_ticks (become g M s) = srv_ticks s" "srv_handled (become g M s) = srv_handled s"
  "srv_peers (become g M s) = srv_peers s"
  by (simp_all add: become_def)

lemma sum_become:
  fixes f :: "goroutine \<Rightarrow> nat"
  assumes "g \<in># M"
  shows "sum_mset (image_mset f (M - {#g#} + N)) + f g = sum_mset (image_mset f M) + sum_mset (image_mset f N)"
proof -
  obtain M' where "M = add_mset g M'"
    using multi_member_split[OF assms] by blast
  then show ?thesis
    by simp
qed

lemma stopped_become:
  assumes "stopped s" "g \<in># srv_gos s" "WaitPeers \<notin># M" "sum_mset (image_mset go_weight M) < go_weight g"
  shows "stopped (become g M s) \<and> weight (become g M s) < weight s"
  using sum_become[OF assms(2), of go_weight M] assms by (auto simp: stopped_def weight_def dest: in_diffD)

lemma stopped_upd [simp]:
  "stopped (s\<lparr>srv_closed := C\<rparr>) = stopped s" "stopped (s\<lparr>srv_connections := K\<rparr>) = stopped s" "stopped (s\<lparr>srv_handled := h\<rparr>) = stopped s"
  "weight (s\<lparr>srv_closed := C\<rparr>) = weight s" "weight (s\<lparr>srv_connections := K\<rparr>) = weight s" "weight (s\<lparr>srv_handled := h\<rparr>) = weight s"
  by (simp_all add: stopped_def weight_def)

lemma stopped_step:
  assumes "service_step chk s s'" "stopped s"
  shows "stopped s' \<and> weight s' < weight s"
  using assms
proof (induction rule: service_step.induct)
  case (st_accept_error s)
  then show ?case
    using stopped_become[of s AcceptLoop "{#}"] by (simp add: stopped_def)
next
  case (st_dial_look p s)
  then show ?case
    using stopped_become[of s "DialLoop p" "{#}"] by (simp add: stopped_def)
next
  case (st_dial_ok p s c)
  then show ?case
    using stopped_become[of "s\<lparr>srv_connections := gput p c (srv_connections s)\<rparr>" "Dialling p" "{#Handler c#}"] by simp
next
  case (st_dial_fail p s)
  then show ?case
    using stopped_become[of s "Dialling p" "{#DialLoop p#}"] by simp
next
  case (st_handler_look c s)
  then show ?case
    using stopped_become[of "s\<lparr>srv_closed := insert c (srv_closed s)\<rparr>" "Handler c" "{#}"] by (simp add: stopped_def)
next
  case (st_message c s)
  then show ?case
    using stopped_become[of "s\<lparr>srv_handled := Suc (srv_handled s)\<rparr>" "Decoding c" "{#Handler c#}"] by simp
next
  case (st_decode_error c s)
  then show ?case
    using stopped_become[of "s\<lparr>srv_closed := insert c (srv_closed s)\<rparr>" "Decoding c" "{#}"] by simp
next
  case (st_tick_done s)
  then show ?case
    using stopped_become[of s TickLoop "{#}"] by simp
next
  case (st_http_done s)
  then show ?case
    using stopped_become[of s HttpServe "{#}"] by simp
qed (auto simp: stopped_def weight_def)

lemma stopped_steps:
  assumes "(service_step chk ^^ n) s s'" "stopped s"
  shows "stopped s' \<and> weight s' + n \<le> weight s"
  using assms
proof (induction n arbitrary: s')
  case (Suc n)
  then obtain s1 where "(service_step chk ^^ n) s s1" "service_step chk s1 s'"
    by auto
  then show ?case
    using Suc.IH[of s1] Suc.prems(2) stopped_step[of chk s1 s'] by auto
qed simp

lemma go_weight_le: "sum_mset (image_mset go_weight M) \<le> 2 * size M"
proof (induction M)
  case (add g M)
  then show ?case
    by (cases g) auto
qed simp

section \<open>What is bounded and what is closed\<close>

text \<open>After the context is cancelled no handler goes back to decoding.\<close>

definition decoding :: "run_service \<Rightarrow> nat" where
  "decoding s = sum_mset (image_mset (\<lambda>g. if \<exists>c. g = Decoding c then 1 else 0) (srv_gos s))"

definition pending_ticks :: "run_service \<Rightarrow> nat" where
  "pending_ticks s = (if srv_tick s then 1 else 0)"

lemma decoding_become:
  "g \<in># srv_gos s \<Longrightarrow> decoding (become g M s) + (if \<exists>c. g = Decoding c then 1 else 0) =
     decoding s + sum_mset (image_mset (\<lambda>g. if \<exists>c. g = Decoding c then 1 else 0) M)"
  unfolding decoding_def become_fields by (rule sum_become)

lemma decoding_upd [simp]:
  "decoding (s\<lparr>srv_closed := C\<rparr>) = decoding s" "decoding (s\<lparr>srv_connections := K\<rparr>) = decoding s" "decoding (s\<lparr>srv_handled := h\<rparr>) = decoding s"
  by (simp_all add: decoding_def)

lemma decoding_le [simp]:
  assumes "g \<in># srv_gos s" "\<And>c. Decoding c \<notin># M"
  shows "decoding (become g M s) \<le> decoding s"
proof -
  have "image_mset (\<lambda>g. if \<exists>c. g = Decoding c then 1 else 0 :: nat) M = image_mset (\<lambda>_. 0) M"
    using assms(2) by (intro image_mset_cong) auto
  then show ?thesis
    using decoding_become[OF assms(1), of M] by simp
qed

lemma stopped_counts:
  assumes "service_step chk s s'" "stopped s"
  shows "srv_handled s' + decoding s' \<le> srv_handled s + decoding s \<and> srv_ticks s' + pending_ticks s' \<le> srv_ticks s + pending_ticks s"
  using assms
proof (induction rule: service_step.induct)
  case (st_message c s)
  then show ?case
    using decoding_become[of "Decoding c" "s\<lparr>srv_handled := Suc (srv_handled s)\<rparr>" "{#Handler c#}"] by (simp add: pending_ticks_def)
next
  case (st_decode_error c s)
  then show ?case
    using decoding_become[of "Decoding c" "s\<lparr>srv_closed := insert c (srv_closed s)\<rparr>" "{#}"] by (simp add: pending_ticks_def)
next
  case (st_ticked s)
  then show ?case
    by (simp add: pending_ticks_def decoding_def)
qed (use decoding_le[of _ "_\<lparr>srv_closed := _\<rparr>"] decoding_le[of _ "_\<lparr>srv_connections := _\<rparr>"] in \<open>simp_all add: stopped_def pending_ticks_def\<close>)

lemma counts_steps:
  assumes "(service_step chk ^^ n) s s'" "stopped s"
  shows "srv_handled s' + decoding s' \<le> srv_handled s + decoding s \<and> srv_ticks s' + pending_ticks s' \<le> srv_ticks s + pending_ticks s"
  using assms
proof (induction n arbitrary: s')
  case (Suc n)
  then obtain s1 where "(service_step chk ^^ n) s s1" "service_step chk s1 s'"
    by auto
  then show ?case
    using Suc.IH[of s1] Suc.prems(2) stopped_counts[of chk s1 s'] stopped_steps[of n chk s s1] by auto
qed simp

text \<open>Every connection to a peer is closed or has a goroutine that will close it.\<close>

definition conns_served :: "run_service \<Rightarrow> bool" where
  "conns_served s = (\<forall>c \<in> snd ` set (srv_connections s). c \<in> srv_closed s \<or> Handler c \<in># srv_gos s \<or> Decoding c \<in># srv_gos s)"

lemma remove_other: "x \<noteq> g \<Longrightarrow> x \<in># M - {#g#} \<longleftrightarrow> x \<in># M"
  by (simp add: in_diff_count)

lemma conns_served_become:
  assumes "conns_served s" "\<And>c. g = Handler c \<or> g = Decoding c \<Longrightarrow> c \<in> srv_closed s \<or> Handler c \<in># M \<or> Decoding c \<in># M"
  shows "conns_served (become g M s)"
  unfolding conns_served_def become_fields
proof
  fix c assume "c \<in> snd ` set (srv_connections s)"
  then have "c \<in> srv_closed s \<or> Handler c \<in># srv_gos s \<or> Decoding c \<in># srv_gos s"
    using assms(1) by (auto simp: conns_served_def)
  with assms(2)[of c] show "c \<in> srv_closed s \<or> Handler c \<in># srv_gos s - {#g#} + M \<or> Decoding c \<in># srv_gos s - {#g#} + M"
    by (cases "g = Handler c"; cases "g = Decoding c") (auto simp: remove_other)
qed

lemma conns_served_more:
  "conns_served s \<Longrightarrow> conns_served (s\<lparr>srv_closed := insert c (srv_closed s)\<rparr>)" "conns_served (s\<lparr>srv_handled := h\<rparr>) = conns_served s"
  "conns_served s \<Longrightarrow> conns_served (spawn g s)" "conns_served (s\<lparr>srv_ticker := t\<rparr>) = conns_served s"
  by (auto simp: conns_served_def spawn_def)

lemma conns_served_dialled:
  assumes "conns_served s"
  shows "conns_served (become (Dialling p) {#Handler c#} (s\<lparr>srv_connections := gput p c (srv_connections s)\<rparr>))"
proof -
  have "snd ` set (gput p c m) \<subseteq> insert c (snd ` set m)" for m
    unfolding gput_def by (induction m) (auto split: if_splits)
  from this[of "srv_connections s"] have "x = c \<or> x \<in> srv_closed s \<or> Handler x \<in># srv_gos s \<or> Decoding x \<in># srv_gos s"
    if "x \<in> snd ` set (gput p c (srv_connections s))" for x
    using assms that unfolding conns_served_def by blast
  then show ?thesis
    unfolding conns_served_def by (simp add: remove_other) blast
qed

lemma conns_served_step:
  assumes "service_step chk s s'" "conns_served s"
  shows "conns_served s'"
  using assms
proof (induction rule: service_step.induct)
  case (st_dial_ok p s c)
  then show ?case
    by (intro conns_served_dialled)
next
  case (st_tick s)
  then show ?case
    by (simp add: conns_served_def)
next
  case (st_ticked s)
  then show ?case
    by (simp add: conns_served_def)
qed (auto simp: start_ticking_def conns_served_more(2,4) intro!: conns_served_become conns_served_more(1,3))

text \<open>A server goroutine has a server.\<close>

definition http_served :: "run_service \<Rightarrow> bool" where
  "http_served s = (HttpServe \<in># srv_gos s \<longrightarrow> srv_http s \<noteq> None)"

lemma http_served_step: "service_step chk s s' \<Longrightarrow> http_served s \<Longrightarrow> http_served s'"
  by (induction rule: service_step.induct)
    (auto simp: http_served_def become_def spawn_def start_ticking_def dest: in_diffD split: if_splits)

lemma fold_spawn: "fold (\<lambda>p. spawn (DialLoop p)) ps s = s\<lparr>srv_gos := srv_gos s + image_mset DialLoop (mset ps)\<rparr>"
  by (induction ps arbitrary: s) (simp_all add: spawn_def)

lemma Start_ok:
  "service_Start True (new_service peers) = Inr s0 \<Longrightarrow> conns_served s0 \<and> http_served s0"
  by (auto simp: service_Start_def startListener_def startHTTPServer_def start_dialling_def start_ticking_def spawn_def new_service_def
      conns_served_def http_served_def fold_spawn Let_def split: if_splits)

lemma run_ok:
  assumes "service_run chk peers s"
  shows "conns_served s \<and> http_served s"
proof -
  obtain s0 where "service_Start True (new_service peers) = Inr s0" "(service_step chk)\<^sup>*\<^sup>* s0 s"
    using assms by (auto simp: service_run_def)
  from this(2) Start_ok[OF this(1)] show ?thesis
    by (induction rule: rtranclp_induct) (auto intro: conns_served_step http_served_step)
qed

lemma Stop_ok: "conns_served s \<Longrightarrow> conns_served (service_Stop s)" "http_served s \<Longrightarrow> http_served (service_Stop s)"
  "WaitPeers \<notin># srv_gos s \<Longrightarrow> stopped (service_Stop s)" "http_served s \<Longrightarrow> HttpServe \<in># srv_gos s \<Longrightarrow> srv_http (service_Stop s) = Some False"
  by (auto simp: conns_served_def http_served_def stopped_def service_Stop_def)

lemma steps_ok:
  assumes "(service_step chk ^^ n) s s'" "conns_served s" "http_served s"
  shows "conns_served s' \<and> http_served s'"
  using relpowp_imp_rtranclp[OF assms(1)] assms(2,3)
  by (induction rule: rtranclp_induct) (auto intro: conns_served_step http_served_step)

text \<open>Nothing starts the HTTP server again, and only finished services are stuck.\<close>

lemma http_kept: "service_step chk s s' \<Longrightarrow> srv_http s' = srv_http s"
  by (induction rule: service_step.induct) (auto simp: become_def spawn_def start_ticking_def)

lemma http_kept_steps: "(service_step chk ^^ n) s s' \<Longrightarrow> srv_http s' = srv_http s"
  by (induction n arbitrary: s') (auto dest: http_kept)

lemma stuck_empty:
  assumes "stopped s" "http_served s" "srv_http s \<noteq> Some True" "\<And>s'. \<not> service_step chk s s'"
  shows "srv_gos s = {#}"
proof (rule ccontr)
  assume "srv_gos s \<noteq> {#}"
  then obtain g where g: "g \<in># srv_gos s"
    by blast
  then have "\<exists>s'. service_step chk s s'"
    using assms(1-3) st_http_done[of s chk]
    by (cases g; cases "srv_http s") (auto simp: stopped_def http_served_def intro: service_step.intros)
  then show False
    using assms(4) by blast
qed

section \<open>The integrated node\<close>

text \<open>\<open>Start\<close> of the node waits in the \<open>Start\<close> of each service in turn.  The integration loops and the
  transaction processor are goroutines of their own; only the loops look at the context.\<close>

datatype start_phase = DagStarting | WaveStarting | NodeRunning | StartFailed string

datatype node_loop = TxProcessor | EvmTxLoop | BlockLoop | ConnectLoop | StatusLoop

record node_life =
  nl_phase :: start_phase
  nl_dag :: run_service
  nl_wave :: run_service
  nl_cancelled :: bool
  nl_evm :: "bool option"
  nl_loops :: "node_loop set"

definition node_Start :: "bool \<Rightarrow> string list \<Rightarrow> string list \<Rightarrow> node_life" where
  "node_Start listen dagPeers wavePeers =
     (let n = \<lparr>nl_phase = DagStarting, nl_dag = new_service dagPeers, nl_wave = new_service wavePeers, nl_cancelled = False,
               nl_evm = None, nl_loops = {}\<rparr>
      in case sync_service_Start listen (nl_dag n) of
           Inl e \<Rightarrow> n\<lparr>nl_phase := StartFailed (''failed to start DAG sync: '' @ e)\<rparr>
         | Inr d \<Rightarrow> n\<lparr>nl_dag := d\<rparr>)"

definition node_Start_wave :: "bool \<Rightarrow> node_life \<Rightarrow> node_life" where
  "node_Start_wave listen n = (case service_Start listen (nl_wave n) of
     Inl e \<Rightarrow> n\<lparr>nl_phase := StartFailed (''failed to start wave consensus: '' @ e)\<rparr>
   | Inr w \<Rightarrow> n\<lparr>nl_wave := w, nl_phase := WaveStarting\<rparr>)"

definition startEVMRPCServer :: "node_life \<Rightarrow> node_life" where
  "startEVMRPCServer n = n\<lparr>nl_evm := Some True\<rparr>"

definition node_Start_rest :: "node_life \<Rightarrow> node_life" where
  "node_Start_rest n = (startEVMRPCServer n)\<lparr>nl_loops := {TxProcessor, EvmTxLoop, BlockLoop, ConnectLoop, StatusLoop}, nl_phase := NodeRunning\<rparr>"

definition node_Stop :: "node_life \<Rightarrow> node_life" where
  "node_Stop n = n\<lparr>nl_cancelled := True, nl_evm := map_option (\<lambda>_. False) (nl_evm n), nl_wave := service_Stop (nl_wave n),
     nl_dag := sync_service_Stop (nl_dag n)\<rparr>"

inductive life_step :: "node_life \<Rightarrow> node_life \<Rightarrow> bool" where
  ls_dag: "service_step False (nl_dag n) d \<Longrightarrow> life_step n (n\<lparr>nl_dag := d\<rparr>)"
| ls_wave: "service_step True (nl_wave n) w \<Longrightarrow> life_step n (n\<lparr>nl_wave := w\<rparr>)"
| ls_start_wave: "nl_phase n = DagStarting \<Longrightarrow> WaitPeers \<notin># srv_gos (nl_dag n) \<Longrightarrow> life_step n (node_Start_wave listen n)"
| ls_start_rest: "nl_phase n = WaveStarting \<Longrightarrow> WaitPeers \<notin># srv_gos (nl_wave n) \<Longrightarrow> life_step n (node_Start_rest n)"
| ls_loop_done: "l \<in> nl_loops n \<Longrightarrow> l \<noteq> TxProcessor \<Longrightarrow> nl_cancelled n \<Longrightarrow> life_step n (n\<lparr>nl_loops := nl_loops n - {l}\<rparr>)"

definition life_run :: "string list \<Rightarrow> string list \<Rightarrow> node_life \<Rightarrow> bool" where
  "life_run dagPeers wavePeers n = life_step\<^sup>*\<^sup>* (node_Start True dagPeers wavePeers) n"

text \<open>Each service of a node runs as it would alone.\<close>

lemma no_new_wait: "service_step chk s s' \<Longrightarrow> WaitPeers \<notin># srv_gos s \<Longrightarrow> WaitPeers \<notin># srv_gos s'"
  by (induction rule: service_step.induct) (auto simp: spawn_def start_ticking_def dest: in_diffD)

lemma Start_True: "\<exists>s0. service_Start True s = Inr s0"
  by (simp add: service_Start_def startListener_def Let_def)

definition life_inv :: "string list \<Rightarrow> string list \<Rightarrow> node_life \<Rightarrow> bool" where
  "life_inv dagPeers wavePeers n = (service_run False dagPeers (nl_dag n) \<and>
     (case nl_phase n of
        DagStarting \<Rightarrow> nl_wave n = new_service wavePeers
      | WaveStarting \<Rightarrow> WaitPeers \<notin># srv_gos (nl_dag n) \<and> service_run True wavePeers (nl_wave n)
      | NodeRunning \<Rightarrow> WaitPeers \<notin># srv_gos (nl_dag n) \<and> WaitPeers \<notin># srv_gos (nl_wave n) \<and> service_run True wavePeers (nl_wave n) \<and>
          TxProcessor \<in> nl_loops n
      | StartFailed e \<Rightarrow> nl_wave n = new_service wavePeers))"

lemma service_run_step: "service_run chk peers s \<Longrightarrow> service_step chk s s' \<Longrightarrow> service_run chk peers s'"
  unfolding service_run_def by (meson rtranclp.rtrancl_into_rtrancl)

lemma new_service_stuck: "\<not> service_step chk (new_service peers) s'"
  by (auto elim!: service_step.cases simp: new_service_def)

lemma life_step_inv:
  assumes "life_step n n'" "life_inv dagPeers wavePeers n"
  shows "life_inv dagPeers wavePeers n'"
  using assms
proof (induction rule: life_step.induct)
  case (ls_dag n d)
  then show ?case
    using service_run_step no_new_wait by (auto simp: life_inv_def split: start_phase.splits)
next
  case (ls_wave n w)
  then show ?case
    using service_run_step no_new_wait new_service_stuck by (auto simp: life_inv_def split: start_phase.splits)
next
  case (ls_start_wave n listen)
  then show ?case
    using Start_True[of "nl_wave n"]
    by (cases listen) (auto simp: life_inv_def node_Start_wave_def service_run_def service_Start_def startListener_def split: sum.splits)
qed (auto simp: life_inv_def node_Start_rest_def startEVMRPCServer_def split: start_phase.splits)

lemma life_run_inv:
  assumes "life_run dagPeers wavePeers n"
  shows "life_inv dagPeers wavePeers n"
proof -
  obtain d where "service_Start True (new_service dagPeers) = Inr d"
    using Start_True by blast
  then have "life_inv dagPeers wavePeers (node_Start True dagPeers wavePeers)"
    by (auto simp: life_inv_def node_Start_def service_run_def)
  with assms show ?thesis
    unfolding life_run_def by (induction rule: rtranclp_induct) (auto intro: life_step_inv)
qed

lemma stopped_node_steps:
  assumes "life_step\<^sup>*\<^sup>* (node_Stop n) n'" "nl_phase n = NodeRunning"
  shows "nl_phase n' = NodeRunning \<and> (\<exists>i. (service_step False ^^ i) (service_Stop (nl_dag n)) (nl_dag n')) \<and>
    (\<exists>j. (service_step True ^^ j) (service_Stop (nl_wave n)) (nl_wave n')) \<and> (TxProcessor \<in> nl_loops n' \<longleftrightarrow> TxProcessor \<in> nl_loops n)"
  using assms(1)
proof (induction rule: rtranclp_induct)
  case base
  have "(service_step b ^^ 0) s s" for b s
    by simp
  then show ?case
    using assms(2) by (auto simp: node_Stop_def simp del: relpowp.simps)
next
  case (step m m')
  from step(2) step(3) show ?case
    by (cases rule: life_step.cases) (auto intro: relpowp_Suc_I simp del: relpowp.simps)
qed

section \<open>Signals\<close>

text \<open>\<open>cmd/wave/main.go\<close>: two goroutines receive from the channel of signals, which holds one; the one
  that reports the status just ends when it gets one.  \<open>mn_taken\<close> counts the signals taken.\<close>

record main_state =
  mn_service :: run_service
  mn_pending :: bool
  mn_status :: bool
  mn_exited :: bool
  mn_taken :: nat

definition main_start :: "run_service \<Rightarrow> main_state" where
  "main_start s = \<lparr>mn_service = s, mn_pending = False, mn_status = True, mn_exited = False, mn_taken = 0\<rparr>"

inductive main_step :: "main_state \<Rightarrow> main_state \<Rightarrow> bool" where
  mn_signal: "\<not> mn_exited m \<Longrightarrow> main_step m (m\<lparr>mn_pending := True\<rparr>)"
| mn_shutdown: "mn_pending m \<Longrightarrow> \<not> mn_exited m \<Longrightarrow>
    main_step m (m\<lparr>mn_pending := False, mn_taken := Suc (mn_taken m), mn_service := service_Stop (mn_service m), mn_exited := True\<rparr>)"
| mn_report: "mn_pending m \<Longrightarrow> \<not> mn_exited m \<Longrightarrow> mn_status m \<Longrightarrow>
    main_step m (m\<lparr>mn_pending := False, mn_taken := Suc (mn_taken m), mn_status := False\<rparr>)"
| mn_work: "\<not> mn_exited m \<Longrightarrow> service_step True (mn_service m) s \<Longrightarrow> main_step m (m\<lparr>mn_service := s\<rparr>)"

lemma main_inv:
  assumes "main_step\<^sup>*\<^sup>* (main_start s) m"
  shows "mn_taken m = (if mn_status m then 0 else 1) + (if mn_exited m then 1 else 0) \<and> (mn_exited m \<longrightarrow> srv_cancelled (mn_service m))"
  using assms
proof (induction rule: rtranclp_induct)
  case (step m m')
  from step(2) step(3) show ?case
    by (cases rule: main_step.cases) (auto simp: service_Stop_def split: if_splits)
qed (simp add: main_start_def)

section \<open>Properties\<close>


text \<open>\<open>waitForAllPeers\<close> of the wave consensus gives up when the service is stopped; that of the DAG
  synchronisation does not look at the context.  Stopped while it waits for peers nobody is
  connecting to, its \<open>Start\<close> never returns, whatever happens afterwards.\<close>

theorem sync_stop_while_waiting:
  assumes "WaitPeers \<in># srv_gos s" "glen (srv_connections s) < length (srv_peers s)" "\<And>p. Dialling p \<notin># srv_gos s"
    and "(service_step False ^^ n) (sync_service_Stop s) s'"
  shows "WaitPeers \<in># srv_gos s' \<and> (\<exists>t. service_step True (service_Stop s) t \<and> count (srv_gos t) WaitPeers < count (srv_gos s) WaitPeers)"
proof
  let ?P = "\<lambda>s. srv_cancelled s \<and> WaitPeers \<in># srv_gos s \<and> glen (srv_connections s) < length (srv_peers s) \<and> (\<forall>p. Dialling p \<notin># srv_gos s)"
  have "?P u'" if "service_step False u u'" "?P u" for u u'
    using that by (induction rule: service_step.induct) (auto simp: remove_other spawn_def dest: in_diffD)
  then have "?P s'" if "(service_step False ^^ n) u s'" "?P u" for u
    using that by (induction n arbitrary: s') auto
  moreover have "?P (service_Stop s)"
    using assms(1-3) by (simp add: service_Stop_def)
  ultimately show "WaitPeers \<in># srv_gos s'"
    using assms(4) unfolding sync_service_same by blast
  have "service_step True (service_Stop s) (start_ticking (become WaitPeers {#} (service_Stop s)))"
    by (rule st_wait_cancelled) (use assms(1) in \<open>simp_all add: service_Stop_def\<close>)
  moreover have "count (srv_gos (start_ticking (become WaitPeers {#} (service_Stop s)))) WaitPeers < count (srv_gos s) WaitPeers"
    using assms(1) by (simp add: start_ticking_def spawn_def service_Stop_def)
  ultimately show "\<exists>t. service_step True (service_Stop s) t \<and> count (srv_gos t) WaitPeers < count (srv_gos s) WaitPeers"
    by blast
qed


text \<open>Of the signals that \<open>main\<close> of the wave node takes from the channel at most one is lost: the
  first may end the status report and leave the node running; with the second the service is
  stopped and the process exits.\<close>

theorem signals_stop_main:
  assumes "main_step\<^sup>*\<^sup>* (main_start s) m"
  shows "mn_taken m \<le> 2 \<and> (mn_taken m = 2 \<longrightarrow> mn_exited m \<and> srv_cancelled (mn_service m)) \<and>
    (\<exists>m'. main_step\<^sup>*\<^sup>* (main_start s) m' \<and> mn_taken m' = 1 \<and> \<not> mn_pending m' \<and> \<not> mn_exited m' \<and> mn_service m' = s)"
proof (intro conjI)
  show "mn_taken m \<le> 2" "mn_taken m = 2 \<longrightarrow> mn_exited m \<and> srv_cancelled (mn_service m)"
    using main_inv[OF assms] by (auto split: if_splits)
  have "main_step (main_start s) ((main_start s)\<lparr>mn_pending := True\<rparr>)"
    by (rule mn_signal) (simp add: main_start_def)
  moreover have "main_step ((main_start s)\<lparr>mn_pending := True\<rparr>) ((main_start s)\<lparr>mn_pending := False, mn_taken := 1, mn_status := False\<rparr>)"
    using mn_report[of "(main_start s)\<lparr>mn_pending := True\<rparr>"] by (simp add: main_start_def)
  ultimately have "main_step\<^sup>*\<^sup>* (main_start s) ((main_start s)\<lparr>mn_pending := False, mn_taken := 1, mn_status := False\<rparr>)"
    by (rule converse_rtranclp_into_rtranclp[OF _ r_into_rtranclp])
  then show "\<exists>m'. main_step\<^sup>*\<^sup>* (main_start s) m' \<and> mn_taken m' = 1 \<and> \<not> mn_pending m' \<and> \<not> mn_exited m' \<and> mn_service m' = s"
    by (intro exI conjI) (assumption, simp_all add: main_start_def)
qed

section \<open>Witnesses\<close>

text \<open>A service without peers, just started.\<close>

definition lone_service :: run_service where
  "lone_service = start_ticking (start_dialling (startHTTPServer (spawn AcceptLoop ((new_service [])\<lparr>srv_listener := Some True\<rparr>))))"

lemma lone_start: "service_Start True (new_service []) = Inr lone_service"
  by (simp add: service_Start_def startListener_def lone_service_def new_service_def Let_def)

lemma lone_gos: "srv_gos lone_service = {#AcceptLoop, HttpServe, TickLoop#}" "srv_handled lone_service = 0" "srv_ticks lone_service = 0"
  by (simp_all add: lone_service_def start_ticking_def start_dialling_def startHTTPServer_def spawn_def new_service_def)


definition waiting_service :: run_service where
  "waiting_service = spawn WaitPeers (new_service [''10.0.0.2:4001''])"

theorem sync_stop_while_waiting_witness:
  "\<exists>t. service_step True (service_Stop waiting_service) t \<and> count (srv_gos t) WaitPeers = 0"
proof -
  have "(service_step False ^^ 0) (sync_service_Stop waiting_service) (service_Stop waiting_service)"
    by simp
  from sync_stop_while_waiting[OF _ _ _ this] show ?thesis
    by (auto simp: waiting_service_def spawn_def new_service_def glen_def)
qed

definition lone_node :: node_life where
  "lone_node = node_Start_rest (node_Start_wave True (node_Start True [] []))"


theorem signals_stop_main_witness:
  "\<exists>m'. main_step\<^sup>*\<^sup>* (main_start lone_service) m' \<and> mn_taken m' = 1 \<and> \<not> mn_exited m'"
  using signals_stop_main[of lone_service "main_start lone_service"] by blast

end
