(* ===== verification/Dag_Sync.thy ===== *)
theory Dag_Sync
  imports Dag_Transport Hex
begin

text \<open>
  \<open>internal/dag/dag_sync.go\<close>: rounds on a ticker, a block per round that references the blocks
  of the round before, blocks received from peers, the pool of EVM transactions and the
  queries of the HTTP interface.  Sockets are a map of connections and a list of messages
  sent; clock readings are arguments.  New blocks and transactions are allocated at the next
  free reference of their heap.
\<close>

section \<open>Text\<close>

text \<open>\<open>%d\<close> of a number that is not negative, and \<open>strconv.Atoi\<close>.\<close>

definition digit_char :: "nat \<Rightarrow> char" where
  "digit_char d = char_of (48 + d)"

fun nat_text :: "nat \<Rightarrow> string" where
  "nat_text n = (if n < 10 then [digit_char n] else nat_text (n div 10) @ [digit_char (n mod 10)])"

declare nat_text.simps [simp del]

definition go_Atoi :: "string \<Rightarrow> int option" where
  "go_Atoi s =
     (let (neg, ds) = (case s of [] \<Rightarrow> (False, []) | c # cs \<Rightarrow>
            if c = CHR ''-'' then (True, cs) else if c = CHR ''+'' then (False, cs) else (False, s));
          v = (if neg then - int (digits_value ds) else int (digits_value ds))
      in if ds = [] \<or> \<not> list_all is_digit ds then None
         else if v < - (2 ^ 63) \<or> v \<ge> 2 ^ 63 then None else Some v)"

text \<open>The host of \<open>net.SplitHostPort\<close>: what is before the last colon, in brackets or without
  another colon; brackets are nowhere else.\<close>

definition split_host :: "string \<Rightarrow> string option" where
  "split_host hp =
     (let port = rev (takeWhile (\<lambda>c. c \<noteq> CHR '':'') (rev hp));
          front = butlast (take (length hp - length port) hp)
      in if CHR '':'' \<notin> set hp then None
         else if hd hp = CHR ''[''
         then let host = takeWhile (\<lambda>c. c \<noteq> CHR '']'') (tl hp)
              in if front = CHR ''['' # host @ '']'' \<and> CHR ''['' \<notin> set (tl hp) \<and> CHR '']'' \<notin> set port
                 then Some host else None
         else if CHR '':'' \<in> set front \<or> CHR ''['' \<in> set hp \<or> CHR '']'' \<in> set hp then None else Some front)"

section \<open>State\<close>

record dag_sync =
  sy_validatorID :: address
  sy_dag :: dag_store
  sy_currentRound :: u64
  sy_roundDuration :: int
  sy_listenAddr :: string
  sy_peers :: "string list"
  sy_httpAddr :: string
  sy_roundBlocks :: "(u64, bref list) gomap"
  sy_pendingTxs :: "tref list"
  sy_connections :: "(string, nat) gomap"

text \<open>A block as decoded from JSON may lack its header.\<close>

datatype wire_block = NoHeader | WithHeader block

record dag_message =
  dm_type :: string
  dm_block :: "wire_block option"
  dm_round :: u64
  dm_validator :: address
  dm_time :: int

definition NewDAGSync :: "address \<Rightarrow> string \<Rightarrow> string list \<Rightarrow> int \<Rightarrow> dag_sync" where
  "NewDAGSync v listenAddr peers dur =
     (let host = (case split_host listenAddr of None \<Rightarrow> ''0.0.0.0'' | Some h \<Rightarrow> if h \<noteq> [] then h else ''0.0.0.0'')
      in \<lparr>sy_validatorID = v, sy_dag = dag_NewDAG, sy_currentRound = 0, sy_roundDuration = dur, sy_listenAddr = listenAddr,
          sy_peers = peers, sy_httpAddr = host @ '':8080'', sy_roundBlocks = [], sy_pendingTxs = [], sy_connections = []\<rparr>)"

definition connectToPeer :: "string \<Rightarrow> nat option \<Rightarrow> dag_sync \<Rightarrow> dag_sync option" where
  "connectToPeer peerAddr dialled ds = (case dialled of
     None \<Rightarrow> None
   | Some conn \<Rightarrow> Some (ds\<lparr>sy_connections := gput peerAddr conn (sy_connections ds)\<rparr>))"

section \<open>The transaction pool\<close>

definition AddPendingTransaction :: "tref \<Rightarrow> dag_sync \<Rightarrow> dag_sync" where
  "AddPendingTransaction t ds = ds\<lparr>sy_pendingTxs := sy_pendingTxs ds @ [t]\<rparr>"

definition getPendingTransactions :: "dag_sync \<Rightarrow> tref list \<times> dag_sync" where
  "getPendingTransactions ds =
     (if length (sy_pendingTxs ds) = 0 then ([], ds) else (sy_pendingTxs ds, ds\<lparr>sy_pendingTxs := []\<rparr>))"

definition generated_tx :: "address \<Rightarrow> int \<Rightarrow> (nat \<Rightarrow> int) \<Rightarrow> nat \<Rightarrow> transaction" where
  "generated_tx v baseTime now i = \<lparr>tx_nonce = word_of_int (baseTime + int i), tx_from = v,
     tx_to = ''recipient_'' @ nat_text (i mod 1000), tx_value = word_of_nat (100 + i mod 10000), tx_gas_limit = 21000,
     tx_gas_price = 1000000000 + word_of_nat (i mod 1000000), tx_data = bytes_of (''tx_data_'' @ nat_text i),
     tx_signature = \<lparr>sig_validator = [], sig_bytes = [], sig_time = 0\<rparr>, tx_time = now i,
     tx_state = TransactionStatePending, tx_hash = None\<rparr>"

text \<open>The indices the two nested loops go through, batch by batch.\<close>

function batch_loop :: "nat \<Rightarrow> nat \<Rightarrow> nat list" where
  "batch_loop remaining batchStart =
     (if batchStart < remaining
      then let batchEnd = (if batchStart + 1000 > remaining then remaining else batchStart + 1000)
           in [batchStart..<batchEnd] @ batch_loop remaining (batchStart + 1000)
      else [])"
  by auto
termination
  by (relation "measure (\<lambda>(r, s). r - s)") auto

declare batch_loop.simps [simp del]

text \<open>The new transactions go to the free references from \<open>next\<close> on.\<close>

definition generateTransactions ::
  "int \<Rightarrow> (nat \<Rightarrow> int) \<Rightarrow> int \<Rightarrow> tref \<Rightarrow> tx_heap \<Rightarrow> dag_sync \<Rightarrow> tref list \<times> tx_heap \<times> dag_sync" where
  "generateTransactions baseTime now cnt next th ds =
     (let (pendingTxs, ds1) = getPendingTransactions ds;
          remaining = (if cnt - int (length pendingTxs) < 0 then 0 else nat (cnt - int (length pendingTxs)));
          new = map (generated_tx (sy_validatorID ds) baseTime now) (batch_loop remaining 0)
      in (pendingTxs @ [next..<next + length new],
          \<lambda>t. if next \<le> t \<and> t < next + length new then new ! (t - next) else th t, ds1))"

section \<open>Rounds\<close>

definition sync_estimateBlockSize :: "block \<Rightarrow> go_panic + u64" where
  "sync_estimateBlockSize b = (case blk_body b of
     None \<Rightarrow> Inl NilDereference
   | Some body \<Rightarrow> Inr (500 + word_of_nat (length (body_txs body)) * 250 + word_of_nat (length (hdr_references (blk_header b))) * 100))"

text \<open>The loop that adds the blocks of a round the DAG has and the list does not.\<close>

fun merge_round :: "header_digest \<Rightarrow> block_heap \<Rightarrow> u64 \<Rightarrow> bref list \<Rightarrow> bref list \<Rightarrow> bref list" where
  "merge_round H hp r known [] = known"
| "merge_round H hp r known (b # bs) =
     (if hdr_round (hd_of hp b) = r \<and> \<not> list_ex (\<lambda>x. block_ComputeHash H (hp x) = block_ComputeHash H (hp b)) known
      then merge_round H hp r (known @ [b]) bs else merge_round H hp r known bs)"

definition getPreviousRoundReferences ::
  "header_digest \<Rightarrow> block_heap \<Rightarrow> hash list \<Rightarrow> dag_sync \<Rightarrow> u64 \<Rightarrow> go_panic + reference list" where
  "getPreviousRoundReferences H hp ord ds prevRound =
     (if prevRound \<le> 0 then Inr []
      else case dag_GetRecentBlocks hp ord (sy_dag ds) 100 of
        Inl p \<Rightarrow> Inl p
      | Inr allDAGBlocks \<Rightarrow> Inr (map (\<lambda>b. \<lparr>ref_hash = block_ComputeHash H (hp b), ref_round = hdr_round (hd_of hp b),
             ref_wave = hdr_wave (hd_of hp b), ref_type = ReferenceTypeStandard\<rparr>)
           (merge_round H hp prevRound (slice_at (sy_roundBlocks ds) prevRound) allDAGBlocks)))"

definition advanceRound :: "dag_sync \<Rightarrow> u64 \<times> dag_sync" where
  "advanceRound ds = (sy_currentRound ds + 1, ds\<lparr>sy_currentRound := sy_currentRound ds + 1\<rparr>)"

definition track_block :: "u64 \<Rightarrow> bref \<Rightarrow> dag_sync \<Rightarrow> dag_sync" where
  "track_block r b ds = ds\<lparr>sy_roundBlocks := gappend r b (sy_roundBlocks ds)\<rparr>"

definition cleanup_rounds :: "u64 \<Rightarrow> dag_sync \<Rightarrow> dag_sync" where
  "cleanup_rounds r ds = ds\<lparr>sy_roundBlocks := gfilter (\<lambda>old _. \<not> old < r - 3) (sy_roundBlocks ds)\<rparr>"

text \<open>The messages written to the connections; \<open>ok\<close> says which writes succeed.\<close>

definition sync_broadcastBlock :: "string list \<Rightarrow> (string \<Rightarrow> bool) \<Rightarrow> int \<Rightarrow> block \<Rightarrow> dag_sync \<Rightarrow> (string \<times> dag_message) list" where
  "sync_broadcastBlock ord ok now b ds =
     (let msg = \<lparr>dm_type = ''block'', dm_block = Some (WithHeader b), dm_round = hdr_round (blk_header b),
            dm_validator = sy_validatorID ds, dm_time = now\<rparr>
      in map (\<lambda>(peerAddr, _). (peerAddr, msg)) (filter (\<lambda>(peerAddr, _). ok peerAddr) (range_items ord (sy_connections ds))))"

text \<open>The world a node runs in: the two heaps with their next free references, the node, the
  goroutines \<open>createRoundBlock\<close> that were started and have not run, and the messages sent.\<close>

record sync_world =
  sw_heap :: block_heap
  sw_next :: bref
  sw_txs :: tx_heap
  sw_next_tx :: tref
  sw_node :: dag_sync
  sw_tasks :: "u64 list"
  sw_sent :: "(string \<times> dag_message) list"

text \<open>The orders in which the maps are visited, the clock, and the results of writes.\<close>

record sync_env =
  sv_now :: int
  sv_times :: "nat \<Rightarrow> int"
  sv_recent :: "hash list"
  sv_cleanup :: "hash list"
  sv_peers :: "string list"
  sv_write :: "string \<Rightarrow> bool"

definition round_block :: "int \<Rightarrow> u64 \<Rightarrow> reference list \<Rightarrow> tref list \<Rightarrow> dag_sync \<Rightarrow> block" where
  "round_block now round refs txs ds =
     \<lparr>blk_header = \<lparr>hdr_version = 1, hdr_time = now, hdr_round = round, hdr_wave = 0,
        hdr_height = dag_GetHeight (sy_dag ds) + 1, hdr_parent = [], hdr_references = refs, hdr_state_root = [],
        hdr_validator = sy_validatorID ds, hdr_signature = \<lparr>sig_validator = [], sig_bytes = [], sig_time = 0\<rparr>\<rparr>,
      blk_body = Some \<lparr>body_txs = txs, body_receipts = [], body_events = []\<rparr>,
      blk_certificate = None, blk_original_hash = []\<rparr>"

definition createRoundBlock :: "header_digest \<Rightarrow> sync_env \<Rightarrow> u64 \<Rightarrow> sync_world \<Rightarrow> go_panic + sync_world" where
  "createRoundBlock H E round w =
     (case getPreviousRoundReferences H (sw_heap w) (sv_recent E) (sw_node w) (round - 1) of
        Inl p \<Rightarrow> Inl p
      | Inr refs \<Rightarrow>
          let (txs, th, ds1) = generateTransactions (sv_now E) (sv_times E) 40000 (sw_next_tx w) (sw_txs w) (sw_node w);
              blk = round_block (sv_now E) round refs txs ds1;
              b = sw_next w; hp = (sw_heap w)(b := blk);
              ds2 = ds1\<lparr>sy_dag := dag_AddBlock H hp (sv_cleanup E) b (sy_dag ds1)\<rparr>;
              ds3 = cleanup_rounds round (track_block round b ds2)
          in Inr (w\<lparr>sw_heap := hp, sw_next := b + 1, sw_txs := th, sw_next_tx := sw_next_tx w + (40000 - length (sy_pendingTxs (sw_node w))),
                    sw_node := ds3, sw_sent := sw_sent w @ sync_broadcastBlock (sv_peers E) (sv_write E) (sv_now E) blk ds3\<rparr>))"

section \<open>Received blocks\<close>

text \<open>\<open>null\<close> is the hash of a block without header.\<close>

definition handleReceivedBlock :: "header_digest \<Rightarrow> hash \<Rightarrow> hash list \<Rightarrow> wire_block option \<Rightarrow> sync_world \<Rightarrow> go_panic + sync_world" where
  "handleReceivedBlock H null ord wb w = (case wb of
     None \<Rightarrow> Inr w
   | Some NoHeader \<Rightarrow> (case dag_GetBlock (sy_dag (sw_node w)) null of Inr _ \<Rightarrow> Inr w | Inl _ \<Rightarrow> Inl NilDereference)
   | Some (WithHeader blk) \<Rightarrow> (case dag_GetBlock (sy_dag (sw_node w)) (block_ComputeHash H blk) of
       Inr _ \<Rightarrow> Inr w
     | Inl _ \<Rightarrow>
         let b = sw_next w; hp = (sw_heap w)(b := blk); ds = sw_node w;
             ds1 = ds\<lparr>sy_dag := dag_AddBlock H hp ord b (sy_dag ds)\<rparr>
         in Inr (w\<lparr>sw_heap := hp, sw_next := b + 1, sw_node := track_block (hdr_round (blk_header blk)) b ds1\<rparr>)))"

definition handleDAGMessage :: "header_digest \<Rightarrow> hash \<Rightarrow> hash list \<Rightarrow> dag_message \<Rightarrow> sync_world \<Rightarrow> go_panic + sync_world" where
  "handleDAGMessage H null ord msg w =
     (if dm_type msg = ''block'' then handleReceivedBlock H null ord (dm_block msg) w else Inr w)"

section \<open>Queries\<close>

record sync_status =
  ss_validator :: address
  ss_round :: u64
  ss_blocks :: nat
  ss_height :: u64
  ss_peers :: nat
  ss_per_round :: "(string, nat) gomap"

definition round_counts :: "u64 list \<Rightarrow> dag_sync \<Rightarrow> (string, nat) gomap" where
  "round_counts ord ds = fold (\<lambda>(r, bs) m. gput (''round_'' @ nat_text (unat r)) (length bs) m) (range_items ord (sy_roundBlocks ds)) []"

definition GetDAGStatus :: "u64 list \<Rightarrow> dag_sync \<Rightarrow> sync_status" where
  "GetDAGStatus ord ds = \<lparr>ss_validator = sy_validatorID ds, ss_round = sy_currentRound ds,
     ss_blocks = dag_GetBlockCount (sy_dag ds), ss_height = dag_GetHeight (sy_dag ds),
     ss_peers = glen (sy_connections ds), ss_per_round = round_counts ord ds\<rparr>"

definition sync_GetCurrentRound :: "dag_sync \<Rightarrow> u64" where
  "sync_GetCurrentRound ds = sy_currentRound ds"

definition GetBlocksForRound :: "dag_sync \<Rightarrow> u64 \<Rightarrow> bref list" where
  "GetBlocksForRound ds r = (case gget (sy_roundBlocks ds) r of None \<Rightarrow> [] | Some bs \<Rightarrow> bs)"

definition sync_GetRecentBlocks :: "block_heap \<Rightarrow> hash list \<Rightarrow> dag_sync \<Rightarrow> int \<Rightarrow> go_panic + bref list" where
  "sync_GetRecentBlocks hp ord ds cnt = dag_GetRecentBlocks hp ord (sy_dag ds) cnt"

text \<open>The \<open>count\<close> parameter of a request; \<open>None\<close> is the answer 400.\<close>

definition count_param :: "int \<Rightarrow> string \<Rightarrow> int option" where
  "count_param dflt s =
     (if s = [] then Some dflt else case go_Atoi s of None \<Rightarrow> None | Some n \<Rightarrow> if n \<le> 0 then None else Some n)"

record block_view =
  bv_hash :: string
  bv_validator :: address
  bv_time :: int
  bv_round :: u64
  bv_wave :: u64
  bv_height :: u64
  bv_tx_count :: nat

definition block_view_of :: "header_digest \<Rightarrow> block \<Rightarrow> go_panic + block_view" where
  "block_view_of H b = (case blk_body b of
     None \<Rightarrow> Inl NilDereference
   | Some body \<Rightarrow> Inr \<lparr>bv_hash = hex_of (block_ComputeHash H b), bv_validator = hdr_validator (blk_header b),
       bv_time = hdr_time (blk_header b), bv_round = hdr_round (blk_header b), bv_wave = hdr_wave (blk_header b),
       bv_height = hdr_height (blk_header b), bv_tx_count = length (body_txs body)\<rparr>)"

fun all_or_panic :: "(go_panic + 'a) list \<Rightarrow> go_panic + 'a list" where
  "all_or_panic [] = Inr []"
| "all_or_panic (x # xs) = (case x of Inl p \<Rightarrow> Inl p | Inr y \<Rightarrow> map_sum id (Cons y) (all_or_panic xs))"

definition handleGetBlocks :: "header_digest \<Rightarrow> block_heap \<Rightarrow> hash list \<Rightarrow> dag_sync \<Rightarrow> string \<Rightarrow> go_panic + block_view list option" where
  "handleGetBlocks H hp ord ds countStr = (case count_param 10 countStr of
     None \<Rightarrow> Inr None
   | Some n \<Rightarrow> (case sync_GetRecentBlocks hp ord ds n of
       Inl p \<Rightarrow> Inl p
     | Inr blocks \<Rightarrow> map_sum id Some (all_or_panic (map (\<lambda>b. block_view_of H (hp b)) blocks))))"

text \<open>The transactions of a list of blocks, with both early exits.\<close>

fun block_tx_loop :: "nat \<Rightarrow> (bref \<times> tref) list \<Rightarrow> bref \<Rightarrow> tref list \<Rightarrow> (bref \<times> tref) list" where
  "block_tx_loop n acc b [] = acc"
| "block_tx_loop n acc b (t # ts) =
     (let acc' = acc @ [(b, t)] in if length acc' \<ge> n then acc' else block_tx_loop n acc' b ts)"

fun tx_loop :: "block_heap \<Rightarrow> nat \<Rightarrow> (bref \<times> tref) list \<Rightarrow> bref list \<Rightarrow> go_panic + (bref \<times> tref) list" where
  "tx_loop hp n acc [] = Inr acc"
| "tx_loop hp n acc (b # bs) = (case blk_body (hp b) of
     None \<Rightarrow> Inl NilDereference
   | Some body \<Rightarrow>
       let acc' = block_tx_loop n acc b (body_txs body)
       in if length acc' \<ge> n then Inr acc' else tx_loop hp n acc' bs)"

definition sync_handleGetTransactions ::
  "block_heap \<Rightarrow> hash list \<Rightarrow> dag_sync \<Rightarrow> string \<Rightarrow> go_panic + (bref \<times> tref) list option" where
  "sync_handleGetTransactions hp ord ds countStr = (case count_param 100 countStr of
     None \<Rightarrow> Inr None
   | Some n \<Rightarrow> (case sync_GetRecentBlocks hp ord ds (if n > 40000 then 500 else 200) of
       Inl p \<Rightarrow> Inl p
     | Inr blocks \<Rightarrow> map_sum id Some (tx_loop hp (nat n) [] blocks)))"

record validator_view =
  vv_id :: address
  vv_blocks :: nat
  vv_last :: int
  vv_connected :: bool

definition count_block :: "block_heap \<Rightarrow> bref \<Rightarrow> (address, validator_view) gomap \<Rightarrow> (address, validator_view) gomap" where
  "count_block hp b m =
     (let v = hdr_validator (hd_of hp b); t = hdr_time (hd_of hp b)
      in case gget m v of
           Some x \<Rightarrow> gput v (x\<lparr>vv_blocks := vv_blocks x + 1, vv_last := t\<rparr>) m
         | None \<Rightarrow> gput v \<lparr>vv_id = v, vv_blocks = 1, vv_last = t, vv_connected = False\<rparr> m)"

definition handleGetValidators ::
  "block_heap \<Rightarrow> hash list \<Rightarrow> address list \<Rightarrow> int \<Rightarrow> dag_sync \<Rightarrow> go_panic + validator_view list" where
  "handleGetValidators hp ord ordv now ds = (case sync_GetRecentBlocks hp ord ds 1000 of
     Inl p \<Rightarrow> Inl p
   | Inr blocks \<Rightarrow>
       let own = sy_validatorID ds;
           m = fold (count_block hp) blocks [(own, \<lparr>vv_id = own, vv_blocks = 0, vv_last = now, vv_connected = True\<rparr>)];
           m = (if glen (sy_connections ds) = 0 then m
                else map (\<lambda>(v, x). (v, if v \<noteq> own then x\<lparr>vv_connected := True\<rparr> else x)) m)
       in Inr (range_vals ordv m))"

section \<open>Waiting for the peers\<close>

text \<open>\<open>waitForAllPeers\<close> looks at the connections once a second; \<open>obs i\<close> is the node at look \<open>i\<close>.
  With \<open>n\<close> looks left the result is the number of the look that ends the wait.\<close>

fun waitForAllPeers :: "nat \<Rightarrow> nat \<Rightarrow> (nat \<Rightarrow> dag_sync) \<Rightarrow> nat option" where
  "waitForAllPeers 0 i obs = None"
| "waitForAllPeers (Suc n) i obs =
     (if glen (sy_connections (obs i)) \<ge> length (sy_peers (obs i)) then Some i else waitForAllPeers n (Suc i) obs)"

section \<open>Runs\<close>

text \<open>A node starts with empty heaps and then interleaves: a tick of the ticker starts a goroutine
  for the new round; a started goroutine runs; a message arrives; a transaction is submitted;
  a peer is reached.  The order in which a map is visited is one of its keys.\<close>

definition sync_start :: "address \<Rightarrow> string \<Rightarrow> string list \<Rightarrow> int \<Rightarrow> block_heap \<Rightarrow> tx_heap \<Rightarrow> sync_world" where
  "sync_start v listenAddr peers dur hp th = \<lparr>sw_heap = hp, sw_next = 0, sw_txs = th, sw_next_tx = 0,
     sw_node = NewDAGSync v listenAddr peers dur, sw_tasks = [], sw_sent = []\<rparr>"

definition submit_tx :: "transaction \<Rightarrow> sync_world \<Rightarrow> sync_world" where
  "submit_tx tx w = w\<lparr>sw_txs := (sw_txs w)(sw_next_tx w := tx), sw_next_tx := sw_next_tx w + 1,
     sw_node := AddPendingTransaction (sw_next_tx w) (sw_node w)\<rparr>"

text \<open>The orders fit the map with the block of hash \<open>h\<close> added.\<close>

definition cleanup_order :: "hash list \<Rightarrow> hash \<Rightarrow> sync_world \<Rightarrow> bool" where
  "cleanup_order ord h w = range_order ord (gput h (sw_next w) (ds_blocks (sy_dag (sw_node w))))"

inductive sync_step :: "header_digest \<Rightarrow> hash \<Rightarrow> sync_world \<Rightarrow> sync_world \<Rightarrow> bool" for H null where
  sync_tick: "advanceRound (sw_node w) = (r, ds) \<Longrightarrow> sync_step H null w (w\<lparr>sw_node := ds, sw_tasks := sw_tasks w @ [r]\<rparr>)"
| sync_create: "sw_tasks w = xs @ r # ys \<Longrightarrow> createRoundBlock H E r (w\<lparr>sw_tasks := xs @ ys\<rparr>) = Inr w' \<Longrightarrow>
    cleanup_order (sv_cleanup E) (block_ComputeHash H (sw_heap w' (sw_next w))) w \<Longrightarrow> sync_step H null w w'"
| sync_receive: "handleDAGMessage H null ord msg w = Inr w' \<Longrightarrow>
    (\<And>b. dm_block msg = Some (WithHeader b) \<Longrightarrow> cleanup_order ord (block_ComputeHash H b) w) \<Longrightarrow> sync_step H null w w'"
| sync_submit: "sync_step H null w (submit_tx tx w)"
| sync_connect: "p \<in> set (sy_peers (sw_node w)) \<Longrightarrow> connectToPeer p (Some c) (sw_node w) = Some ds \<Longrightarrow>
    sync_step H null w (w\<lparr>sw_node := ds\<rparr>)"

inductive sync_reach :: "header_digest \<Rightarrow> hash \<Rightarrow> sync_world \<Rightarrow> bool" for H null where
  sync_begin: "sync_reach H null (sync_start v l ps dur hp th)"
| sync_more: "sync_reach H null w \<Longrightarrow> sync_step H null w w' \<Longrightarrow> sync_reach H null w'"

definition sync_inv :: "header_digest \<Rightarrow> sync_world \<Rightarrow> bool" where
  "sync_inv H w = (let ds = sw_node w in
     dag_inv H (sw_heap w) (sy_dag ds) \<and> dag_GetBlockCount (sy_dag ds) \<le> 5 \<and>
     (\<forall>h b. gget (ds_blocks (sy_dag ds)) h = Some b \<longrightarrow> b < sw_next w) \<and>
     gwf (sy_roundBlocks ds) \<and>
     (\<forall>r. \<forall>b \<in> set (slice_at (sy_roundBlocks ds) r). b < sw_next w \<and> hdr_round (hd_of (sw_heap w) b) = r) \<and>
     (\<forall>t \<in> set (sy_pendingTxs ds). t < sw_next_tx w) \<and>
     gwf (sy_connections ds) \<and> gkeys (sy_connections ds) \<subseteq> set (sy_peers ds))"

section \<open>Lemmas\<close>

lemma dag_inv_heap:
  assumes "\<forall>h b. gget (ds_blocks d) h = Some b \<longrightarrow> b < n"
  shows "dag_inv H (hp(n := blk)) d = dag_inv H hp d"
proof -
  have "hash_agrees H (hp(n := blk)) (ds_blocks d) = hash_agrees H hp (ds_blocks d)"
    using assms unfolding hash_agrees_def by (metis fun_upd_other less_irrefl)
  then show ?thesis
    by (simp add: dag_inv_def)
qed

text \<open>Storing a new block at the next free reference and tracking it.\<close>

lemma sync_inv_store:
  assumes inv: "sync_inv H w" and "cleanup_order ord (block_ComputeHash H blk) w"
    and w': "w' = w\<lparr>sw_heap := (sw_heap w)(sw_next w := blk), sw_next := sw_next w + 1,
      sw_node := track_block (hdr_round (blk_header blk)) (sw_next w)
        ((sw_node w)\<lparr>sy_dag := dag_AddBlock H ((sw_heap w)(sw_next w := blk)) ord (sw_next w) (sy_dag (sw_node w))\<rparr>)\<rparr>"
  shows "sync_inv H w'"
proof -
  let ?hp = "(sw_heap w)(sw_next w := blk)" and ?d = "sy_dag (sw_node w)"
  have below: "\<forall>h b. gget (ds_blocks ?d) h = Some b \<longrightarrow> b < sw_next w" and d: "dag_inv H (sw_heap w) ?d"
    using inv by (simp_all add: sync_inv_def Let_def)
  have d': "dag_inv H ?hp ?d"
    using d by (simp add: dag_inv_heap[OF below])
  have "dag_GetBlockCount (dag_AddBlock H ?hp ord (sw_next w) ?d) \<le> 5"
    using assms(2) by (subst dag_AddBlock_size[OF d']) (simp_all add: cleanup_order_def)
  moreover have "\<forall>h b. gget (ds_blocks (dag_AddBlock H ?hp ord (sw_next w) ?d)) h = Some b \<longrightarrow> b < sw_next w + 1"
    using below by (auto dest!: dag_AddBlock_get intro: less_SucI)
  ultimately show ?thesis
    using inv dag_AddBlock_inv[OF d'] unfolding w' sync_inv_def Let_def
    by (auto simp: track_block_def split: if_splits intro: less_SucI)
qed

lemma generateTransactions_node:
  "snd (snd (generateTransactions b n c k th ds)) = ds\<lparr>sy_pendingTxs := []\<rparr>"
  by (simp add: generateTransactions_def getPendingTransactions_def Let_def)

lemma sync_inv_cleanup: "sync_inv H w \<Longrightarrow> sync_inv H (w\<lparr>sw_node := cleanup_rounds r (sw_node w)\<rparr>)"
  by (auto simp: sync_inv_def Let_def cleanup_rounds_def slice_at_gfilter)

lemma round_block_fields [simp]:
  "hdr_round (blk_header (round_block now r refs txs ds)) = r"
  "hdr_references (blk_header (round_block now r refs txs ds)) = refs"
  "hdr_validator (blk_header (round_block now r refs txs ds)) = sy_validatorID ds"
  "hdr_height (blk_header (round_block now r refs txs ds)) = dag_GetHeight (sy_dag ds) + 1"
  "blk_body (round_block now r refs txs ds) = Some \<lparr>body_txs = txs, body_receipts = [], body_events = []\<rparr>"
  by (simp_all add: round_block_def)

text \<open>What \<open>createRoundBlock\<close> does when it does not panic.\<close>

lemma createRoundBlock_eq:
  assumes "createRoundBlock H E r w = Inr w'"
  shows "\<exists>refs. getPreviousRoundReferences H (sw_heap w) (sv_recent E) (sw_node w) (r - 1) = Inr refs \<and>
    sw_heap w' = (sw_heap w)(sw_next w := round_block (sv_now E) r refs
       (fst (generateTransactions (sv_now E) (sv_times E) 40000 (sw_next_tx w) (sw_txs w) (sw_node w))) (sw_node w))"
    and "sw_next w' = sw_next w + 1"
    "sw_next_tx w' = sw_next_tx w + (40000 - length (sy_pendingTxs (sw_node w)))"
    "sw_txs w' = fst (snd (generateTransactions (sv_now E) (sv_times E) 40000 (sw_next_tx w) (sw_txs w) (sw_node w)))"
    "sw_node w' = cleanup_rounds r (track_block r (sw_next w) ((sw_node w)\<lparr>sy_pendingTxs := [],
       sy_dag := dag_AddBlock H (sw_heap w') (sv_cleanup E) (sw_next w) (sy_dag (sw_node w))\<rparr>))"
  using assms generateTransactions_node[of "sv_now E" "sv_times E" 40000 "sw_next_tx w" "sw_txs w" "sw_node w"]
  by (auto simp: createRoundBlock_def Let_def case_prod_beta round_block_def split: sum.splits)

lemma sync_inv_create:
  assumes "sync_inv H w" "createRoundBlock H E r w = Inr w'"
    and "cleanup_order (sv_cleanup E) (block_ComputeHash H (sw_heap w' (sw_next w))) w"
  shows "sync_inv H w'"
proof -
  note eqs = createRoundBlock_eq(2,3,5)[OF assms(2)]
  obtain refs txs where "sw_heap w' = (sw_heap w)(sw_next w := round_block (sv_now E) r refs txs (sw_node w))"
    using createRoundBlock_eq(1)[OF assms(2)] by blast
  then obtain blk where blk: "hdr_round (blk_header blk) = r" and heap: "sw_heap w' = (sw_heap w)(sw_next w := blk)"
    using round_block_fields(1) by blast
  let ?w0 = "w\<lparr>sw_node := (sw_node w)\<lparr>sy_pendingTxs := []\<rparr>\<rparr>"
  let ?w1 = "?w0\<lparr>sw_heap := (sw_heap w)(sw_next w := blk), sw_next := sw_next w + 1,
      sw_node := track_block (hdr_round (blk_header blk)) (sw_next w) ((sw_node ?w0)\<lparr>sy_dag :=
        dag_AddBlock H ((sw_heap w)(sw_next w := blk)) (sv_cleanup E) (sw_next w) (sy_dag (sw_node w))\<rparr>)\<rparr>"
  have "sync_inv H ?w0"
    using assms(1) by (simp add: sync_inv_def Let_def)
  then have "sync_inv H ?w1"
    by (rule sync_inv_store[where ord = "sv_cleanup E" and blk = blk]) (use assms(3) heap in \<open>simp_all add: cleanup_order_def\<close>)
  from sync_inv_cleanup[OF this, of r] show ?thesis
    by (simp add: sync_inv_def Let_def eqs heap blk track_block_def cleanup_rounds_def)
qed

lemma sync_inv_receive:
  assumes "sync_inv H w" "handleDAGMessage H null ord msg w = Inr w'"
    and "\<And>b. dm_block msg = Some (WithHeader b) \<Longrightarrow> cleanup_order ord (block_ComputeHash H b) w"
  shows "sync_inv H w'"
proof (cases "w' = w")
  case False
  then obtain blk where blk: "dm_block msg = Some (WithHeader blk)" and
    w': "w' = w\<lparr>sw_heap := (sw_heap w)(sw_next w := blk), sw_next := sw_next w + 1,
      sw_node := track_block (hdr_round (blk_header blk)) (sw_next w)
        ((sw_node w)\<lparr>sy_dag := dag_AddBlock H ((sw_heap w)(sw_next w := blk)) ord (sw_next w) (sy_dag (sw_node w))\<rparr>)\<rparr>"
    using assms(2) by (auto simp: handleDAGMessage_def handleReceivedBlock_def Let_def
        split: if_splits option.splits wire_block.splits sum.splits)
  show ?thesis
    by (rule sync_inv_store[OF assms(1) assms(3)[OF blk] w'])
qed (simp add: assms)

lemma sync_step_inv: "sync_step H null w w' \<Longrightarrow> sync_inv H w \<Longrightarrow> sync_inv H w'"
proof (induction rule: sync_step.induct)
  case (sync_tick w r ds)
  then show ?case
    by (auto simp: advanceRound_def sync_inv_def Let_def)
next
  case (sync_create w xs r ys E w')
  then have "sync_inv H (w\<lparr>sw_tasks := xs @ ys\<rparr>)"
    by (simp add: sync_inv_def Let_def)
  from sync_inv_create[OF this sync_create(2)] sync_create(3) show ?case
    by (simp add: cleanup_order_def)
next
  case (sync_submit w tx)
  then show ?case
    by (auto simp: submit_tx_def AddPendingTransaction_def sync_inv_def Let_def)
next
  case (sync_connect p w c ds)
  then show ?case
    by (auto simp: connectToPeer_def sync_inv_def Let_def)
qed (auto intro: sync_inv_receive)

lemma sync_reach_inv: "sync_reach H null w \<Longrightarrow> sync_inv H w"
proof (induction rule: sync_reach.induct)
  case (sync_begin v l ps dur hp th)
  then show ?case
    by (simp add: sync_start_def NewDAGSync_def sync_inv_def Let_def dag_inv_def dag_NewDAG_def hash_agrees_def dag_GetBlockCount_def)
qed (rule sync_step_inv)

lemma merge_round_set: "set (merge_round H hp r known bs) \<subseteq> set known \<union> {b \<in> set bs. hdr_round (hd_of hp b) = r}"
  by (induction H hp r known bs rule: merge_round.induct) auto

lemma merge_round_hashes:
  "(\<lambda>b. block_ComputeHash H (hp b)) ` set (merge_round H hp r known bs) =
     (\<lambda>b. block_ComputeHash H (hp b)) ` (set known \<union> {b \<in> set bs. hdr_round (hd_of hp b) = r})"
proof (induction bs arbitrary: known)
  case (Cons b bs)
  let ?f = "\<lambda>b. block_ComputeHash H (hp b)"
  show ?case
  proof (cases "hdr_round (hd_of hp b) = r")
    case True
    then have all: "{x \<in> set (b # bs). hdr_round (hd_of hp x) = r} = insert b {x \<in> set bs. hdr_round (hd_of hp x) = r}"
      by auto
    show ?thesis
    proof (cases "list_ex (\<lambda>x. ?f x = ?f b) known")
      case True
      then have "?f b \<in> ?f ` set known"
        by (auto simp: list_ex_iff intro: rev_image_eqI)
      with True show ?thesis
        unfolding all by (simp add: Cons.IH image_Un insert_absorb)
    next
      case False
      with \<open>hdr_round (hd_of hp b) = r\<close> show ?thesis
        unfolding all by (simp add: Cons.IH image_Un)
    qed
  next
    case False
    then have "{x \<in> set (b # bs). hdr_round (hd_of hp x) = r} = {x \<in> set bs. hdr_round (hd_of hp x) = r}"
      by auto
    with False show ?thesis
      by (simp only: Cons.IH merge_round.simps simp_thms if_False)
  qed
qed simp

lemma recent_hundred:
  assumes "gwf (ds_blocks d)" "range_order ord (ds_blocks d)" "dag_GetBlockCount d \<le> 5"
  shows "\<exists>bs. dag_GetRecentBlocks hp ord d 100 = Inr bs \<and> set bs = {b. \<exists>h. gget (ds_blocks d) h = Some b}"
proof -
  have "length (range_vals ord (ds_blocks d)) \<le> 5"
    using assms by (simp add: length_range_vals dag_GetBlockCount_def)
  moreover have "set (range_vals ord (ds_blocks d)) = {b. \<exists>h. gget (ds_blocks d) h = Some b}"
    using assms by (force simp: set_range_vals range_order_def gkeys_iff)
  ultimately show ?thesis
    by (auto simp: dag_GetRecentBlocks_def Let_def go_prefix_def)
qed

lemma batch_loop_eq: "batch_loop n s = [s..<n]"
proof (induction n s rule: batch_loop.induct)
  case (1 n s)
  show ?case
  proof (cases "s + 1000 < n")
    case True
    then have "[s..<n] = [s..<s + 1000] @ [s + 1000..<n]"
      using upt_add_eq_append[of s "s + 1000" "n - (s + 1000)"] by simp
    with True 1 show ?thesis
      by (subst batch_loop.simps) (simp add: Let_def)
  next
    case False
    with 1 show ?thesis
      by (subst batch_loop.simps) (auto simp: Let_def)
  qed
qed

lemma generateTransactions_refs:
  "fst (generateTransactions baseTime now (int c) next th ds) =
     sy_pendingTxs ds @ [next..<next + (c - length (sy_pendingTxs ds))]"
  "t < next \<Longrightarrow> fst (snd (generateTransactions baseTime now (int c) next th ds)) t = th t"
  "i < c - length (sy_pendingTxs ds) \<Longrightarrow>
     fst (snd (generateTransactions baseTime now (int c) next th ds)) (next + i) = generated_tx (sy_validatorID ds) baseTime now i"
  by (auto simp: generateTransactions_def getPendingTransactions_def Let_def batch_loop_eq nat_diff_distrib')

section \<open>Properties\<close>

text \<open>The blocks of a round a node knows: tracked, or in its DAG.\<close>

definition known_in_round :: "sync_world \<Rightarrow> u64 \<Rightarrow> bref set" where
  "known_in_round w r = {b. (b \<in> set (GetBlocksForRound (sw_node w) r) \<or> (\<exists>h. dag_GetBlock (sy_dag (sw_node w)) h = Inr b)) \<and>
     hdr_round (hd_of (sw_heap w) b) = r}"

lemma dag_GetBlock_Inr: "dag_GetBlock d h = Inr b \<longleftrightarrow> gget (ds_blocks d) h = Some b"
  by (simp add: dag_GetBlock_def split: option.split)

lemma GetBlocksForRound_slice: "GetBlocksForRound ds r = slice_at (sy_roundBlocks ds) r"
  by (simp add: GetBlocksForRound_def slice_at_def)

lemma references_exact:
  assumes "sync_inv H w" "range_order ord (ds_blocks (sy_dag (sw_node w)))" "prev \<noteq> 0"
  shows "\<exists>refs. getPreviousRoundReferences H (sw_heap w) ord (sw_node w) prev = Inr refs \<and>
    ref_hash ` set refs = (\<lambda>b. block_ComputeHash H (sw_heap w b)) ` known_in_round w prev \<and> (\<forall>x \<in> set refs. ref_round x = prev)"
proof -
  let ?ds = "sw_node w" and ?hp = "sw_heap w"
  from assms obtain bs where bs: "dag_GetRecentBlocks ?hp ord (sy_dag ?ds) 100 = Inr bs"
      "set bs = {b. \<exists>h. gget (ds_blocks (sy_dag ?ds)) h = Some b}"
    using recent_hundred[of "sy_dag ?ds" ord ?hp] by (auto simp: sync_inv_def dag_inv_def Let_def)
  have tracked: "\<forall>b \<in> set (slice_at (sy_roundBlocks ?ds) prev). hdr_round (hd_of ?hp b) = prev"
    using assms(1) by (simp add: sync_inv_def Let_def)
  then have known: "known_in_round w prev = set (slice_at (sy_roundBlocks ?ds) prev) \<union> {b \<in> set bs. hdr_round (hd_of ?hp b) = prev}"
    unfolding known_in_round_def GetBlocksForRound_slice dag_GetBlock_Inr bs(2) by blast
  have "\<forall>b \<in> set (merge_round H ?hp prev (slice_at (sy_roundBlocks ?ds) prev) bs). hdr_round (hd_of ?hp b) = prev"
    using merge_round_set tracked by fastforce
  with merge_round_hashes[of H ?hp prev "slice_at (sy_roundBlocks ?ds) prev" bs] bs(1) assms(3) show ?thesis
    by (simp add: getPreviousRoundReferences_def known image_image)
qed

text \<open>(C23) The block of a round.  In every reachable state and for a round after the first,
  \<open>createRoundBlock\<close> returns; the new block has the round and the validator of the node, its
  references are the hashes of exactly the blocks of the previous round the node knows, its
  transactions are the submitted ones, in order, followed by generated ones up to 40000, and
  the pool is empty afterwards.\<close>

theorem createRoundBlock_correct:
  assumes "sync_reach H null w" "range_order (sv_recent E) (ds_blocks (sy_dag (sw_node w)))" "r - 1 \<noteq> 0"
  shows "\<exists>w'. createRoundBlock H E r w = Inr w' \<and>
    (let blk = sw_heap w' (sw_next w); hdr = blk_header blk; pending = sy_pendingTxs (sw_node w)
     in hdr_round hdr = r \<and> hdr_validator hdr = sy_validatorID (sw_node w) \<and>
        ref_hash ` set (hdr_references hdr) = (\<lambda>b. block_ComputeHash H (sw_heap w b)) ` known_in_round w (r - 1) \<and>
        (\<forall>x \<in> set (hdr_references hdr). ref_round x = r - 1) \<and>
        map_option body_txs (blk_body blk) =
          Some (pending @ [sw_next_tx w..<sw_next_tx w + (40000 - length pending)]) \<and>
        (\<forall>t < sw_next_tx w. sw_txs w' t = sw_txs w t) \<and> sy_pendingTxs (sw_node w') = [])"
proof -
  obtain refs where refs: "getPreviousRoundReferences H (sw_heap w) (sv_recent E) (sw_node w) (r - 1) = Inr refs"
    and exact: "ref_hash ` set refs = (\<lambda>b. block_ComputeHash H (sw_heap w b)) ` known_in_round w (r - 1)"
      "\<forall>x \<in> set refs. ref_round x = r - 1"
    using references_exact[OF sync_reach_inv[OF assms(1)] assms(2,3)] by blast
  then obtain w' where w': "createRoundBlock H E r w = Inr w'"
    by (simp add: createRoundBlock_def Let_def case_prod_beta)
  note gen = generateTransactions_refs[where c = 40000, simplified]
  from createRoundBlock_eq(1)[OF w'] refs have heap: "sw_heap w' (sw_next w) = round_block (sv_now E) r refs
      (fst (generateTransactions (sv_now E) (sv_times E) 40000 (sw_next_tx w) (sw_txs w) (sw_node w))) (sw_node w)"
    by simp
  have "sy_pendingTxs (sw_node w') = []"
    by (simp add: createRoundBlock_eq(5)[OF w'] cleanup_rounds_def track_block_def)
  moreover have "\<forall>t < sw_next_tx w. sw_txs w' t = sw_txs w t"
    by (simp add: createRoundBlock_eq(4)[OF w'] gen)
  ultimately show ?thesis
    using exact w' by (simp add: Let_def heap gen)
qed

text \<open>Waiting for the peers.  Connections are kept per address.  When the configured
  addresses differ, \<open>waitForAllPeers\<close> returns as soon as a look finds all of them connected,
  and not before; when an address is listed twice it never returns, however long it waits, and
  no round is ever started.\<close>

theorem waitForAllPeers_ends:
  assumes "\<And>i. sync_reach H null (ws i)" "\<And>i. sy_peers (sw_node (ws i)) = ps"
  shows "(\<exists>k. waitForAllPeers n 0 (\<lambda>i. sw_node (ws i)) = Some k) \<longleftrightarrow>
    distinct ps \<and> (\<exists>i < n. gkeys (sy_connections (sw_node (ws i))) = set ps)"
proof -
  have exit: "length ps \<le> glen (sy_connections (sw_node (ws i))) \<longleftrightarrow>
      distinct ps \<and> gkeys (sy_connections (sw_node (ws i))) = set ps" for i
  proof -
    have sub: "gkeys (sy_connections (sw_node (ws i))) \<subseteq> set ps" and wf: "gwf (sy_connections (sw_node (ws i)))"
      using sync_reach_inv[OF assms(1)[of i]] assms(2)[of i] by (simp_all add: sync_inv_def Let_def)
    have "card (gkeys (sy_connections (sw_node (ws i)))) \<le> card (set ps)" "card (set ps) \<le> length ps"
      using sub by (simp_all add: card_mono card_length)
    moreover have "card (gkeys (sy_connections (sw_node (ws i)))) = card (set ps) \<longleftrightarrow> gkeys (sy_connections (sw_node (ws i))) = set ps"
      using card_subset_eq[OF _ sub] by auto
    moreover have "distinct ps \<longleftrightarrow> card (set ps) = length ps"
      by (auto simp: distinct_card intro: card_distinct)
    ultimately show ?thesis
      using wf by (auto simp: glen_card)
  qed
  have "(\<exists>k. waitForAllPeers n i (\<lambda>i. sw_node (ws i)) = Some k) \<longleftrightarrow>
      (\<exists>j \<in> {i..<i + n}. length ps \<le> glen (sy_connections (sw_node (ws j))))" for i
  proof (induction n arbitrary: i)
    case (Suc n)
    have "{i..<i + Suc n} = insert i {Suc i..<Suc i + n}"
      by auto
    then show ?case
      by (simp only: waitForAllPeers.simps assms(2) Suc split: if_split) simp
  qed simp
  from this[of 0] show ?thesis
    by (auto simp: exit)
qed

text \<open>The early exits of the transactions query.\<close>

lemma block_tx_loop_take:
  "length acc < n \<Longrightarrow> block_tx_loop n acc b ts = take n (acc @ map (Pair b) ts)"
proof (induction ts arbitrary: acc)
  case (Cons t ts)
  then have "n - length acc = Suc (n - Suc (length acc))"
    by simp
  with Cons show ?case
    by (simp add: Let_def)
qed simp

lemma tx_loop_take:
  assumes "length acc < n" "\<And>b. b \<in> set bs \<Longrightarrow> \<exists>body. blk_body (hp b) = Some body"
  shows "tx_loop hp n acc bs = Inr (take n (acc @ concat (map (\<lambda>b. map (Pair b) (body_txs (the (blk_body (hp b))))) bs)))"
  using assms
proof (induction bs arbitrary: acc)
  case (Cons b bs)
  obtain body where body: "blk_body (hp b) = Some body"
    using Cons.prems(2)[of b] by auto
  show ?case
  proof (cases "length acc + length (body_txs body) < n")
    case True
    then show ?thesis
      using Cons body by (simp add: block_tx_loop_take Let_def)
  next
    case False
    then show ?thesis
      using Cons.prems body by (simp add: block_tx_loop_take Let_def min_def)
  qed
qed simp

text \<open>The transactions query with its early exits returns the first \<open>count\<close> transactions of the
  recent blocks, in order, when these have bodies.  A parameter that is not a positive
  decimal number is answered with an error.\<close>

theorem transactions_query_prefix:
  assumes "count_param 100 s = Some n"
    and "sync_GetRecentBlocks hp ord ds (if n > 40000 then 500 else 200) = Inr bs"
    and "\<And>b. b \<in> set bs \<Longrightarrow> \<exists>body. blk_body (hp b) = Some body"
  shows "sync_handleGetTransactions hp ord ds s =
    Inr (Some (take (nat n) (concat (map (\<lambda>b. map (Pair b) (body_txs (the (blk_body (hp b))))) bs))))"
proof -
  have "0 < nat n"
    using assms(1) by (auto simp: count_param_def split: if_splits option.splits)
  with tx_loop_take[of "[]" "nat n" bs hp] assms show ?thesis
    by (simp add: sync_handleGetTransactions_def)
qed

text \<open>A message whose block has no header ends the process.\<close>

lemma headless_block_panics:
  "dm_type msg = ''block'' \<Longrightarrow> dm_block msg = Some NoHeader \<Longrightarrow> null \<notin> gkeys (ds_blocks (sy_dag (sw_node w))) \<Longrightarrow>
     handleDAGMessage H null ord msg w = Inl NilDereference"
  by (simp add: handleDAGMessage_def handleReceivedBlock_def dag_GetBlock_def gkeys_iff)

text \<open>In rounds one and two \<open>round-3\<close> wraps around and the clean-up forgets the block just made.\<close>

lemma sync_forgets_early_rounds:
  assumes "sync_inv H w" "createRoundBlock H E r w = Inr w'" "unat r < 3"
  shows "GetBlocksForRound (sw_node w') r = []"
proof -
  have "gwf (sy_roundBlocks (sw_node w))" "r < r - 3"
    using assms(1) early_round_wraps[OF assms(3)] by (auto simp: sync_inv_def Let_def)
  then show ?thesis
    by (simp add: createRoundBlock_eq(5)[OF assms(2)] GetBlocksForRound_def cleanup_rounds_def track_block_def
        gget_gfilter gappend_def)
qed

section \<open>Witnesses\<close>

text \<open>A node with two peers that has received a block of round one and a transaction.\<close>

definition round_one_block :: block where
  "round_one_block = round_block 5 1 [] [] (NewDAGSync ''w'' ''w:1'' [] 1)"

definition busy_node :: sync_world where
  "busy_node = submit_tx (generated_tx ''u'' 0 (\<lambda>i. 0) 0)
     (projr (handleDAGMessage (\<lambda>h. [word_of_nat (length (hdr_validator h))]) [] [[1]]
       \<lparr>dm_type = ''block'', dm_block = Some (WithHeader round_one_block), dm_round = 1, dm_validator = ''w'', dm_time = 5\<rparr>
       (sync_start ''me'' ''0.0.0.0:4001'' [''p'', ''q''] 1 (\<lambda>_. round_one_block) (\<lambda>_. generated_tx ''u'' 0 (\<lambda>i. 0) 0))))"

definition plain_env :: sync_env where
  "plain_env = \<lparr>sv_now = 7, sv_times = (\<lambda>i. 7), sv_recent = [[1]], sv_cleanup = [[1]], sv_peers = [], sv_write = (\<lambda>p. True)\<rparr>"

lemma busy_node_facts:
  "sync_reach (\<lambda>h. [word_of_nat (length (hdr_validator h))]) [] busy_node"
  "range_order (sv_recent plain_env) (ds_blocks (sy_dag (sw_node busy_node)))"
  "sy_pendingTxs (sw_node busy_node) = [0]" "known_in_round busy_node 1 = {0}" "sw_heap busy_node 0 = round_one_block"
  "sw_next busy_node = 1" "ds_blocks (sy_dag (sw_node busy_node)) = [([1], 0)]"
proof -
  let ?H = "\<lambda>h. [word_of_nat (length (hdr_validator h))]" and ?th = "\<lambda>_. generated_tx ''u'' 0 (\<lambda>i. 0) 0"
  let ?s = "sync_start ''me'' ''0.0.0.0:4001'' [''p'', ''q''] 1 (\<lambda>_. round_one_block) ?th"
  let ?m = "\<lparr>dm_type = ''block'', dm_block = Some (WithHeader round_one_block), dm_round = 1, dm_validator = ''w'', dm_time = 5\<rparr>"
  let ?r = "handleDAGMessage ?H [] [[1]] ?m ?s"
  have hash: "block_ComputeHash ?H round_one_block = [1]" and refs: "hdr_references (blk_header round_one_block) = []"
    and round: "hdr_round (blk_header round_one_block) = 1"
    by (simp_all add: block_ComputeHash_def round_one_block_def NewDAGSync_def Let_def)
  note unfolds = handleDAGMessage_def handleReceivedBlock_def sync_start_def NewDAGSync_def dag_GetBlock_def dag_NewDAG_def
    dag_AddBlock_def Let_def hash refs
  have got: "?r = Inr (projr ?r)"
    by (simp add: unfolds)
  show blocks: "ds_blocks (sy_dag (sw_node busy_node)) = [([1], 0)]" "sw_heap busy_node 0 = round_one_block"
    "sy_pendingTxs (sw_node busy_node) = [0]" "sw_next busy_node = 1"
    by (simp_all add: busy_node_def submit_tx_def AddPendingTransaction_def unfolds track_block_def gput_def glen_def)
  have tracked: "sy_roundBlocks (sw_node busy_node) = [(1, [0])]"
    by (simp add: busy_node_def submit_tx_def AddPendingTransaction_def unfolds track_block_def gput_def gappend_def round)
  have "cleanup_order [[1]] (block_ComputeHash ?H round_one_block) ?s"
    by (simp add: cleanup_order_def hash range_order_def sync_start_def NewDAGSync_def dag_NewDAG_def Let_def)
  then have "sync_step ?H [] ?s (projr ?r)"
    using got by (intro sync_receive[where msg = ?m and ord = "[[1]]"]) auto
  then have "sync_reach ?H [] (projr ?r)"
    by (rule sync_more[OF sync_begin])
  then show "sync_reach ?H [] busy_node"
    unfolding busy_node_def by (rule sync_more[OF _ sync_submit])
  show "range_order (sv_recent plain_env) (ds_blocks (sy_dag (sw_node busy_node)))"
    by (simp add: range_order_def plain_env_def blocks gkeys_def)
  show "known_in_round busy_node 1 = {0}"
    by (auto simp: known_in_round_def GetBlocksForRound_slice slice_at_def dag_GetBlock_Inr blocks tracked gget_def round
        split: if_splits)
qed

theorem createRoundBlock_correct_witness:
  "\<exists>w'. createRoundBlock (\<lambda>h. [word_of_nat (length (hdr_validator h))]) plain_env 2 busy_node = Inr w' \<and>
     ref_hash ` set (hdr_references (blk_header (sw_heap w' 1))) = {[1]} \<and> sy_pendingTxs (sw_node w') = []"
proof -
  have "block_ComputeHash (\<lambda>h. [word_of_nat (length (hdr_validator h))]) round_one_block = [1]"
    by (simp add: block_ComputeHash_def round_one_block_def NewDAGSync_def Let_def)
  then show ?thesis
    using createRoundBlock_correct[OF busy_node_facts(1,2), of 2] busy_node_facts(4,5,6) by (auto simp: Let_def)
qed

text \<open>A node that lists the same peer twice.\<close>

theorem waitForAllPeers_ends_witness:
  "\<forall>n. waitForAllPeers n 0 (\<lambda>i. sw_node (sync_start ''me'' '':4001'' [''p'', ''p''] 1 (\<lambda>_. round_one_block) (\<lambda>_. generated_tx ''u'' 0 (\<lambda>i. 0) 0)))
     = None"
  using waitForAllPeers_ends[of "\<lambda>h. []" "[]"
      "\<lambda>i. sync_start ''me'' '':4001'' [''p'', ''p''] 1 (\<lambda>_. round_one_block) (\<lambda>_. generated_tx ''u'' 0 (\<lambda>i. 0) 0)" "[''p'', ''p'']"]
  by (simp add: sync_begin) (simp add: sync_start_def NewDAGSync_def Let_def)

theorem transactions_query_prefix_witness:
  "sync_handleGetTransactions (\<lambda>_. round_one_block\<lparr>blk_body := Some \<lparr>body_txs = [3, 4, 5], body_receipts = [], body_events = []\<rparr>\<rparr>)
     [[1]] (sw_node busy_node) ''2'' = Inr (Some [(0, 3), (0, 4)])"
proof -
  let ?hp = "\<lambda>_ :: bref. round_one_block\<lparr>blk_body := Some \<lparr>body_txs = [3, 4, 5], body_receipts = [], body_events = []\<rparr>\<rparr>"
  have param: "count_param 100 ''2'' = Some 2"
    by code_simp
  have "sync_GetRecentBlocks ?hp [[1]] (sw_node busy_node) (if (2 :: int) > 40000 then 500 else 200) = Inr [0]"
    by (simp add: sync_GetRecentBlocks_def dag_GetRecentBlocks_def gget_def go_prefix_def busy_node_facts)
  from transactions_query_prefix[OF param this] show ?thesis
    by simp
qed

end
