(* ===== verification/Core_Engine.thy ===== *)
theory Core_Engine
  imports Block_Processor
begin

text \<open>
  The parts of package \<open>core\<close> around the block processor: \<open>consensus_engine.go\<close> (proposals and
  votes kept in \<open>types.State\<close>), \<open>block_creator.go\<close> (blocks from the mempool file), \<open>state.go\<close>,
  \<open>dag_singleton.go\<close> and the state of \<open>engine.go\<close>.  Whether a write to disk succeeds is a flag;
  \<open>now\<close> is the clock.
\<close>

section \<open>The consensus engine of package \<open>core\<close>\<close>

definition dummy_signature :: "address \<Rightarrow> int \<Rightarrow> signature" where
  "dummy_signature node now = \<lparr>sig_validator = node, sig_bytes = bytes_of ''dummy_signature'', sig_time = now\<rparr>"

definition cce_createProposal :: "core_config \<Rightarrow> int \<Rightarrow> bref \<Rightarrow> types_state \<Rightarrow> proposal" where
  "cce_createProposal cfg now b s =
     \<lparr>prop_id = [], prop_block_hash = [], prop_round = ts_current_round s, prop_wave = ts_current_wave s,
      prop_block = b, prop_proposer = cfg_node_id cfg, prop_time = now, prop_status = ProposalStatusPending,
      prop_signature = dummy_signature (cfg_node_id cfg) now\<rparr>"

definition cce_validateProposal :: "block_heap \<Rightarrow> proposal \<Rightarrow> types_state \<Rightarrow> bool" where
  "cce_validateProposal hp p s =
     list_all (\<lambda>ref. ghas (ts_pending s) (ref_hash ref) \<or> ghas (ts_finalized s) (ref_hash ref))
       (hdr_references (hd_of hp (prop_block p)))"

definition cce_createVote :: "header_digest \<Rightarrow> block_heap \<Rightarrow> core_config \<Rightarrow> int \<Rightarrow> proposal \<Rightarrow> types_state \<Rightarrow> vote" where
  "cce_createVote H hp cfg now p s =
     \<lparr>vote_block_hash = block_ComputeHash H (hp (prop_block p)), vote_round = ts_current_round s, vote_wave = ts_current_wave s,
      vote_validator = cfg_node_id cfg, vote_time = now, vote_proposal_id = prop_id p, vote_block = None,
      vote_type = VoteTypeApprove, vote_signature = dummy_signature (cfg_node_id cfg) now\<rparr>"

definition cce_trackProposal :: "proposal \<Rightarrow> types_state \<Rightarrow> types_state" where
  "cce_trackProposal p s = s\<lparr>ts_proposals := gput (prop_id p) p (ts_proposals s)\<rparr>"

definition cce_trackVote :: "hash \<Rightarrow> vote \<Rightarrow> types_state \<Rightarrow> types_state" where
  "cce_trackVote pid v s = s\<lparr>ts_votes := gappend pid v (ts_votes s)\<rparr>"

definition cce_isProposalPending :: "hash \<Rightarrow> types_state \<Rightarrow> bool" where
  "cce_isProposalPending pid s = (case gget (ts_proposals s) pid of
     None \<Rightarrow> False | Some p \<Rightarrow> prop_status p = ProposalStatusPending)"

definition cce_hasQuorum :: "hash \<Rightarrow> types_state \<Rightarrow> bool" where
  "cce_hasQuorum pid s =
     (let votes = slice_at (ts_votes s) pid in if length votes = 0 then False else length votes \<ge> 2)"

definition cce_finalizeProposal :: "header_digest \<Rightarrow> block_heap \<Rightarrow> hash \<Rightarrow> types_state \<Rightarrow> types_state" where
  "cce_finalizeProposal H hp pid s = (case gget (ts_proposals s) pid of
     None \<Rightarrow> s
   | Some p \<Rightarrow>
       let b = prop_block p; h = block_ComputeHash H (hp b);
           latest = (case ts_latest s of
               None \<Rightarrow> Some b
             | Some l \<Rightarrow> if hdr_height (hd_of hp b) > hdr_height (hd_of hp l) then Some b else Some l)
       in s\<lparr>ts_finalized := gput h b (ts_finalized s), ts_pending := gdel h (ts_pending s), ts_latest := latest,
            ts_current_round := ts_current_round s + 1\<rparr>)"

section \<open>The state manager of package \<open>core\<close> and the shared DAG\<close>

definition core_UpdateState ::
  "(types_state \<Rightarrow> byte list) \<Rightarrow> bool \<Rightarrow> types_state \<Rightarrow> types_state \<times> storage \<Rightarrow> (types_state \<times> storage) \<times> storage_error option" where
  "core_UpdateState enc ok new sm = (case SaveState enc ok new (snd sm) of
     Inl e \<Rightarrow> ((new, snd sm), Some e)
   | Inr st \<Rightarrow> ((new, st), None))"

definition GetDAG :: "core_dag option \<Rightarrow> core_dag \<times> core_dag option" where
  "GetDAG g = (case g of None \<Rightarrow> (core_NewDAG, Some core_NewDAG) | Some d \<Rightarrow> (d, g))"

definition SetGlobalDAG :: "core_dag option \<Rightarrow> core_dag option \<Rightarrow> core_dag option" where
  "SetGlobalDAG d g = d"

section \<open>The state of the engine\<close>

record engine_state =
  ns_latest :: "bref option"
  ns_pending :: "(hash, bref) gomap"
  ns_finalized :: "(hash, bref) gomap"
  ns_max_pending :: int
  ns_max_finalized :: int

definition core_NewState :: engine_state where
  "core_NewState = \<lparr>ns_latest = None, ns_pending = [], ns_finalized = [], ns_max_pending = 50, ns_max_finalized = 100\<rparr>"

definition keep_last :: "nat \<Rightarrow> hash list \<Rightarrow> (hash, bref) gomap \<Rightarrow> (hash, bref) gomap" where
  "keep_last keepCount hashes m =
     (let blocksToRemove = length hashes - keepCount in if blocksToRemove > 0 then gdel_all (take blocksToRemove hashes) m else m)"

definition core_CleanupOldBlocks :: "hash list \<Rightarrow> hash list \<Rightarrow> engine_state \<Rightarrow> engine_state" where
  "core_CleanupOldBlocks ordp ordf s =
     (let s1 = (if glen (ns_pending s) > 10 then s\<lparr>ns_pending := keep_last 5 ordp (ns_pending s)\<rparr> else s)
      in if glen (ns_finalized s1) > 20 then s1\<lparr>ns_finalized := keep_last 10 ordf (ns_finalized s1)\<rparr> else s1)"

definition core_SetMemoryLimits :: "int \<Rightarrow> int \<Rightarrow> engine_state \<Rightarrow> engine_state" where
  "core_SetMemoryLimits p f s = s\<lparr>ns_max_pending := p, ns_max_finalized := f\<rparr>"

section \<open>The block creator\<close>

text \<open>The codecs of the two kinds of files, the digest, the clock, and whether the write of the
  mempool file and of the block file succeeds.\<close>

record creator_env =
  cr_H :: header_digest
  cr_enc :: "block \<Rightarrow> byte list"
  cr_dec :: "byte list \<Rightarrow> block option"
  cr_enc_pool :: "transaction list \<Rightarrow> byte list"
  cr_dec_pool :: "byte list \<Rightarrow> transaction list option"
  cr_now :: int
  cr_pool_ok :: bool
  cr_block_ok :: bool

definition bc_getNextHeight :: "block_heap \<Rightarrow> types_state \<Rightarrow> u64" where
  "bc_getNextHeight hp s = (case ts_latest s of None \<Rightarrow> 0 | Some b \<Rightarrow> hdr_height (hd_of hp b) + 1)"

definition bc_getParentHash :: "header_digest \<Rightarrow> block_heap \<Rightarrow> types_state \<Rightarrow> hash" where
  "bc_getParentHash H hp s = (case ts_latest s of None \<Rightarrow> [] | Some b \<Rightarrow> block_ComputeHash H (hp b))"

definition bc_selectReferences :: "creator_env \<Rightarrow> storage \<Rightarrow> go_panic + reference list" where
  "bc_selectReferences E st = (case GetLatestBlocks (cr_dec E) st 5 of
     Inl p \<Rightarrow> Inl p
   | Inr (Inl _) \<Rightarrow> Inr []
   | Inr (Inr bs) \<Rightarrow> Inr (map (\<lambda>b. \<lparr>ref_hash = block_ComputeHash (cr_H E) b, ref_round = hdr_round (blk_header b),
       ref_wave = hdr_wave (blk_header b), ref_type = ReferenceTypeStandard\<rparr>) bs))"

definition bc_collectTransactions :: "creator_env \<Rightarrow> storage \<Rightarrow> transaction list \<times> storage" where
  "bc_collectTransactions E st = (case LoadMempool (cr_dec_pool E) st of
     Inl _ \<Rightarrow> ([], st)
   | Inr txs \<Rightarrow> (case SaveMempool (cr_enc_pool E) (cr_pool_ok E) [] st of
       Inl _ \<Rightarrow> (txs, st)
     | Inr st' \<Rightarrow> (txs, st')))"

text \<open>The transactions read from the file are new objects, at the free references from \<open>next\<close> on.\<close>

definition bc_header :: "creator_env \<Rightarrow> core_config \<Rightarrow> block_heap \<Rightarrow> reference list \<Rightarrow> types_state \<Rightarrow> block_header" where
  "bc_header E cfg hp refs s =
     \<lparr>hdr_version = 1, hdr_time = cr_now E, hdr_round = ts_current_round s, hdr_wave = ts_current_wave s,
      hdr_height = bc_getNextHeight hp s, hdr_parent = bc_getParentHash (cr_H E) hp s, hdr_references = refs,
      hdr_state_root = [], hdr_validator = cfg_node_id cfg, hdr_signature = dummy_signature (cfg_node_id cfg) (cr_now E)\<rparr>"

definition bc_CreateBlock ::
  "creator_env \<Rightarrow> core_config \<Rightarrow> block_heap \<Rightarrow> tref \<Rightarrow> types_state \<Rightarrow> tx_heap \<times> storage
     \<Rightarrow> go_panic + (storage_error + block) \<times> tx_heap \<times> storage" where
  "bc_CreateBlock E cfg hp next s ts = (case ts of (th, st) \<Rightarrow>
     (case bc_selectReferences E st of
        Inl p \<Rightarrow> Inl p
      | Inr refs \<Rightarrow>
          let (txs, st1) = bc_collectTransactions E st;
              th1 = (\<lambda>t. if next \<le> t \<and> t < next + length txs then txs ! (t - next) else th t);
              b = \<lparr>blk_header = bc_header E cfg hp refs s,
                   blk_body = Some \<lparr>body_txs = [next..<next + length txs], body_receipts = [], body_events = []\<rparr>,
                   blk_certificate = None, blk_original_hash = []\<rparr>
          in (case SaveBlock (cr_H E) (cr_enc E) (cr_block_ok E) b st1 of
                Inl e \<Rightarrow> Inr (Inl e, th1, st1)
              | Inr st2 \<Rightarrow> Inr (Inr b, th1, st2))))"

section \<open>Lemmas\<close>

lemma keep_last_size:
  assumes "gwf m" "range_order ord m"
  shows "glen (keep_last n ord m) = min n (glen m)"
proof -
  have len: "length ord = glen m"
    using assms by (simp add: range_order_def glen_card flip: distinct_card)
  have "glen (gdel_all (take (length ord - n) ord) m) = glen m - length (take (length ord - n) ord)"
    using assms by (intro glen_gdel_all) (auto simp: range_order_def dest: in_set_takeD)
  with len show ?thesis
    by (auto simp: keep_last_def Let_def)
qed

text \<open>The limits set by \<open>SetMemoryLimits\<close> are not used; the clean-up keeps at most ten pending and
  twenty finalised blocks.\<close>

lemma core_CleanupOldBlocks_bounds:
  assumes "gwf (ns_pending s)" "range_order ordp (ns_pending s)" "gwf (ns_finalized s)" "range_order ordf (ns_finalized s)"
  shows "glen (ns_pending (core_CleanupOldBlocks ordp ordf s)) \<le> 10 \<and>
    glen (ns_finalized (core_CleanupOldBlocks ordp ordf s)) \<le> 20 \<and>
    core_CleanupOldBlocks ordp ordf (core_SetMemoryLimits p f s) = core_SetMemoryLimits p f (core_CleanupOldBlocks ordp ordf s)"
  using assms by (simp add: core_CleanupOldBlocks_def Let_def keep_last_size core_SetMemoryLimits_def)

lemma GetLatestBlocks_five: "\<exists>r. GetLatestBlocks dec st 5 = Inr r"
  by (cases "st_blocks st") (auto simp: GetLatestBlocks_def Let_def go_prefix_def)

lemma selectReferences_total: "\<exists>refs. bc_selectReferences E st = Inr refs"
  using GetLatestBlocks_five[of "cr_dec E" st] by (auto simp: bc_selectReferences_def split: sum.split)

section \<open>Properties\<close>

text \<open>Votes are shared by all proposals.  Every proposal of \<open>createProposal\<close> has the empty
  identifier: once two votes were recorded for one proposal, by one validator or two, any
  later proposal has a quorum without a vote of its own, and \<open>finalizeProposal\<close> finalises
  its block.\<close>

theorem core_votes_shared:
  "let p1 = cce_createProposal cfg1 now1 b1 s1; p2 = cce_createProposal cfg2 now2 b2 s2;
       v = cce_createVote H hp cfgv t p1 s3; v' = cce_createVote H hp cfgv' t' p1 s4;
       voted = cce_trackVote (prop_id p1) v' (cce_trackVote (prop_id p1) v (cce_trackProposal p1 s));
       st = cce_trackProposal p2 voted
   in cce_isProposalPending (prop_id p2) st \<and> cce_hasQuorum (prop_id p2) st \<and>
      gget (ts_finalized (cce_finalizeProposal H hp (prop_id p2) st)) (block_ComputeHash H (hp b2)) = Some b2"
  by (simp add: cce_createProposal_def cce_hasQuorum_def cce_trackVote_def cce_trackProposal_def cce_isProposalPending_def
      cce_finalizeProposal_def Let_def gappend_def)

text \<open>\<open>BlockCreator.CreateBlock\<close> always returns.  The block references the latest stored
  blocks and holds the transactions of the mempool file.  When the file can be rewritten it
  is emptied before the block is saved: if saving the block then fails, \<open>CreateBlock\<close> returns
  the error and the transactions are neither in a block nor in the file.\<close>

theorem bc_CreateBlock_loses_mempool:
  assumes "LoadMempool (cr_dec_pool E) st = Inr txs" "cr_pool_ok E"
    and codec: "cr_dec_pool E (cr_enc_pool E []) = Some []"
  shows "\<exists>res th' st'. bc_CreateBlock E cfg hp next s (th, st) = Inr (res, th', st') \<and>
    LoadMempool (cr_dec_pool E) st' = Inr [] \<and> (cr_block_ok E \<longleftrightarrow> (\<exists>b. res = Inr b)) \<and>
    (\<forall>b. res = Inr b \<longrightarrow> map_option (\<lambda>body. map th' (body_txs body)) (blk_body b) = Some txs) \<and>
    (\<forall>e. res = Inl e \<longrightarrow> st_blocks st' = st_blocks st)"
proof -
  obtain refs where refs: "bc_selectReferences E st = Inr refs"
    using selectReferences_total by blast
  have collected: "bc_collectTransactions E st = (txs, st\<lparr>st_mempool := Some (cr_enc_pool E [])\<rparr>)"
    using assms by (simp add: bc_collectTransactions_def SaveMempool_def)
  have content: "map (\<lambda>t. if next \<le> t \<and> t < next + length txs then txs ! (t - next) else th t) [next..<next + length txs] = txs"
    by (rule nth_equalityI) simp_all
  show ?thesis
    using refs codec content
    by (cases "cr_block_ok E") (auto simp: bc_CreateBlock_def collected Let_def SaveBlock_def LoadMempool_def)
qed

section \<open>Witnesses\<close>

text \<open>A disk that takes the emptied mempool file and then no block.\<close>

definition full_disk :: creator_env where
  "full_disk = \<lparr>cr_H = sample_digest, cr_enc = (\<lambda>b. []), cr_dec = (\<lambda>d. None), cr_enc_pool = (\<lambda>txs. if txs = [] then [] else [1]),
     cr_dec_pool = (\<lambda>d. Some (if d = [] then [] else [priced_tx_heap 0])), cr_now = 0, cr_pool_ok = True, cr_block_ok = False\<rparr>"

theorem bc_CreateBlock_loses_mempool_witness:
  "let st = NewStorage\<lparr>st_mempool := Some [1]\<rparr>
   in LoadMempool (cr_dec_pool full_disk) st = Inr [priced_tx_heap 0] \<and>
      (\<exists>e th' st'. bc_CreateBlock full_disk NewDefaultConfig sample_heap 0 types_NewState (priced_tx_heap, st) = Inr (Inl e, th', st') \<and>
         LoadMempool (cr_dec_pool full_disk) st' = Inr [] \<and> st_blocks st' = None)"
proof -
  let ?st = "NewStorage\<lparr>st_mempool := Some [1]\<rparr>"
  have pool: "LoadMempool (cr_dec_pool full_disk) ?st = Inr [priced_tx_heap 0]"
    by (simp add: LoadMempool_def full_disk_def)
  from bc_CreateBlock_loses_mempool[OF pool, of NewDefaultConfig sample_heap 0 types_NewState priced_tx_heap]
  obtain res th' st' where run: "bc_CreateBlock full_disk NewDefaultConfig sample_heap 0 types_NewState (priced_tx_heap, ?st) = Inr (res, th', st')"
    and empty: "LoadMempool (cr_dec_pool full_disk) st' = Inr []" and res: "\<nexists>b. res = Inr b"
      "\<forall>e. res = Inl e \<longrightarrow> st_blocks st' = st_blocks ?st"
    by (auto simp: full_disk_def)
  from res obtain e where "res = Inl e"
    by (cases res) auto
  with run empty res pool show ?thesis
    by (auto simp: Let_def NewStorage_def)
qed

end
