(* ===== verification/Coordinator.thy ===== *)
theory Coordinator
  imports Core_Wave Block_Processor
begin

text \<open>
  \<open>internal/core/blazedag_coordinator.go\<close>: one node made of the DAG transport, the wave
  consensus on top of it and a pool of transactions.  Two goroutines feed it: one adds a
  transaction to the pool every 200ms, one packs pool transactions into a DAG block every
  800ms.  One tick of a goroutine is one operation.
\<close>

section \<open>State\<close>

record coordinator =
  co_transport :: dag_transport
  co_wave :: core_wave
  co_pool :: simple_pool
  co_validatorID :: address
  co_validators :: "address list"
  co_round_duration :: int
  co_wave_timeout :: int

definition NewBlazeDagCoordinator :: "core_config \<Rightarrow> coordinator" where
  "NewBlazeDagCoordinator cfg =
     (let validators = [''validator1'', ''validator2'']
      in \<lparr>co_transport = NewDAGTransport dag_NewDAG 500000000,
          co_wave = core_NewWaveConsensus (cfg_node_id cfg) validators 3000000000,
          co_pool = NewSimplePool, co_validatorID = cfg_node_id cfg, co_validators = validators,
          co_round_duration = 500000000, co_wave_timeout = 3000000000\<rparr>)"

text \<open>The node with its heaps, the next free references and the counter of generated transactions.\<close>

record coord_world =
  cv_blocks :: block_heap
  cv_next :: bref
  cv_txs :: tx_heap
  cv_next_tx :: tref
  cv_counter :: nat
  cv_node :: coordinator

section \<open>The two goroutines\<close>

definition coord_tx :: "address \<Rightarrow> int \<Rightarrow> nat \<Rightarrow> transaction" where
  "coord_tx v now n = \<lparr>tx_nonce = word_of_nat n, tx_from = v, tx_to = ''recipient'', tx_value = 100, tx_gas_limit = 21000,
     tx_gas_price = 1000000000, tx_data = bytes_of ''transaction_data'', tx_signature = zero_signature, tx_time = now,
     tx_state = TransactionStatePending, tx_hash = None\<rparr>"

text \<open>The error of \<open>Add\<close> is ignored.\<close>

definition coord_generateTransactions :: "(byte list \<Rightarrow> hash) \<Rightarrow> int \<Rightarrow> coord_world \<Rightarrow> coord_world" where
  "coord_generateTransactions sha now w =
     (let t = cv_next_tx w; th = (cv_txs w)(t := coord_tx (co_validatorID (cv_node w)) now (cv_counter w));
          ((th', pool), _) = sp_Add sha t (th, co_pool (cv_node w))
      in w\<lparr>cv_txs := th', cv_next_tx := t + 1, cv_counter := cv_counter w + 1, cv_node := (cv_node w)\<lparr>co_pool := pool\<rparr>\<rparr>)"

definition coord_createDAGBlocks :: "header_digest \<Rightarrow> hash list \<Rightarrow> int \<Rightarrow> coord_world \<Rightarrow> go_panic + coord_world" where
  "coord_createDAGBlocks H ord now w =
     (case sp_GetPending ord 10 (co_pool (cv_node w)) of
        Inl p \<Rightarrow> Inl p
      | Inr transactions \<Rightarrow>
          if length transactions = 0 then Inr w
          else let node = cv_node w; b = cv_next w;
                   blk = CreateDAGBlock H (cv_blocks w) now (co_validatorID node) transactions (co_transport node)
               in Inr (w\<lparr>cv_blocks := (cv_blocks w)(b := blk), cv_next := b + 1,
                         cv_txs := mark_state TransactionStateIncluded transactions (cv_txs w),
                         cv_node := node\<lparr>co_transport := transport_BroadcastBlock b (co_transport node)\<rparr>\<rparr>))"

section \<open>Queries\<close>

record dag_status =
  dst_round :: u64
  dst_blocks :: nat
  dst_height :: u64
  dst_uncommitted :: nat

definition coord_GetDAGStatus :: "coordinator \<Rightarrow> dag_status" where
  "coord_GetDAGStatus c = \<lparr>dst_round = GetCurrentDAGRound (co_transport c),
     dst_blocks = dag_GetBlockCount (dt_dag (co_transport c)), dst_height = dag_GetHeight (dt_dag (co_transport c)),
     dst_uncommitted = length (GetUncommittedBlocks (co_transport c))\<rparr>"

record consensus_status =
  cst_wave :: u64
  cst_committed :: nat
  cst_leader :: bool

definition coord_GetConsensusStatus :: "coordinator \<Rightarrow> go_panic + consensus_status" where
  "coord_GetConsensusStatus c = (case isCurrentWaveLeader (co_validators c) (co_validatorID c) (core_GetCurrentWave (co_wave c)) of
     Inl p \<Rightarrow> Inl p
   | Inr l \<Rightarrow> Inr \<lparr>cst_wave = core_GetCurrentWave (co_wave c), cst_committed = length (core_GetCommittedBlocks (co_wave c)), cst_leader = l\<rparr>)"

definition coord_GetSystemStatus :: "coordinator \<Rightarrow> go_panic + address \<times> dag_status \<times> consensus_status \<times> nat" where
  "coord_GetSystemStatus c = (case coord_GetConsensusStatus c of
     Inl p \<Rightarrow> Inl p
   | Inr cs \<Rightarrow> Inr (co_validatorID c, coord_GetDAGStatus c, cs, sp_GetPendingCount (co_pool c)))"

text \<open>\<open>GetCommittedTransactions\<close> marks the transactions it returns.\<close>

fun committed_loop :: "block_heap \<Rightarrow> bref list \<Rightarrow> tref list \<Rightarrow> tx_heap \<Rightarrow> go_panic + tref list \<times> tx_heap" where
  "committed_loop hp [] acc th = Inr (acc, th)"
| "committed_loop hp (b # bs) acc th = (case blk_body (hp b) of
     None \<Rightarrow> Inl NilDereference
   | Some body \<Rightarrow> committed_loop hp bs (acc @ body_txs body) (mark_state TransactionStateCommitted (body_txs body) th))"

definition GetCommittedTransactions :: "coord_world \<Rightarrow> go_panic + tref list \<times> coord_world" where
  "GetCommittedTransactions w =
     map_sum id (\<lambda>(txs, th). (txs, w\<lparr>cv_txs := th\<rparr>))
       (committed_loop (cv_blocks w) (core_GetCommittedBlocks (co_wave (cv_node w))) [] (cv_txs w))"

section \<open>Runs\<close>

text \<open>A tick of either goroutine, a step of the transport, or anything the wave consensus does:
  it writes headers and its own state, never the pool.\<close>

inductive coord_step :: "header_digest \<Rightarrow> (byte list \<Rightarrow> hash) \<Rightarrow> coord_world \<Rightarrow> coord_world \<Rightarrow> bool" for H sha where
  coord_generate: "coord_step H sha w (coord_generateTransactions sha now w)"
| coord_create: "coord_createDAGBlocks H ord now w = Inr w' \<Longrightarrow> coord_step H sha w w'"
| coord_transport: "transport_step H (cv_blocks w) (co_transport (cv_node w)) dt \<Longrightarrow>
    coord_step H sha w (w\<lparr>cv_node := (cv_node w)\<lparr>co_transport := dt\<rparr>\<rparr>)"
| coord_wave: "coord_step H sha w (w\<lparr>cv_blocks := hp, cv_node := (cv_node w)\<lparr>co_wave := wc\<rparr>\<rparr>)"
| coord_query: "GetCommittedTransactions w = Inr (txs, w') \<Longrightarrow> coord_step H sha w w'"

definition coord_start :: "core_config \<Rightarrow> block_heap \<Rightarrow> tx_heap \<Rightarrow> coord_world" where
  "coord_start cfg hp th = \<lparr>cv_blocks = hp, cv_next = 0, cv_txs = th, cv_next_tx = 0, cv_counter = 0,
     cv_node = NewBlazeDagCoordinator cfg\<rparr>"

abbreviation pool_of :: "coord_world \<Rightarrow> (hash, tref) gomap" where
  "pool_of w \<equiv> sp_txs (co_pool (cv_node w))"

abbreviation coord_steps :: "header_digest \<Rightarrow> (byte list \<Rightarrow> hash) \<Rightarrow> coord_world \<Rightarrow> coord_world \<Rightarrow> bool" where
  "coord_steps H sha \<equiv> (coord_step H sha)\<^sup>*\<^sup>*"

section \<open>Lemmas\<close>

lemma sp_Add_pool:
  "fst (sp_Add sha t (th, p)) = (th', p') \<Longrightarrow>
     (sp_txs p' = sp_txs p \<or> (int (glen (sp_txs p)) < sp_maxSize p \<and> (\<exists>h. h \<notin> gkeys (sp_txs p) \<and> sp_txs p' = gput h t (sp_txs p))))
     \<and> sp_maxSize p' = sp_maxSize p"
  by (auto simp: sp_Add_def Let_def case_prod_beta ghas_gkeys split: if_splits)

lemma create_pool: "coord_createDAGBlocks H ord now w = Inr w' \<Longrightarrow> co_pool (cv_node w') = co_pool (cv_node w)"
  by (auto simp: coord_createDAGBlocks_def Let_def split: sum.splits if_splits)

lemma committed_pool: "GetCommittedTransactions w = Inr (txs, w') \<Longrightarrow> co_pool (cv_node w') = co_pool (cv_node w)"
  by (auto simp: GetCommittedTransactions_def map_sum_eq_Inr)

definition pool_ok :: "coord_world \<Rightarrow> bool" where
  "pool_ok w = (gwf (pool_of w) \<and> glen (pool_of w) \<le> 10000 \<and> sp_maxSize (co_pool (cv_node w)) = 10000)"

lemma generate_pool:
  assumes "pool_ok w"
  shows "pool_ok (coord_generateTransactions sha now w) \<and> gkeys (pool_of w) \<subseteq> gkeys (pool_of (coord_generateTransactions sha now w))
    \<and> (glen (pool_of w) = 10000 \<longrightarrow> pool_of (coord_generateTransactions sha now w) = pool_of w)"
proof -
  let ?th = "(cv_txs w)(cv_next_tx w := coord_tx (co_validatorID (cv_node w)) now (cv_counter w))"
  obtain th' p' where add: "fst (sp_Add sha (cv_next_tx w) (?th, co_pool (cv_node w))) = (th', p')"
    by fastforce
  have pool: "co_pool (cv_node (coord_generateTransactions sha now w)) = p'"
    using add by (simp add: coord_generateTransactions_def Let_def case_prod_beta)
  from sp_Add_pool[OF add] assms show ?thesis
    unfolding pool_ok_def pool by (auto simp: glen_gput)
qed

lemma coord_step_pool:
  assumes "coord_step H sha w w'" "pool_ok w"
  shows "pool_ok w' \<and> gkeys (pool_of w) \<subseteq> gkeys (pool_of w') \<and> (glen (pool_of w) = 10000 \<longrightarrow> pool_of w' = pool_of w)"
  using assms
proof (induction rule: coord_step.induct)
  case (coord_generate w now)
  then show ?case
    by (rule generate_pool)
next
  case (coord_create ord now w w')
  then show ?case
    by (simp add: create_pool pool_ok_def)
next
  case (coord_query w txs w')
  then show ?case
    by (simp add: committed_pool pool_ok_def)
qed (simp_all add: pool_ok_def)

lemma coord_steps_pool:
  "coord_steps H sha w w' \<Longrightarrow> pool_ok w \<Longrightarrow>
     pool_ok w' \<and> gkeys (pool_of w) \<subseteq> gkeys (pool_of w') \<and> (glen (pool_of w) = 10000 \<longrightarrow> pool_of w' = pool_of w)"
  by (induction rule: rtranclp_induct) (auto dest!: coord_step_pool)

lemma pool_ok_start: "pool_ok (coord_start cfg hp th)"
  by (simp add: pool_ok_def coord_start_def NewBlazeDagCoordinator_def NewSimplePool_def Let_def)

section \<open>Properties\<close>

text \<open>(C25) Nothing ever leaves the pool of a running coordinator.  It holds at most 10000
  transactions; whatever is in it stays in it, included in a block or not, and once 10000
  are in it, it never changes again: every later transaction is dropped.\<close>

theorem coordinator_pool_never_drains:
  assumes "coord_steps H sha (coord_start cfg hp th) w" "coord_steps H sha w w'"
  shows "glen (pool_of w) \<le> 10000 \<and> gkeys (pool_of w) \<subseteq> gkeys (pool_of w') \<and>
    (glen (pool_of w) = 10000 \<longrightarrow> pool_of w' = pool_of w)"
proof -
  have ok: "pool_ok w"
    using coord_steps_pool[OF assms(1) pool_ok_start] by simp
  with coord_steps_pool[OF assms(2) ok] show ?thesis
    by (simp add: pool_ok_def)
qed

text \<open>A tick of \<open>createDAGBlocks\<close> with a pool that is not empty creates a block of the current
  round with at most ten transactions of the pool, all marked as included.  The pool is as
  before, so the next tick, visiting the map in the same order, packs the same transactions
  into the next block.  With 100 blocks waiting in the channel the block is dropped, and the
  transactions are marked all the same.\<close>

theorem createDAGBlocks_repacks:
  assumes "range_order ord (pool_of w)" "gwf (pool_of w)" "pool_of w \<noteq> []"
  shows "\<exists>w1 w2 ts. coord_createDAGBlocks H ord now w = Inr w1 \<and> coord_createDAGBlocks H ord now' w1 = Inr w2 \<and>
    ts \<noteq> [] \<and> length ts \<le> 10 \<and> set ts \<subseteq> snd ` set (pool_of w) \<and> (\<forall>t \<in> set ts. tx_state (cv_txs w1 t) = TransactionStateIncluded) \<and>
    map_option body_txs (blk_body (cv_blocks w1 (cv_next w))) = Some ts \<and>
    hdr_round (blk_header (cv_blocks w1 (cv_next w))) = dt_currentRound (co_transport (cv_node w)) \<and>
    map_option body_txs (blk_body (cv_blocks w2 (cv_next w1))) = Some ts \<and>
    (length (dt_blockBroadcast (co_transport (cv_node w))) \<ge> 100 \<longrightarrow> co_transport (cv_node w1) = co_transport (cv_node w))"
proof -
  define ts where "ts = take 10 (range_vals ord (pool_of w))"
  have "length (range_vals ord (pool_of w)) = glen (pool_of w)" "set (range_vals ord (pool_of w)) = snd ` set (pool_of w)"
    using assms by (simp_all add: length_range_vals set_range_vals_order)
  then have ts: "ts \<noteq> []" "length ts \<le> 10" "set ts \<subseteq> snd ` set (pool_of w)"
    using assms(3) by (auto simp: ts_def glen_def dest: in_set_takeD)
  have get: "sp_GetPending ord 10 (co_pool (cv_node w)) = Inr ts"
    by (simp add: sp_GetPending_def ts_def)
  then obtain w1 where w1: "coord_createDAGBlocks H ord now w = Inr w1"
    and eqs: "cv_blocks w1 = (cv_blocks w)(cv_next w := CreateDAGBlock H (cv_blocks w) now (co_validatorID (cv_node w)) ts (co_transport (cv_node w)))"
      "cv_txs w1 = mark_state TransactionStateIncluded ts (cv_txs w)"
      "cv_node w1 = (cv_node w)\<lparr>co_transport := transport_BroadcastBlock (cv_next w) (co_transport (cv_node w))\<rparr>"
    using ts(1) by (simp add: coord_createDAGBlocks_def Let_def)
  obtain w2 where "coord_createDAGBlocks H ord now' w1 = Inr w2"
      "map_option body_txs (blk_body (cv_blocks w2 (cv_next w1))) = Some ts"
    using get ts(1) create_pool[OF w1] by (simp add: coord_createDAGBlocks_def Let_def CreateDAGBlock_def)
  with w1 ts show ?thesis
    by (intro exI[of _ w1] exI[of _ w2] exI[of _ ts])
      (auto simp: eqs CreateDAGBlock_def transport_BroadcastBlock_def mark_state_apply)
qed

section \<open>Witnesses\<close>

text \<open>A coordinator that has generated one transaction.\<close>

definition fed_coordinator :: coord_world where
  "fed_coordinator = coord_generateTransactions (\<lambda>d. [7]) 3 (coord_start NewDefaultConfig sample_heap priced_tx_heap)"

lemma fed_pool: "pool_of fed_coordinator = [([7], 0)]"
  by (simp add: fed_coordinator_def coord_generateTransactions_def coord_start_def NewBlazeDagCoordinator_def NewSimplePool_def
      sp_Add_def tx_GetHash_def tx_ComputeHash_def coord_tx_def Let_def case_prod_beta ghas_def gput_def)

theorem coordinator_pool_never_drains_witness:
  "gkeys (pool_of (coord_start NewDefaultConfig sample_heap priced_tx_heap)) \<subseteq> gkeys (pool_of fed_coordinator)
   \<and> gkeys (pool_of fed_coordinator) = {[7]}"
proof -
  have "coord_steps sample_digest (\<lambda>d. [7]) (coord_start NewDefaultConfig sample_heap priced_tx_heap) fed_coordinator"
    unfolding fed_coordinator_def by (intro r_into_rtranclp coord_generate)
  from coordinator_pool_never_drains[OF rtranclp.rtrancl_refl this] show ?thesis
    by (simp add: fed_pool gkeys_def)
qed

theorem createDAGBlocks_repacks_witness:
  "\<exists>w1 w2. coord_createDAGBlocks sample_digest [[7]] 4 fed_coordinator = Inr w1 \<and>
     coord_createDAGBlocks sample_digest [[7]] 5 w1 = Inr w2 \<and>
     map_option body_txs (blk_body (cv_blocks w1 (cv_next fed_coordinator))) = map_option body_txs (blk_body (cv_blocks w2 (cv_next w1)))"
  using createDAGBlocks_repacks[of "[[7]]" fed_coordinator sample_digest 4 5]
  by (auto simp: fed_pool range_order_def gkeys_def gwf_def)

end
