(* ===== verification/Wave_Node.thy ===== *)
theory Wave_Node
  imports Wave_Properties Dag_Sync
begin

text \<open>
  The node around the wave consensus: the network part of
  \<open>internal/consensus/wave_consensus.go\<close> (peers, connections, broadcast, the HTTP queries) and
  \<open>cmd/wave/main.go\<close>, whose \<open>RemoteDAGSync\<close> fetches blocks from the HTTP interface of a DAG
  node and rebuilds them from the answer.  A connection is a number; whether a write on it
  succeeds and what the clock shows are arguments.
\<close>

section \<open>Text\<close>

text \<open>\<open>strings.Split\<close> with a one-character separator, and \<open>strings.TrimSpace\<close> on ASCII text.\<close>

fun split_on :: "char \<Rightarrow> string \<Rightarrow> string list" where
  "split_on c [] = [[]]"
| "split_on c (x # xs) = (if x = c then [] # split_on c xs
     else case split_on c xs of [] \<Rightarrow> [[x]] | p # ps \<Rightarrow> (x # p) # ps)"

definition is_space :: "char \<Rightarrow> bool" where
  "is_space c = ((of_char c :: nat) \<in> {9, 10, 11, 12, 13, 32})"

definition trim_space :: "string \<Rightarrow> string" where
  "trim_space s = rev (dropWhile is_space (rev (dropWhile is_space s)))"

definition parse_peers :: "string \<Rightarrow> string list" where
  "parse_peers s = (if s \<noteq> [] then map trim_space (split_on CHR '','' s) else [])"

section \<open>Peers of the wave consensus\<close>

record wave_node =
  wn_core :: wave_consensus
  wn_listenAddr :: string
  wn_peers :: "string list"
  wn_httpAddr :: string
  wn_waveDuration :: int
  wn_connections :: "(string, nat) gomap"

definition NewWaveNode :: "address \<Rightarrow> address list \<Rightarrow> string \<Rightarrow> string list \<Rightarrow> int \<Rightarrow> wave_node" where
  "NewWaveNode me vs listenAddr peers dur =
     \<lparr>wn_core = NewWaveConsensus me vs, wn_listenAddr = listenAddr, wn_peers = peers,
      wn_httpAddr = (case split_host listenAddr of None \<Rightarrow> [] | Some h \<Rightarrow> h) @ '':8081'',
      wn_waveDuration = dur, wn_connections = []\<rparr>"

text \<open>\<open>connectToPeer\<close> with the outcome of the dial; \<open>connectToPeers\<close> tries each peer until a dial
  succeeds: \<open>tries\<close> are the outcomes for one peer, one every two seconds.\<close>

definition wave_connectToPeer :: "string \<Rightarrow> nat option \<Rightarrow> wave_node \<Rightarrow> wave_node option" where
  "wave_connectToPeer peerAddr dialled n = (case dialled of
     None \<Rightarrow> None
   | Some conn \<Rightarrow> Some (n\<lparr>wn_connections := gput peerAddr conn (wn_connections n)\<rparr>))"

fun wave_connect_loop :: "string \<Rightarrow> nat option list \<Rightarrow> wave_node \<Rightarrow> wave_node" where
  "wave_connect_loop peerAddr [] n = n"
| "wave_connect_loop peerAddr (d # ds) n = (case wave_connectToPeer peerAddr d n of
     None \<Rightarrow> wave_connect_loop peerAddr ds n | Some n' \<Rightarrow> n')"

definition wave_connectToPeers :: "(string \<Rightarrow> nat option list) \<Rightarrow> wave_node \<Rightarrow> wave_node" where
  "wave_connectToPeers tries n = fold (\<lambda>p. wave_connect_loop p (tries p)) (wn_peers n) n"

text \<open>The messages that reach a connection; \<open>ord\<close> is the order of the range.\<close>

definition wave_broadcastMessage :: "string list \<Rightarrow> (nat \<Rightarrow> bool) \<Rightarrow> wave_message \<Rightarrow> wave_node \<Rightarrow> (string \<times> wave_message) list" where
  "wave_broadcastMessage ord writes m n =
     map (\<lambda>(p, _). (p, m)) (filter (\<lambda>(_, conn). writes conn) (range_items ord (wn_connections n)))"

text \<open>\<open>waitForAllPeers\<close>: \<open>obs i\<close> is the node at look \<open>i\<close>.\<close>

fun wave_waitForAllPeers :: "nat \<Rightarrow> nat \<Rightarrow> (nat \<Rightarrow> wave_node) \<Rightarrow> nat option" where
  "wave_waitForAllPeers 0 i obs = None"
| "wave_waitForAllPeers (Suc n) i obs =
     (if glen (wn_connections (obs i)) \<ge> length (wn_peers (obs i)) then Some i
      else wave_waitForAllPeers n (Suc i) obs)"

text \<open>\<open>Start\<close>: an error of the listener, or the look after which the waves start.\<close>

definition wave_Start :: "bool \<Rightarrow> nat \<Rightarrow> (nat \<Rightarrow> wave_node) \<Rightarrow> string + nat option" where
  "wave_Start listen fuel obs =
     (if \<not> listen then Inl ''failed to start listener''
      else if length (wn_peers (obs 0)) > 0 then Inr (wave_waitForAllPeers fuel 0 obs)
      else Inr (Some 0))"

text \<open>\<open>handleConnection\<close>: messages are handled until one does not decode.\<close>

fun wave_handleConnection ::
  "header_digest \<Rightarrow> block_heap \<Rightarrow> (hash \<Rightarrow> nat) \<Rightarrow> int \<Rightarrow> wave_message option list \<Rightarrow> wave_consensus
     \<Rightarrow> go_panic + wave_consensus \<times> wave_message list \<times> wave_task list" where
  "wave_handleConnection H hp cap now [] wc = Inr (wc, [], [])"
| "wave_handleConnection H hp cap now (None # ms) wc = Inr (wc, [], [])"
| "wave_handleConnection H hp cap now (Some m # ms) wc =
     (case handleWaveMessage H hp cap now m wc of
        Inl p \<Rightarrow> Inl p
      | Inr (wc1, out, ts) \<Rightarrow> map_sum id (\<lambda>(wc2, out', ts'). (wc2, out @ out', ts @ ts'))
          (wave_handleConnection H hp cap now ms wc1))"

fun runWaves :: "nat \<Rightarrow> wave_consensus \<Rightarrow> go_panic + wave_consensus \<times> wave_task list" where
  "runWaves 0 wc = Inr (wc, [])"
| "runWaves (Suc n) wc = (case wave_advanceWave wc of
     Inl p \<Rightarrow> Inl p
   | Inr (wc1, ts) \<Rightarrow> map_sum id (\<lambda>(wc2, ts'). (wc2, ts @ ts')) (runWaves n wc1))"

section \<open>Status queries\<close>

record wave_status_view =
  wsv_validator :: address
  wsv_wave :: u64
  wsv_leader :: address
  wsv_is_leader :: bool
  wsv_validators :: "address list"
  wsv_finalized :: nat
  wsv_peers :: nat
  wsv_votes :: "(string, nat) gomap"
  wsv_listen :: string

definition GetWaveStatus :: "u64 list \<Rightarrow> wave_node \<Rightarrow> go_panic + wave_status_view" where
  "GetWaveStatus ord n =
     (let wc = wn_core n;
          votes = fold (\<lambda>(w, vs). gput (''wave_'' @ nat_text (unat w)) (glen vs)) (range_items ord (wc_waveVotes wc)) []
      in case getWaveLeader (wc_validatorID wc) (wc_validators wc) (wc_currentWave wc) of
           Inl p \<Rightarrow> Inl p
         | Inr leader \<Rightarrow> map_sum id (\<lambda>isLeader.
             \<lparr>wsv_validator = wc_validatorID wc, wsv_wave = wc_currentWave wc, wsv_leader = leader, wsv_is_leader = isLeader,
              wsv_validators = wc_validators wc, wsv_finalized = glen (wc_finalizedWaves wc),
              wsv_peers = glen (wn_connections n), wsv_votes = votes, wsv_listen = wn_listenAddr n\<rparr>)
             (isWaveLeader (wc_validatorID wc) (wc_validators wc) (wc_currentWave wc)))"

text \<open>The answers of \<open>/block_confirmation\<close> and \<open>/all_blocks_confirmation\<close>.\<close>

datatype 'a http_status = HttpEmpty | HttpBadRequest | HttpBody 'a

definition handleBlockConfirmation ::
  "header_digest \<Rightarrow> block_heap \<Rightarrow> u64 list \<Rightarrow> string \<Rightarrow> string \<Rightarrow> wave_consensus \<Rightarrow> block_status http_status" where
  "handleBlockConfirmation H hp ord meth blockHash wc =
     (if meth = ''OPTIONS'' then HttpEmpty
      else if blockHash = [] then HttpBadRequest
      else HttpBody (GetBlockConfirmationStatus H hp ord wc blockHash))"

definition handleAllBlocksConfirmation ::
  "header_digest \<Rightarrow> block_heap \<Rightarrow> u64 list \<Rightarrow> string list \<Rightarrow> string \<Rightarrow> wave_consensus \<Rightarrow> (string, block_status) gomap http_status" where
  "handleAllBlocksConfirmation H hp ord ordc meth wc =
     (if meth = ''OPTIONS'' then HttpEmpty
      else HttpBody (GetAllBlocksConfirmationStatus H hp ord ordc wc))"

section \<open>The remote DAG reader\<close>

record remote_dag =
  rd_validatorID :: address
  rd_dagAddr :: string

definition NewRemoteDAGSync :: "address \<Rightarrow> string \<Rightarrow> remote_dag" where
  "NewRemoteDAGSync v addr = \<lparr>rd_validatorID = v, rd_dagAddr = addr\<rparr>"

definition remote_GetValidatorID :: "remote_dag \<Rightarrow> address" where
  "remote_GetValidatorID rd = rd_validatorID rd"

definition remote_url :: "remote_dag \<Rightarrow> nat \<Rightarrow> string" where
  "remote_url rd cnt = ''http://'' @ hd (split_on CHR '':'' (rd_dagAddr rd)) @ '':8080/blocks?count='' @ nat_text cnt"

text \<open>What the request yields: no answer, a status and a body that decodes or not.\<close>

datatype http_reply = NoReply | Reply nat "block_view list option"

definition empty_signature :: signature where
  "empty_signature = \<lparr>sig_validator = [], sig_bytes = [], sig_time = 0\<rparr>"

definition light_block :: "block_view \<Rightarrow> hash \<Rightarrow> block" where
  "light_block v originalHash =
     \<lparr>blk_header = \<lparr>hdr_version = 1, hdr_time = bv_time v, hdr_round = bv_round v, hdr_wave = bv_wave v,
        hdr_height = bv_height v, hdr_parent = [], hdr_references = [], hdr_state_root = [],
        hdr_validator = bv_validator v, hdr_signature = empty_signature\<rparr>,
      blk_body = Some \<lparr>body_txs = [], body_receipts = [], body_events = []\<rparr>,
      blk_certificate = None, blk_original_hash = originalHash\<rparr>"

definition light_blocks :: "block_view list \<Rightarrow> block list" where
  "light_blocks views = List.map_filter (\<lambda>v. map_option (light_block v) (hex_DecodeString (bv_hash v))) views"

text \<open>The mock blocks: \<open>clk\<close> are the successive readings of the clock in nanoseconds, four for
  each block, and \<open>t\<close> is the next free transaction.\<close>

definition sample_transaction :: "address \<Rightarrow> int \<Rightarrow> int \<Rightarrow> nat \<Rightarrow> transaction" where
  "sample_transaction v nano now i = \<lparr>tx_nonce = word_of_int (nano + int i), tx_from = v,
     tx_to = ''recipient_'' @ nat_text i, tx_value = word_of_nat (100 + i), tx_gas_limit = 21000,
     tx_gas_price = 1000000000, tx_data = bytes_of (''tx_data_'' @ nat_text i), tx_signature = empty_signature,
     tx_time = now, tx_state = TransactionStatePending, tx_hash = None\<rparr>"

definition generateSampleTransactions :: "(nat \<Rightarrow> int) \<Rightarrow> nat \<Rightarrow> remote_dag \<Rightarrow> transaction list" where
  "generateSampleTransactions clk cnt rd = map (\<lambda>i. sample_transaction (rd_validatorID rd) (clk (2 * i)) (clk (2 * i + 1)) i) [0..<cnt]"

definition fallback_block :: "(nat \<Rightarrow> int) \<Rightarrow> nat \<Rightarrow> remote_dag \<Rightarrow> nat \<Rightarrow> block" where
  "fallback_block clk t rd i =
     \<lparr>blk_header = \<lparr>hdr_version = 1, hdr_time = clk (4 * i) - int i * 1000000000,
        hdr_round = word_of_int ((clk (4 * i + 1) div 1000000000) smod 100), hdr_wave = 0,
        hdr_height = word_of_nat (i + 1), hdr_parent = [], hdr_references = [], hdr_state_root = [],
        hdr_validator = rd_validatorID rd, hdr_signature = empty_signature\<rparr>,
      blk_body = Some \<lparr>body_txs = [t + i], body_receipts = [], body_events = []\<rparr>,
      blk_certificate = None, blk_original_hash = []\<rparr>"

definition getFallbackBlocks :: "(nat \<Rightarrow> int) \<Rightarrow> nat \<Rightarrow> remote_dag \<Rightarrow> block list \<times> transaction list" where
  "getFallbackBlocks clk t rd =
     (map (fallback_block clk t rd) [0..<3],
      concat (map (\<lambda>i. generateSampleTransactions (\<lambda>k. clk (4 * i + 2 + k)) 1 rd) [0..<3]))"

definition remote_GetRecentBlocks :: "(nat \<Rightarrow> int) \<Rightarrow> nat \<Rightarrow> http_reply \<Rightarrow> remote_dag \<Rightarrow> block list \<times> transaction list" where
  "remote_GetRecentBlocks clk t reply rd = (case reply of
     NoReply \<Rightarrow> getFallbackBlocks clk t rd
   | Reply status body \<Rightarrow>
       if status \<noteq> 200 then getFallbackBlocks clk t rd
       else (case body of None \<Rightarrow> getFallbackBlocks clk t rd | Some views \<Rightarrow> (light_blocks views, [])))"

section \<open>The command\<close>

definition wave_validators :: "address list" where
  "wave_validators = [''validator1'', ''validator2'']"

definition wave_main :: "address \<Rightarrow> string \<Rightarrow> string \<Rightarrow> string \<Rightarrow> int \<Rightarrow> remote_dag \<times> wave_node" where
  "wave_main me dagAddr waveListenAddr wavePeersStr dur =
     (NewRemoteDAGSync me dagAddr, NewWaveNode me wave_validators waveListenAddr (parse_peers wavePeersStr) dur)"

section \<open>Lemmas\<close>

lemma all_or_panic_Inr: "all_or_panic xs = Inr ys \<longleftrightarrow> xs = map Inr ys"
proof (induction xs arbitrary: ys)
  case (Cons x xs)
  then show ?case
    by (cases ys) (auto simp: map_sum_eq_Inr split: sum.splits)
qed auto

lemma light_block_fields [simp]:
  "hdr_round (blk_header (light_block v h)) = bv_round v" "hdr_wave (blk_header (light_block v h)) = bv_wave v"
  "hdr_validator (blk_header (light_block v h)) = bv_validator v" "hdr_references (blk_header (light_block v h)) = []"
  "blk_original_hash (light_block v h) = h"
  by (simp_all add: light_block_def)

lemma vote_hash_light: "h \<noteq> [] \<Longrightarrow> vote_hash H (light_block v h) = h"
  by (simp add: vote_hash_def)

lemma block_view_of_Inr:
  assumes "block_view_of H b = Inr v"
  shows "bv_hash v = hex_of (block_ComputeHash H b)" "bv_round v = hdr_round (blk_header b)"
    "bv_validator v = hdr_validator (blk_header b)" "bv_wave v = hdr_wave (blk_header b)"
  using assms by (auto simp: block_view_of_def split: option.splits)

text \<open>\<open>copy_of H b l\<close>: the block \<open>l\<close> rebuilt from an answer stands for the DAG block \<open>b\<close>.\<close>

definition copy_of :: "header_digest \<Rightarrow> block \<Rightarrow> block \<Rightarrow> bool" where
  "copy_of H b l = (vote_hash H l = block_ComputeHash H b \<and> hdr_round (blk_header l) = hdr_round (blk_header b) \<and>
     hdr_validator (blk_header l) = hdr_validator (blk_header b) \<and> hdr_wave (blk_header l) = hdr_wave (blk_header b))"

lemma light_blocks_copy:
  assumes "map (\<lambda>b. block_view_of H (hp b)) bs = map Inr views" "\<forall>b. block_ComputeHash H (hp b) \<noteq> []"
  shows "list_all2 (\<lambda>b l. copy_of H (hp b) l \<and> hdr_references (blk_header l) = []) bs (light_blocks views)"
  using assms(1)
proof (induction bs arbitrary: views)
  case (Cons b bs)
  then obtain v vs where v: "views = v # vs" "block_view_of H (hp b) = Inr v" "map (\<lambda>b. block_view_of H (hp b)) bs = map Inr vs"
    by (cases views) auto
  show ?case
    using block_view_of_Inr[OF v(2)] Cons.IH[OF v(3)] assms(2) v(1)
    by (simp add: light_blocks_def map_filter_simps hex_round_trip copy_of_def vote_hash_light)
qed (simp add: light_blocks_def map_filter_simps)

section \<open>Properties\<close>

text \<open>(C30) Reading the DAG over HTTP keeps what the consensus votes on: when a DAG node answers
  \<open>/blocks\<close>, the blocks the remote reader rebuilds are those the DAG holds, in the same order,
  with the same round and creator, and are voted on under their hash in the DAG.  Their
  references are lost.\<close>

theorem remote_blocks_keep_hash:
  assumes "handleGetBlocks H hp ord ds countStr = Inr (Some views)"
    and "\<forall>b. block_ComputeHash H (hp b) \<noteq> []"
  shows "\<exists>n bs. count_param 10 countStr = Some n \<and> sync_GetRecentBlocks hp ord ds n = Inr bs \<and>
    list_all2 (\<lambda>b l. copy_of H (hp b) l \<and> hdr_references (blk_header l) = []) bs
      (fst (remote_GetRecentBlocks clk t (Reply 200 (Some views)) rd))"
proof -
  obtain n where n: "count_param 10 countStr = Some n"
    using assms(1) by (auto simp: handleGetBlocks_def split: option.splits)
  obtain bs where bs: "sync_GetRecentBlocks hp ord ds n = Inr bs"
      "all_or_panic (map (\<lambda>b. block_view_of H (hp b)) bs) = Inr views"
    using assms(1) n by (auto simp: handleGetBlocks_def map_sum_eq_Inr split: sum.splits)
  from light_blocks_copy[OF _ assms(2), of bs views] bs(2) n bs(1) show ?thesis
    by (auto simp: remote_GetRecentBlocks_def all_or_panic_Inr)
qed

lemma processWave_one:
  assumes "isWaveLeader (wc_validatorID wc) (wc_validators wc) w = Inr True" "\<not> alreadyProcessed H hp wc b"
    "\<forall>h. 8 \<le> cap h"
  shows "\<exists>wc' ms ts. processWave H hp cap now [b] w wc = Inr (write_wave w b hp, wc', ms, ts) \<and>
    wc_waveBlocks wc' = gput w [b] (wc_waveBlocks wc) \<and>
    broadcastWaveBlocks (wc_validatorID wc) now w [b] \<in> set ms \<and>
    wc_validatorID wc' = wc_validatorID wc \<and> wc_validators wc' = wc_validators wc"
proof -
  have cands: "candidateBlocks H hp wc [b] = [b]"
    using assms(2) by (simp add: candidateBlocks_def collect_candidate_def word_gt_0)
  have "go_rem (go_int w) 1 = Inr 0"
    by (simp add: go_rem_def signed_modulo_int_def)
  then show ?thesis
    using assms(1,3) cands
    by (simp add: processWave_def Let_def go_index_def voteOnBlock_def store_vote_def linorder_not_less)
qed

text \<open>Blocks of finalised waves are not to be proposed again, and the leader compares header hashes
  to find them.  The remote reader builds a new block for every answer, and the leader writes
  the wave into its copy: when the answer does not change, the leader of a later wave takes
  its block for a new one and proposes it again, though it was finalised.\<close>

theorem remote_block_reproposed:
  assumes collision_free: "\<And>h h'. hdr_wave h \<noteq> hdr_wave h' \<Longrightarrow> H h \<noteq> H h'"
    and first: "processWave H (hp(b1 := light_block v hash)) cap now1 [b1] w1 wc = Inr (hp1, wc1, ms1, ts1)"
    and "wc_waveBlocks wc = []" "isWaveLeader (wc_validatorID wc) (wc_validators wc) w1 = Inr True"
    and later: "wc_waveBlocks wc2 = wc_waveBlocks wc1" "flag (wc_finalizedWaves wc2) w1"
    and "isWaveLeader (wc_validatorID wc2) (wc_validators wc2) w2 = Inr True"
    and "bv_wave v \<noteq> w1" "b2 \<noteq> b1" "\<forall>h. 8 \<le> cap h"
  shows "\<exists>hp2 wc3 ms ts. processWave H (hp1(b2 := light_block v hash)) cap now2 [b2] w2 wc2 = Inr (hp2, wc3, ms, ts) \<and>
    broadcastWaveBlocks (wc_validatorID wc2) now2 w2 [b2] \<in> set ms \<and> blk_original_hash (hp2 b2) = blk_original_hash (hp2 b1)"
proof -
  have "\<not> alreadyProcessed H (hp(b1 := light_block v hash)) wc b1"
    using assms(3) by (simp add: alreadyProcessed_def slice_at_def list_ex_iff)
  from processWave_one[OF assms(4) this assms(10), of now1] first
  have hp1: "hp1 = write_wave w1 b1 (hp(b1 := light_block v hash))" "wc_waveBlocks wc1 = gput w1 [b1] []"
    using assms(3) by auto
  let ?hp = "hp1(b2 := light_block v hash)"
  have "block_ComputeHash H (?hp b1) \<noteq> block_ComputeHash H (?hp b2)"
    using assms(8,9) by (auto simp: block_ComputeHash_def hp1 write_wave_def intro!: collision_free)
  moreover have "slice_at (wc_waveBlocks wc2) w = (if w = w1 then [b1] else [])" for w
    by (simp add: later(1) hp1(2) slice_at_def)
  ultimately have "\<not> alreadyProcessed H ?hp wc2 b2"
    by (auto simp: alreadyProcessed_def list_ex_iff split: if_splits)
  from processWave_one[OF assms(7) this assms(10), of now2] show ?thesis
    using assms(9) by (auto simp: write_wave_def hp1(1))
qed

text \<open>The validator set of the command is fixed: a node under any other identifier, the default one
  included, is never the leader of a wave before $2^{63}$, and its votes are dropped by every
  node, so it takes part in no wave.\<close>

theorem unlisted_wave_node_ignored:
  assumes "me \<notin> {''validator1'', ''validator2''}" "unat w < 2 ^ 63"
    and "wc_validators other = wc_validators (wn_core (snd (wave_main me dagAddr listen peers dur)))" "wv_voter v = me"
  shows "isWaveLeader me (wc_validators other) w = Inr False \<and>
    handleReceivedVote cap (Some v) from other = Inr (other, [])"
proof -
  have vs: "wc_validators other = [''validator1'', ''validator2'']"
    using assms(3) by (simp add: wave_main_def NewWaveNode_def NewWaveConsensus_def wave_validators_def)
  have "rotation_leader (wc_validators other) w = Inr (wc_validators other ! (unat w mod length (wc_validators other)))"
    by (rule rotation_leader_eq) (use vs assms(2) in simp_all)
  moreover have "wc_validators other ! (unat w mod length (wc_validators other)) \<in> set (wc_validators other)"
    by (intro nth_mem) (simp add: vs)
  ultimately have "rotation_leader (wc_validators other) w \<in> {Inr ''validator1'', Inr ''validator2''}"
    using vs by auto
  then show ?thesis
    using assms(1,4) by (auto simp: isWaveLeader_def handleReceivedVote_def vs)
qed

section \<open>Witnesses\<close>

text \<open>The answer of a DAG node that holds one block.\<close>

definition one_view :: block_view where
  "one_view = \<lparr>bv_hash = hex_of (sample_key 1), bv_validator = ''validator1'', bv_time = 5, bv_round = 3, bv_wave = 0,
     bv_height = 1, bv_tx_count = 0\<rparr>"

lemma sample_digest_wave: "hdr_wave h \<noteq> hdr_wave h' \<Longrightarrow> sample_digest h \<noteq> sample_digest h'"
  by (auto simp: sample_digest_def uint64ToBytes_inj)

theorem remote_blocks_keep_hash_witness:
  "\<exists>views. handleGetBlocks (\<lambda>h. [1]) (\<lambda>_. round_one_block) [[1]] (sw_node busy_node) ''5'' = Inr (Some views) \<and>
     map (vote_hash (\<lambda>h. [1])) (fst (remote_GetRecentBlocks (\<lambda>i. 0) 0 (Reply 200 (Some views)) (NewRemoteDAGSync ''w'' ''w:1''))) = [[1]]"
proof -
  let ?H = "\<lambda>h :: block_header. [1 :: byte]" and ?hp = "\<lambda>_ :: bref. round_one_block"
  have param: "count_param 10 ''5'' = Some 5"
    by code_simp
  have recent: "sync_GetRecentBlocks ?hp [[1]] (sw_node busy_node) 5 = Inr [0]"
    by (simp add: sync_GetRecentBlocks_def dag_GetRecentBlocks_def gget_def go_prefix_def busy_node_facts)
  obtain body where body: "blk_body round_one_block = Some body"
    by (simp add: round_one_block_def round_block_def)
  obtain views where views: "handleGetBlocks ?H ?hp [[1]] (sw_node busy_node) ''5'' = Inr (Some views)"
    by (simp add: handleGetBlocks_def param recent block_view_of_def body)
  have "\<forall>b. block_ComputeHash ?H (?hp b) \<noteq> []"
    by (simp add: block_ComputeHash_def)
  from remote_blocks_keep_hash[OF views this, of "\<lambda>i. 0" 0 "NewRemoteDAGSync ''w'' ''w:1''"] param recent
  have "list_all2 (\<lambda>b l. copy_of ?H (?hp b) l \<and> hdr_references (blk_header l) = []) [0]
      (fst (remote_GetRecentBlocks (\<lambda>i. 0) 0 (Reply 200 (Some views)) (NewRemoteDAGSync ''w'' ''w:1'')))"
    by auto
  then show ?thesis
    using views by (auto simp: list_all2_Cons1 copy_of_def block_ComputeHash_def)
qed

text \<open>A lone validator proposes the same block in waves one and two.\<close>

definition lone_wave :: "wave_consensus" where
  "lone_wave = NewWaveConsensus ''validator1'' [''validator1'']"

theorem remote_block_reproposed_witness:
  "let hp = \<lambda>b. light_block one_view (sample_key 1) in
   \<exists>hp1 wc1 ms1 ts1 hp2 wc2 ms2 ts2.
     processWave sample_digest hp (\<lambda>h. 32) 0 [0] 1 lone_wave = Inr (hp1, wc1, ms1, ts1) \<and>
     processWave sample_digest (hp1(1 := hp 1)) (\<lambda>h. 32) 0 [1] 2 (wc1\<lparr>wc_finalizedWaves := [(1, True)]\<rparr>) = Inr (hp2, wc2, ms2, ts2) \<and>
     broadcastWaveBlocks ''validator1'' 0 2 [1] \<in> set ms2 \<and> blk_original_hash (hp2 1) = blk_original_hash (hp2 0)"
proof -
  let ?hp = "\<lambda>b :: bref. light_block one_view (sample_key 1)"
  have leader: "isWaveLeader ''validator1'' [''validator1''] w = Inr True" for w
    by (simp add: isWaveLeader_def rotation_leader_def go_rem_def go_index_def signed_modulo_int_def)
  have same: "?hp(0 := light_block one_view (sample_key 1)) = ?hp"
    by auto
  have lone: "wc_waveBlocks lone_wave = []" "wc_validatorID lone_wave = ''validator1''" "wc_validators lone_wave = [''validator1'']"
    by (simp_all add: lone_wave_def NewWaveConsensus_def)
  have "\<not> alreadyProcessed sample_digest ?hp lone_wave 0"
    by (simp add: alreadyProcessed_def lone_wave_def NewWaveConsensus_def)
  from processWave_one[of lone_wave 1, OF _ this, of "\<lambda>h. 32" 0] obtain wc1 ms1 ts1 where
    first: "processWave sample_digest ?hp (\<lambda>h. 32) 0 [0] 1 lone_wave = Inr (write_wave 1 0 ?hp, wc1, ms1, ts1)"
      and ids: "wc_validatorID wc1 = ''validator1''" "wc_validators wc1 = [''validator1'']"
    by (auto simp: lone leader)
  have wave: "bv_wave one_view \<noteq> 1" "flag [(1, True)] (1 :: u64)"
    by (simp_all add: one_view_def flag_def gget_def)
  from remote_block_reproposed[of sample_digest ?hp 0 one_view "sample_key 1" "\<lambda>h. 32" 0 1 lone_wave _ wc1 ms1 ts1
      "wc1\<lparr>wc_finalizedWaves := [(1, True)]\<rparr>" 2 1 0, unfolded same, OF sample_digest_wave first]
  have "\<exists>hp2 wc3 ms ts. processWave sample_digest ((write_wave 1 0 ?hp)(1 := light_block one_view (sample_key 1))) (\<lambda>h. 32) 0 [1] 2
        (wc1\<lparr>wc_finalizedWaves := [(1, True)]\<rparr>) = Inr (hp2, wc3, ms, ts) \<and>
      broadcastWaveBlocks ''validator1'' 0 2 [1] \<in> set ms \<and> blk_original_hash (hp2 1) = blk_original_hash (hp2 0)"
    using wave by (simp add: lone leader ids)
  with first show ?thesis
    unfolding Let_def by blast
qed

theorem unlisted_wave_node_ignored_witness:
  "isWaveLeader ''wave-validator1'' wave_validators 5 = Inr False \<and>
   handleReceivedVote (\<lambda>h. 32) (Some (forged_vote 5 [] ''wave-validator1'')) ''wave-validator1'' (NewWaveConsensus ''validator2'' wave_validators)
     = Inr (NewWaveConsensus ''validator2'' wave_validators, [])"
  using unlisted_wave_node_ignored[of "''wave-validator1''" 5 "NewWaveConsensus ''validator2'' wave_validators" "''a:1''" "''a:1''" "[]" 0
      "forged_vote 5 [] ''wave-validator1''" "\<lambda>h. 32" "''wave-validator1''"]
  by (simp add: NewWaveConsensus_def wave_main_def NewWaveNode_def forged_vote_def)

end
