(* ===== verification/Dag_Node.thy ===== *)
theory Dag_Node
  imports Wave_Node
begin

text \<open>
  The process around \<open>internal/dag/dag_sync.go\<close>: start-up, the connections and the HTTP routes of
  DAG sync, and the command \<open>cmd/dagsync/main.go\<close>.  The properties compose two nodes: a block made
  by one, sent over a connection and handled by the other.
\<close>

section \<open>Connections\<close>

text \<open>\<open>connectToPeers\<close> tries each peer until a dial succeeds: \<open>tries\<close> are the outcomes for one peer,
  one every two seconds.\<close>

fun sync_connect_loop :: "string \<Rightarrow> nat option list \<Rightarrow> dag_sync \<Rightarrow> dag_sync" where
  "sync_connect_loop peerAddr [] ds = ds"
| "sync_connect_loop peerAddr (d # dials) ds = (case connectToPeer peerAddr d ds of
     None \<Rightarrow> sync_connect_loop peerAddr dials ds | Some ds' \<Rightarrow> ds')"

definition sync_connectToPeers :: "(string \<Rightarrow> nat option list) \<Rightarrow> dag_sync \<Rightarrow> dag_sync" where
  "sync_connectToPeers tries ds = fold (\<lambda>p. sync_connect_loop p (tries p)) (sy_peers ds) ds"

text \<open>\<open>Start\<close>: an error of the listener, or the look at the connections after which the rounds
  start; the HTTP server reports its errors to the log only.\<close>

definition sync_Start :: "bool \<Rightarrow> nat \<Rightarrow> (nat \<Rightarrow> dag_sync) \<Rightarrow> string + nat option" where
  "sync_Start listen fuel obs =
     (if \<not> listen then Inl ''failed to start listener''
      else if length (sy_peers (obs 0)) > 0 then Inr (waitForAllPeers fuel 0 obs)
      else Inr (Some 0))"

text \<open>\<open>handleConnection\<close>: messages are handled until one does not decode; each comes with the
  order in which the clean-up of the DAG ranges over it.\<close>

fun sync_handleConnection :: "header_digest \<Rightarrow> hash \<Rightarrow> (hash list \<times> dag_message option) list \<Rightarrow> sync_world \<Rightarrow> go_panic + sync_world" where
  "sync_handleConnection H null [] w = Inr w"
| "sync_handleConnection H null ((ord, None) # ms) w = Inr w"
| "sync_handleConnection H null ((ord, Some m) # ms) w = (case handleDAGMessage H null ord m w of
     Inl p \<Rightarrow> Inl p
   | Inr w' \<Rightarrow> sync_handleConnection H null ms w')"

section \<open>The HTTP interface\<close>

record dag_stats =
  dst_blocks :: nat
  dst_height :: u64
  dst_round :: u64
  dst_connected :: nat
  dst_per_round :: "(string, nat) gomap"
  dst_validator :: address
  dst_listen :: string
  dst_peers :: "string list"

definition handleGetDAGStats :: "u64 list \<Rightarrow> dag_sync \<Rightarrow> dag_stats" where
  "handleGetDAGStats ordr ds = \<lparr>dst_blocks = dag_GetBlockCount (sy_dag ds), dst_height = dag_GetHeight (sy_dag ds),
     dst_round = sy_currentRound ds, dst_connected = glen (sy_connections ds), dst_per_round = round_counts ordr ds,
     dst_validator = sy_validatorID ds, dst_listen = sy_listenAddr ds, dst_peers = sy_peers ds\<rparr>"

definition handleRoot :: "dag_sync \<Rightarrow> address \<times> string \<times> string" where
  "handleRoot ds = (sy_validatorID ds, sy_listenAddr ds, sy_httpAddr ds)"

text \<open>The wave is always reported as zero.\<close>

definition handleGetConsensusWave :: "dag_sync \<Rightarrow> nat \<times> u64 \<times> nat \<times> u64" where
  "handleGetConsensusWave ds = (0, sy_currentRound ds, dag_GetBlockCount (sy_dag ds), dag_GetHeight (sy_dag ds))"

datatype sync_answer =
    CorsOk | InvalidCount | RootInfo "address \<times> string \<times> string" | BlockList "block_view list" | StatusInfo sync_status
  | StatsInfo dag_stats | TxList "(bref \<times> tref) list" | ValidatorList "validator_view list" | WaveInfo "nat \<times> u64 \<times> nat \<times> u64"

definition counted :: "('a \<Rightarrow> sync_answer) \<Rightarrow> go_panic + 'a option \<Rightarrow> go_panic + sync_answer" where
  "counted f r = map_sum id (\<lambda>x. case x of None \<Rightarrow> InvalidCount | Some y \<Rightarrow> f y) r"

text \<open>A request that passed the CORS handler.  The router compares the path; the pattern \<open>/\<close> takes
  every other path.  The orders are those of the ranges over the DAG, rounds and validators.\<close>

definition sync_ServeHTTP ::
  "header_digest \<Rightarrow> block_heap \<Rightarrow> hash list \<Rightarrow> u64 list \<Rightarrow> address list \<Rightarrow> int \<Rightarrow> string \<Rightarrow> string \<Rightarrow> string \<Rightarrow> dag_sync \<Rightarrow> go_panic + sync_answer" where
  "sync_ServeHTTP H hp ord ordr ordv now httpMethod path countStr ds =
     (if httpMethod = ''OPTIONS'' then Inr CorsOk
      else if path = ''/blocks'' then counted BlockList (handleGetBlocks H hp ord ds countStr)
      else if path = ''/status'' then Inr (StatusInfo (GetDAGStatus ordr ds))
      else if path = ''/dag/stats'' then Inr (StatsInfo (handleGetDAGStats ordr ds))
      else if path = ''/transactions'' then counted TxList (sync_handleGetTransactions hp ord ds countStr)
      else if path = ''/validators'' then map_sum id ValidatorList (handleGetValidators hp ord ordv now ds)
      else if path = ''/consensus/wave'' then Inr (WaveInfo (handleGetConsensusWave ds))
      else Inr (RootInfo (handleRoot ds)))"

section \<open>The command\<close>

definition dagsync_main :: "address \<Rightarrow> string \<Rightarrow> string \<Rightarrow> dag_sync" where
  "dagsync_main validatorID listenAddr peersStr = NewDAGSync validatorID listenAddr (parse_peers peersStr) 1000000000"

section \<open>Lemmas\<close>

text \<open>Steps never drop a connection.\<close>

lemma sync_step_connections: "sync_step H null w w' \<Longrightarrow> gkeys (sy_connections (sw_node w)) \<subseteq> gkeys (sy_connections (sw_node w'))"
proof (induction rule: sync_step.induct)
  case (sync_create w xs r ys E w')
  then show ?case
    using createRoundBlock_eq(5)[OF sync_create(2)] by (simp add: cleanup_rounds_def track_block_def)
next
  case (sync_receive ord msg w w')
  then show ?case
    by (auto simp: handleDAGMessage_def handleReceivedBlock_def Let_def track_block_def
        split: if_splits option.splits wire_block.splits sum.splits)
qed (auto simp: advanceRound_def submit_tx_def AddPendingTransaction_def connectToPeer_def)

lemma connect_loop_keys:
  "gkeys (sy_connections (sync_connect_loop p dials ds)) = gkeys (sy_connections ds) \<union> (if \<exists>c. Some c \<in> set dials then {p} else {})
   \<and> sy_peers (sync_connect_loop p dials ds) = sy_peers ds"
  by (induction dials) (auto simp: connectToPeer_def split: option.splits)

text \<open>What a broadcast block is to the node that receives it first.\<close>

lemma received_block_tracked:
  assumes "dag_GetBlock (sy_dag (sw_node w)) (block_ComputeHash H blk) = Inl e" "dm_type m = ''block''" "dm_block m = Some (WithHeader blk)"
    and "handleDAGMessage H null ord m w = Inr w'"
  shows "sw_heap w' (sw_next w) = blk" "sw_next w \<in> set (GetBlocksForRound (sw_node w') (hdr_round (blk_header blk)))"
  using assms by (auto simp: handleDAGMessage_def handleReceivedBlock_def Let_def GetBlocksForRound_slice track_block_def)

section \<open>Properties\<close>


text \<open>A connection that is lost stays on record.  A message that does not decode ends the
  handling of a connection, and what follows it is not read; but whatever a node does
  afterwards, the peer remains among the connections, so \<open>waitForAllPeers\<close> and the status still
  count it, and its dialling loop has ended.\<close>

theorem lost_peer_stays_connected:
  assumes "p \<in> gkeys (sy_connections (sw_node w))" "sync_handleConnection H null ((ord, None) # ms) w = Inr w1"
    and "(sync_step H null)\<^sup>*\<^sup>* w1 w2"
  shows "w1 = w \<and> p \<in> gkeys (sy_connections (sw_node w2))"
proof -
  have "p \<in> gkeys (sy_connections (sw_node w2))" if "p \<in> gkeys (sy_connections (sw_node w1))"
    using assms(3) that by (induction rule: rtranclp_induct) (auto dest!: sync_step_connections)
  then show ?thesis
    using assms(1,2) by simp
qed

text \<open>The dialling loops together: a peer is connected exactly when one of its dials succeeds, and
  \<open>Start\<close> needs every peer.\<close>

lemma sync_connectToPeers_keys:
  "gkeys (sy_connections (sync_connectToPeers tries ds)) = gkeys (sy_connections ds) \<union> {p \<in> set (sy_peers ds). \<exists>c. Some c \<in> set (tries p)}"
proof -
  have "gkeys (sy_connections (fold (\<lambda>p. sync_connect_loop p (tries p)) ps ds)) =
      gkeys (sy_connections ds) \<union> {p \<in> set ps. \<exists>c. Some c \<in> set (tries p)}" for ps
    by (induction ps arbitrary: ds) (auto simp: connect_loop_keys)
  then show ?thesis
    by (simp add: sync_connectToPeers_def)
qed

section \<open>Witnesses\<close>

text \<open>A node with one connection; its block of round two goes to the node that holds a block of
  round one.\<close>

abbreviation by_name :: header_digest where
  "by_name \<equiv> \<lambda>h. [word_of_nat (length (hdr_validator h))]"

definition linked_node :: sync_world where
  "linked_node = (sync_start ''aa'' ''0.0.0.0:4001'' [''p''] 1 (\<lambda>_. round_one_block) (\<lambda>_. generated_tx ''u'' 0 (\<lambda>i. 0) 0))
     \<lparr>sw_node := (NewDAGSync ''aa'' ''0.0.0.0:4001'' [''p''] 1)\<lparr>sy_connections := [(''p'', 1)]\<rparr>\<rparr>"

definition linked_env :: sync_env where
  "linked_env = plain_env\<lparr>sv_recent := [], sv_peers := [''p'']\<rparr>"

lemma linked_creates:
  "\<exists>wA' m. createRoundBlock by_name linked_env 2 linked_node = Inr wA' \<and>
     (''p'', m) \<in> set (drop (length (sw_sent linked_node)) (sw_sent wA')) \<and>
     dm_type m = ''block'' \<and> dm_block m = Some (WithHeader (sw_heap wA' 0)) \<and> block_ComputeHash by_name (sw_heap wA' 0) = [2]"
proof -
  have refs: "getPreviousRoundReferences by_name (sw_heap linked_node) [] (sw_node linked_node) 1 = Inr []"
    by (simp add: getPreviousRoundReferences_def linked_node_def NewDAGSync_def dag_NewDAG_def dag_GetRecentBlocks_def
        slice_at_def gget_def go_prefix_def Let_def)
  show ?thesis
    using refs by (auto simp: createRoundBlock_def linked_env_def plain_env_def Let_def case_prod_beta sync_broadcastBlock_def
        cleanup_rounds_def track_block_def linked_node_def sync_start_def NewDAGSync_def generateTransactions_node
        gget_def range_items_def map_filter_simps block_ComputeHash_def)
qed


theorem lost_peer_stays_connected_witness:
  "sync_handleConnection by_name [] [([], None), ([], None)] linked_node = Inr linked_node \<and>
   ''p'' \<in> gkeys (sy_connections (sw_node (submit_tx (generated_tx ''u'' 0 (\<lambda>i. 0) 0) linked_node)))"
proof -
  let ?w = "submit_tx (generated_tx ''u'' 0 (\<lambda>i. 0) 0) linked_node"
  have "(sync_step by_name [])\<^sup>*\<^sup>* linked_node ?w"
    by (rule r_into_rtranclp) (rule sync_submit)
  moreover have "''p'' \<in> gkeys (sy_connections (sw_node linked_node))"
    by (simp add: linked_node_def gkeys_def)
  ultimately show ?thesis
    using lost_peer_stays_connected[of "''p''" linked_node by_name "[]" "[]" "[([], None)]" linked_node ?w] by simp
qed

end
