(* ===== verification/Evm_Rpc.thy ===== *)
theory Evm_Rpc
  imports Evm_Gas
begin

text \<open>
  \<open>internal/api/rpc.go\<close> and \<open>internal/evm/keystore.go\<close>: the JSON-RPC server in front of the EVM
  executor.  A request is answered by a function of the server; getters may create accounts,
  so the server is returned.  The channel \<open>pendingTxChan\<close> is a list of at most 1000 entries, and
  taking one entry is one step of \<open>ProcessPendingTransactions\<close>.  The text forms of go-ethereum
  (\<open>hexutil\<close>, \<open>HexToAddress\<close>, \<open>Hex\<close>) and its cryptography are arguments.
\<close>

section \<open>The key store\<close>

record 'key key_pair =
  kp_private :: 'key
  kp_address :: eaddress

type_synonym 'key keystore = "(eaddress, 'key key_pair) gomap"

definition NewKeystore :: "'key keystore" where
  "NewKeystore = []"

text \<open>\<open>gen\<close> is the result of \<open>crypto.GenerateKey\<close>, \<open>addr_of\<close> is \<open>crypto.PubkeyToAddress\<close>.\<close>

definition GenerateKeyPair :: "('key \<Rightarrow> eaddress) \<Rightarrow> 'key option \<Rightarrow> 'key key_pair option" where
  "GenerateKeyPair addr_of gen = map_option (\<lambda>k. \<lparr>kp_private = k, kp_address = addr_of k\<rparr>) gen"

definition NewKeyPairFromPrivateKey :: "('key \<Rightarrow> eaddress) \<Rightarrow> (string \<Rightarrow> 'key option) \<Rightarrow> string \<Rightarrow> 'key key_pair option" where
  "NewKeyPairFromPrivateKey addr_of to_key s = (case to_key s of
     None \<Rightarrow> None | Some k \<Rightarrow> Some \<lparr>kp_private = k, kp_address = addr_of k\<rparr>)"

definition ks_AddKey :: "'key key_pair \<Rightarrow> 'key keystore \<Rightarrow> 'key keystore" where
  "ks_AddKey kp ks = gput (kp_address kp) kp ks"

definition ks_GenerateAndAddKey :: "('key \<Rightarrow> eaddress) \<Rightarrow> 'key option \<Rightarrow> 'key keystore \<Rightarrow> 'key key_pair option \<times> 'key keystore" where
  "ks_GenerateAndAddKey addr_of gen ks = (case GenerateKeyPair addr_of gen of
     None \<Rightarrow> (None, ks) | Some kp \<Rightarrow> (Some kp, ks_AddKey kp ks))"

definition ks_GetKey :: "'key keystore \<Rightarrow> eaddress \<Rightarrow> 'key key_pair option" where
  "ks_GetKey ks a = gget ks a"

definition ks_ListAddresses :: "eaddress list \<Rightarrow> 'key keystore \<Rightarrow> eaddress list" where
  "ks_ListAddresses ord ks = map fst (range_items ord ks)"

text \<open>\<open>CreateTestAccounts\<close>: \<open>gens\<close> are the results of the successive key generations; an error
  leaves the balances set before it.\<close>

fun CreateTestAccounts ::
  "('key \<Rightarrow> eaddress) \<Rightarrow> 'key option list \<Rightarrow> int \<Rightarrow> evm_state \<Rightarrow> 'key key_pair list option \<times> evm_state" where
  "CreateTestAccounts addr_of [] initialBalance s = (Some [], s)"
| "CreateTestAccounts addr_of (gen # gens) initialBalance s = (case GenerateKeyPair addr_of gen of
     None \<Rightarrow> (None, s)
   | Some kp \<Rightarrow>
       let (rest, s') = CreateTestAccounts addr_of gens initialBalance (es_SetBalance (kp_address kp) initialBalance s)
       in (map_option (Cons kp) rest, s'))"

text \<open>Signing: the go-ethereum transaction the code builds, \<open>types.SignTx\<close> and
  \<open>RawSignatureValues\<close> as the numbers \<open>(v, r, s)\<close>, the hash of the EIP-155 signer, and
  \<open>crypto.SigToPub\<close>.  \<open>big.Int.Bytes\<close> is big-endian without leading zeros.\<close>

record eth_tx =
  xt_nonce :: u64
  xt_to :: "eaddress option"
  xt_value :: int
  xt_gas :: u64
  xt_price :: int
  xt_data :: "byte list"

record 'key eth_crypto =
  cr_SignTx :: "eth_tx \<Rightarrow> int \<Rightarrow> 'key \<Rightarrow> (int \<times> int \<times> int) option"
  cr_signer_Hash :: "int \<Rightarrow> eth_tx \<Rightarrow> hash"
  cr_SigToPub :: "hash \<Rightarrow> byte list \<Rightarrow> byte list option"
  cr_PubkeyToAddress :: "byte list \<Rightarrow> eaddress"

definition ToEthTransaction :: "evm_tx \<Rightarrow> eth_tx" where
  "ToEthTransaction tx = \<lparr>xt_nonce = et_nonce tx, xt_to = et_to tx, xt_value = et_value tx, xt_gas = et_gas_limit tx,
     xt_price = et_gas_price tx, xt_data = et_data tx\<rparr>"

fun nat_bytes :: "nat \<Rightarrow> byte list" where
  "nat_bytes n = (if n = 0 then [] else nat_bytes (n div 256) @ [word_of_nat n])"

declare nat_bytes.simps [simp del]

definition big_Bytes :: "int \<Rightarrow> byte list" where
  "big_Bytes x = nat_bytes (nat \<bar>x\<bar>)"

definition kp_SignTransaction :: "'key eth_crypto \<Rightarrow> 'key key_pair \<Rightarrow> evm_tx \<Rightarrow> int \<Rightarrow> byte list option" where
  "kp_SignTransaction C kp tx chainID = (case cr_SignTx C (ToEthTransaction tx) chainID (kp_private kp) of
     None \<Rightarrow> None
   | Some (v, r, s) \<Rightarrow> Some ((big_Bytes r @ big_Bytes s) @ [word_of_int \<bar>v\<bar>]))"

definition evm_VerifySignature :: "'key eth_crypto \<Rightarrow> evm_tx \<Rightarrow> byte list \<Rightarrow> int \<Rightarrow> eaddress option" where
  "evm_VerifySignature C tx signature chainID =
     (let hash = cr_signer_Hash C chainID (ToEthTransaction tx)
      in case cr_SigToPub C hash signature of None \<Rightarrow> None | Some pub \<Rightarrow> Some (cr_PubkeyToAddress C pub))"

definition SignTransactionWithAddress :: "'key eth_crypto \<Rightarrow> 'key keystore \<Rightarrow> evm_tx \<Rightarrow> eaddress \<Rightarrow> int \<Rightarrow> byte list option" where
  "SignTransactionWithAddress C ks tx a chainID = (case ks_GetKey ks a of
     None \<Rightarrow> None | Some kp \<Rightarrow> kp_SignTransaction C kp tx chainID)"

section \<open>Requests and answers\<close>

datatype json = JNull | JBool bool | JNum int | JStr string | JArr "json list" | JObj "(string \<times> json) list"

fun json_str :: "json option \<Rightarrow> string option" where
  "json_str (Some (JStr s)) = Some s"
| "json_str x = None"

record rpc_request =
  rq_id :: json
  rq_method :: string
  rq_params :: "json list"

record tx_receipt =
  tr_hash :: string
  tr_block_number :: string
  tr_from :: string
  tr_to :: string
  tr_gas_used :: string
  tr_contract :: string
  tr_status :: string

datatype rpc_result = RNull | RText string | RTexts "string list" | RReceipt tx_receipt | RBlock string string

record rpc_response =
  rp_id :: json
  rp_result :: rpc_result
  rp_error :: "(int \<times> string) option"

record eth_codec =
  hx_DecodeBig :: "string \<Rightarrow> string + int"
  hx_DecodeUint64 :: "string \<Rightarrow> string + u64"
  hx_Decode :: "string \<Rightarrow> string + byte list"
  hx_EncodeBig :: "int \<Rightarrow> string"
  hx_EncodeUint64 :: "u64 \<Rightarrow> string"
  hx_Encode :: "byte list \<Rightarrow> string"
  hx_HexToAddress :: "string \<Rightarrow> eaddress"
  hx_address :: "eaddress \<Rightarrow> string"
  hx_hash :: "hash \<Rightarrow> string"
  hx_error :: "evm_error \<Rightarrow> string"
  hx_decimal :: "int \<Rightarrow> string"

record 'key rpc_server =
  rs_executor :: evm_executor
  rs_keystore :: "'key keystore"
  rs_chainID :: int
  rs_currentBlockNum :: int
  rs_pendingTxs :: "(string, evm_tx) gomap"
  rs_txReceipts :: "(string, tx_receipt) gomap"
  rs_pendingTxChan :: "evm_tx list"

definition NewEVMRPCServer :: "evm_executor \<Rightarrow> 'key keystore \<Rightarrow> int \<Rightarrow> 'key rpc_server" where
  "NewEVMRPCServer e ks chainID = \<lparr>rs_executor = e, rs_keystore = ks, rs_chainID = chainID, rs_currentBlockNum = 1,
     rs_pendingTxs = [], rs_txReceipts = [], rs_pendingTxChan = []\<rparr>"

definition writeErrorResponse :: "json \<Rightarrow> int \<Rightarrow> string \<Rightarrow> rpc_response" where
  "writeErrorResponse i code message = \<lparr>rp_id = i, rp_result = RNull, rp_error = Some (code, message)\<rparr>"

definition ok_response :: "rpc_request \<Rightarrow> rpc_result \<Rightarrow> rpc_response" where
  "ok_response req r = \<lparr>rp_id = rq_id req, rp_result = r, rp_error = None\<rparr>"

text \<open>A read of the executor's state, which is kept.\<close>

definition on_state :: "(evm_state \<Rightarrow> 'a \<times> evm_state) \<Rightarrow> 'key rpc_server \<Rightarrow> 'a \<times> 'key rpc_server" where
  "on_state f s = (let (x, st) = f (evm_GetState (rs_executor s)) in (x, s\<lparr>rs_executor := (rs_executor s)\<lparr>ex_state := st\<rparr>\<rparr>))"

section \<open>Parsing\<close>

definition opt_field :: "(string, json) gomap \<Rightarrow> string \<Rightarrow> string option" where
  "opt_field params k = json_str (gget params k)"

definition parse_to :: "eth_codec \<Rightarrow> (string, json) gomap \<Rightarrow> eaddress option" where
  "parse_to K params = (case opt_field params ''to'' of
     None \<Rightarrow> None | Some t \<Rightarrow> if t \<noteq> [] then Some (hx_HexToAddress K t) else None)"

definition parse_with :: "(string \<Rightarrow> string + 'a) \<Rightarrow> string \<Rightarrow> 'a \<Rightarrow> string option \<Rightarrow> string + 'a" where
  "parse_with dec what dflt f = (case f of
     None \<Rightarrow> Inr dflt
   | Some s \<Rightarrow> (case dec s of Inl e \<Rightarrow> Inl (what @ e) | Inr x \<Rightarrow> Inr x))"

definition parseTransaction :: "eth_codec \<Rightarrow> u64 \<Rightarrow> (string, json) gomap \<Rightarrow> 'key rpc_server \<Rightarrow> (string + evm_tx) \<times> 'key rpc_server" where
  "parseTransaction K now params s = (case opt_field params ''from'' of
     None \<Rightarrow> (Inl ''missing from address'', s)
   | Some fromStr \<Rightarrow>
       let from = hx_HexToAddress K fromStr
       in (case parse_with (hx_DecodeBig K) ''invalid value: '' 0 (opt_field params ''value'') of Inl e \<Rightarrow> (Inl e, s) | Inr value \<Rightarrow>
          (case parse_with (hx_DecodeUint64 K) ''invalid gas: '' 21000 (opt_field params ''gas'') of Inl e \<Rightarrow> (Inl e, s) | Inr gasLimit \<Rightarrow>
          (case parse_with (hx_DecodeBig K) ''invalid gas price: '' 1000000000 (opt_field params ''gasPrice'') of Inl e \<Rightarrow> (Inl e, s) | Inr gasPrice \<Rightarrow>
          (case parse_with (hx_Decode K) ''invalid data: '' [] (opt_field params ''data'') of Inl e \<Rightarrow> (Inl e, s) | Inr bytes \<Rightarrow>
           let (nonce, s1) = on_state (es_GetNonce from) s
           in (Inr \<lparr>et_from = from, et_to = parse_to K params, et_value = value, et_gas_price = gasPrice,
                    et_gas_limit = gasLimit, et_nonce = nonce, et_data = bytes, et_time = now,
                    et_hash = zero_hash, et_signature = []\<rparr>, s1))))))"

definition parseCall :: "eth_codec \<Rightarrow> u64 \<Rightarrow> (string, json) gomap \<Rightarrow> string + evm_tx" where
  "parseCall K now params =
     (let from = (case opt_field params ''from'' of None \<Rightarrow> replicate 20 0 | Some f \<Rightarrow> hx_HexToAddress K f)
      in (case parse_with (hx_DecodeBig K) ''invalid value: '' 0 (opt_field params ''value'') of Inl e \<Rightarrow> Inl e | Inr value \<Rightarrow>
         (case parse_with (hx_Decode K) ''invalid data: '' [] (opt_field params ''data'') of Inl e \<Rightarrow> Inl e | Inr bytes \<Rightarrow>
          Inr \<lparr>et_from = from, et_to = parse_to K params, et_value = value, et_gas_price = 1000000000,
               et_gas_limit = 1000000, et_nonce = 0, et_data = bytes, et_time = now, et_hash = zero_hash, et_signature = []\<rparr>)))"

definition validateTransactionBasic :: "evm_tx \<Rightarrow> 'key rpc_server \<Rightarrow> string option \<times> 'key rpc_server" where
  "validateTransactionBasic tx s =
     (let (balance, s1) = on_state (es_GetBalance (et_from tx)) s;
          gasCost = uint (et_gas_limit tx) * et_gas_price tx;
          totalCost = gasCost + et_value tx
      in if balance < totalCost then (Some ''insufficient funds for gas * price + value'', s1) else (None, s1))"

section \<open>The methods\<close>

text \<open>The first parameter as an address, or the two errors of the getters.\<close>

definition with_text :: "string \<Rightarrow> rpc_request \<Rightarrow> (string \<Rightarrow> 'key rpc_server \<Rightarrow> rpc_result \<times> 'key rpc_server)
    \<Rightarrow> 'key rpc_server \<Rightarrow> rpc_response \<times> 'key rpc_server" where
  "with_text what req f s = (case rq_params req of
     [] \<Rightarrow> (writeErrorResponse (rq_id req) (-32602) ''Invalid params'', s)
   | p # _ \<Rightarrow> (case json_str (Some p) of
       None \<Rightarrow> (writeErrorResponse (rq_id req) (-32602) what, s)
     | Some x \<Rightarrow> let (r, s1) = f x s in (ok_response req r, s1)))"

definition rpc_chainId :: "eth_codec \<Rightarrow> rpc_request \<Rightarrow> 'key rpc_server \<Rightarrow> rpc_response" where
  "rpc_chainId K req s = ok_response req (RText (hx_EncodeBig K (rs_chainID s)))"

definition rpc_accounts :: "eth_codec \<Rightarrow> eaddress list \<Rightarrow> rpc_request \<Rightarrow> 'key rpc_server \<Rightarrow> rpc_response" where
  "rpc_accounts K ord req s = ok_response req (RTexts (map (hx_address K) (ks_ListAddresses ord (rs_keystore s))))"

definition rpc_getBalance :: "eth_codec \<Rightarrow> rpc_request \<Rightarrow> 'key rpc_server \<Rightarrow> rpc_response \<times> 'key rpc_server" where
  "rpc_getBalance K req = with_text ''Invalid address'' req (\<lambda>a s.
     let (b, s1) = on_state (es_GetBalance (hx_HexToAddress K a)) s in (RText (hx_EncodeBig K b), s1))"

definition rpc_getTransactionCount :: "eth_codec \<Rightarrow> rpc_request \<Rightarrow> 'key rpc_server \<Rightarrow> rpc_response \<times> 'key rpc_server" where
  "rpc_getTransactionCount K req = with_text ''Invalid address'' req (\<lambda>a s.
     let (n, s1) = on_state (es_GetNonce (hx_HexToAddress K a)) s in (RText (hx_EncodeUint64 K n), s1))"

definition rpc_getCode :: "eth_codec \<Rightarrow> rpc_request \<Rightarrow> 'key rpc_server \<Rightarrow> rpc_response \<times> 'key rpc_server" where
  "rpc_getCode K req = with_text ''Invalid address'' req (\<lambda>a s.
     let (c, s1) = on_state (es_GetCode (hx_HexToAddress K a)) s in (RText (hx_Encode K c), s1))"

definition rpc_getTransactionReceipt :: "rpc_request \<Rightarrow> 'key rpc_server \<Rightarrow> rpc_response \<times> 'key rpc_server" where
  "rpc_getTransactionReceipt req = with_text ''Invalid transaction hash'' req (\<lambda>h s.
     (case gget (rs_txReceipts s) h of None \<Rightarrow> RNull | Some r \<Rightarrow> RReceipt r, s))"

definition with_params :: "string \<Rightarrow> rpc_request \<Rightarrow> ((string, json) gomap \<Rightarrow> 'key rpc_server \<Rightarrow> rpc_response \<times> 'key rpc_server)
    \<Rightarrow> 'key rpc_server \<Rightarrow> rpc_response \<times> 'key rpc_server" where
  "with_params what req f s = (case rq_params req of
     [] \<Rightarrow> (writeErrorResponse (rq_id req) (-32602) ''Invalid params'', s)
   | JObj ps # _ \<Rightarrow> f ps s
   | _ # _ \<Rightarrow> (writeErrorResponse (rq_id req) (-32602) what, s))"

text \<open>A full channel drops the transaction; it stays in \<open>pendingTxs\<close>.\<close>

definition send_tx :: "eth_codec \<Rightarrow> evm_env \<Rightarrow> evm_tx \<Rightarrow> 'key rpc_server \<Rightarrow> string \<times> 'key rpc_server" where
  "send_tx K E tx s =
     (let txHash = evm_CreateHash (ev_keccak E) tx; tx1 = tx\<lparr>et_hash := txHash\<rparr>;
          s1 = s\<lparr>rs_pendingTxs := gput (hx_hash K txHash) tx1 (rs_pendingTxs s)\<rparr>;
          s2 = (if length (rs_pendingTxChan s1) < 1000 then s1\<lparr>rs_pendingTxChan := rs_pendingTxChan s1 @ [tx1]\<rparr> else s1)
      in (hx_hash K txHash, s2))"

definition rpc_sendTransaction :: "eth_codec \<Rightarrow> evm_env \<Rightarrow> u64 \<Rightarrow> rpc_request \<Rightarrow> 'key rpc_server \<Rightarrow> rpc_response \<times> 'key rpc_server" where
  "rpc_sendTransaction K E now req = with_params ''Invalid transaction params'' req (\<lambda>ps s.
     case parseTransaction K now ps s of
       (Inl e, s1) \<Rightarrow> (writeErrorResponse (rq_id req) (-32602) e, s1)
     | (Inr tx, s1) \<Rightarrow> (case validateTransactionBasic tx s1 of
         (Some e, s2) \<Rightarrow> (writeErrorResponse (rq_id req) (-32602) e, s2)
       | (None, s2) \<Rightarrow> let (h, s3) = send_tx K E tx s2 in (ok_response req (RText h), s3)))"

text \<open>\<open>eth_call\<close> runs on a copy of the state.\<close>

definition rpc_call :: "eth_codec \<Rightarrow> evm_env \<Rightarrow> u64 \<Rightarrow> rpc_request \<Rightarrow> 'key rpc_server \<Rightarrow> rpc_response \<times> 'key rpc_server" where
  "rpc_call K E now req = with_params ''Invalid call params'' req (\<lambda>ps s.
     case parseCall K now ps of
       Inl e \<Rightarrow> (writeErrorResponse (rq_id req) (-32602) e, s)
     | Inr tx \<Rightarrow>
         let executor = NewEVMExecutor (es_Copy (evm_GetState (rs_executor s))) 1000000000;
             result = fst (evm_ExecuteTransaction E tx executor)
         in (if \<not> er_success result
             then writeErrorResponse (rq_id req) (-32000) (case er_error result of None \<Rightarrow> [] | Some e \<Rightarrow> hx_error K e)
             else ok_response req (RText (hx_Encode K (er_return result))), s))"

definition gas_estimate :: "evm_tx \<Rightarrow> u64" where
  "gas_estimate tx =
     (let g = (case et_to tx of
          None \<Rightarrow> if length (et_data tx) > 0 then 53000 + word_of_nat (length (et_data tx)) * 200 + 32000 else 53000
        | Some _ \<Rightarrow> if length (et_data tx) > 0
            then fold (\<lambda>b g. if b = 0 then g + 4 else g + 16) (et_data tx) 21000 + 2300 else 21000);
          g = g * 125 div 100;
          g = (if g < 21000 then 21000 else g)
      in if g > 8000000 then 8000000 else g)"

definition rpc_estimateGas :: "eth_codec \<Rightarrow> u64 \<Rightarrow> rpc_request \<Rightarrow> 'key rpc_server \<Rightarrow> rpc_response \<times> 'key rpc_server" where
  "rpc_estimateGas K now req = with_params ''Invalid transaction params'' req (\<lambda>ps s.
     case parseTransaction K now ps s of
       (Inl e, s1) \<Rightarrow> (writeErrorResponse (rq_id req) (-32602) e, s1)
     | (Inr tx, s1) \<Rightarrow> (ok_response req (RText (hx_EncodeUint64 K (gas_estimate tx))), s1))"

definition rpc_blockNumber :: "eth_codec \<Rightarrow> rpc_request \<Rightarrow> 'key rpc_server \<Rightarrow> rpc_response" where
  "rpc_blockNumber K req s = ok_response req (RText (hx_EncodeBig K (rs_currentBlockNum s)))"

text \<open>The block of \<open>getBlockByNumber\<close>: always the current number and the present time.\<close>

definition rpc_getBlockByNumber :: "eth_codec \<Rightarrow> u64 \<Rightarrow> rpc_request \<Rightarrow> 'key rpc_server \<Rightarrow> rpc_response" where
  "rpc_getBlockByNumber K now req s = ok_response req (RBlock (hx_EncodeBig K (rs_currentBlockNum s)) (hx_EncodeUint64 K now))"

definition rpc_gasPrice :: "eth_codec \<Rightarrow> rpc_request \<Rightarrow> rpc_response" where
  "rpc_gasPrice K req = ok_response req (RText (hx_EncodeBig K 1000000000))"

definition rpc_netVersion :: "eth_codec \<Rightarrow> rpc_request \<Rightarrow> 'key rpc_server \<Rightarrow> rpc_response" where
  "rpc_netVersion K req s = ok_response req (RText (hx_decimal K (rs_chainID s)))"

definition rpc_clientVersion :: "rpc_request \<Rightarrow> rpc_response" where
  "rpc_clientVersion req = ok_response req (RText ''BlazeDAG/v1.0.0'')"

definition handleRequest :: "eth_codec \<Rightarrow> evm_env \<Rightarrow> eaddress list \<Rightarrow> u64 \<Rightarrow> rpc_request \<Rightarrow> 'key rpc_server
    \<Rightarrow> rpc_response \<times> 'key rpc_server" where
  "handleRequest K E ord now req s =
     (let m = rq_method req
      in if m = ''eth_chainId'' then (rpc_chainId K req s, s)
         else if m = ''eth_accounts'' then (rpc_accounts K ord req s, s)
         else if m = ''eth_getBalance'' then rpc_getBalance K req s
         else if m = ''eth_getTransactionCount'' then rpc_getTransactionCount K req s
         else if m = ''eth_sendTransaction'' then rpc_sendTransaction K E now req s
         else if m = ''eth_call'' then rpc_call K E now req s
         else if m = ''eth_estimateGas'' then rpc_estimateGas K now req s
         else if m = ''eth_getCode'' then rpc_getCode K req s
         else if m = ''eth_blockNumber'' then (rpc_blockNumber K req s, s)
         else if m = ''eth_getBlockByNumber'' then (rpc_getBlockByNumber K now req s, s)
         else if m = ''eth_getTransactionReceipt'' then rpc_getTransactionReceipt req s
         else if m = ''eth_gasPrice'' then (rpc_gasPrice K req, s)
         else if m = ''net_version'' then (rpc_netVersion K req s, s)
         else if m = ''web3_clientVersion'' then (rpc_clientVersion req, s)
         else (writeErrorResponse (rq_id req) (-32601) ''Method not found'', s))"

text \<open>\<open>ServeHTTP\<close>: \<open>body\<close> is the decoded request, or the identifier read so far when decoding fails.\<close>

datatype http_answer = HttpOk | HttpMethodNotAllowed | HttpJson rpc_response

definition ServeHTTP :: "eth_codec \<Rightarrow> evm_env \<Rightarrow> eaddress list \<Rightarrow> u64 \<Rightarrow> string \<Rightarrow> json + rpc_request \<Rightarrow> 'key rpc_server
    \<Rightarrow> http_answer \<times> 'key rpc_server" where
  "ServeHTTP K E ord now httpMethod body s =
     (if httpMethod = ''OPTIONS'' then (HttpOk, s)
      else if httpMethod \<noteq> ''POST'' then (HttpMethodNotAllowed, s)
      else case body of
        Inl i \<Rightarrow> (HttpJson (writeErrorResponse i (-32700) ''Parse error''), s)
      | Inr req \<Rightarrow> let (r, s1) = handleRequest K E ord now req s in (HttpJson r, s1))"

section \<open>Processing\<close>

definition rpc_UpdateBlockNumber :: "int \<Rightarrow> 'key rpc_server \<Rightarrow> 'key rpc_server" where
  "rpc_UpdateBlockNumber n s = s\<lparr>rs_currentBlockNum := n, rs_executor := UpdateBlockNumber n (rs_executor s)\<rparr>"

definition receipt_of :: "eth_codec \<Rightarrow> int \<Rightarrow> evm_tx \<Rightarrow> exec_result \<Rightarrow> tx_receipt" where
  "receipt_of K blockNum tx r =
     \<lparr>tr_hash = hx_hash K (et_hash tx), tr_block_number = hx_EncodeBig K blockNum, tr_from = hx_address K (et_from tx),
      tr_to = (case et_to tx of None \<Rightarrow> [] | Some t \<Rightarrow> hx_address K t), tr_gas_used = hx_EncodeUint64 K (er_gas_used r),
      tr_contract = (if er_success r then (case er_created r of None \<Rightarrow> [] | Some a \<Rightarrow> hx_address K a) else []),
      tr_status = (if er_success r then ''0x1'' else ''0x0'')\<rparr>"

definition processSingleTransaction :: "eth_codec \<Rightarrow> evm_env \<Rightarrow> evm_tx \<Rightarrow> 'key rpc_server \<Rightarrow> 'key rpc_server" where
  "processSingleTransaction K E tx s =
     (let (r, e) = evm_ExecuteTransaction E tx (rs_executor s); h = hx_hash K (et_hash tx)
      in s\<lparr>rs_executor := e, rs_txReceipts := gput h (receipt_of K (rs_currentBlockNum s) tx r) (rs_txReceipts s),
           rs_pendingTxs := gdel h (rs_pendingTxs s)\<rparr>)"

text \<open>One round of \<open>ProcessPendingTransactions\<close>; with an empty channel it waits.\<close>

definition ProcessPendingTransactions :: "eth_codec \<Rightarrow> evm_env \<Rightarrow> 'key rpc_server \<Rightarrow> 'key rpc_server" where
  "ProcessPendingTransactions K E s = (case rs_pendingTxChan s of
     [] \<Rightarrow> s | tx # txs \<Rightarrow> processSingleTransaction K E tx (s\<lparr>rs_pendingTxChan := txs\<rparr>))"

definition rpc_GetPendingTransactions :: "string list \<Rightarrow> 'key rpc_server \<Rightarrow> evm_tx list" where
  "rpc_GetPendingTransactions ord s = range_vals ord (rs_pendingTxs s)"

section \<open>Lemmas\<close>

abbreviation server_account :: "'key rpc_server \<Rightarrow> eaddress \<Rightarrow> evm_account" where
  "server_account s a \<equiv> account_at (ex_state (rs_executor s)) a"

lemma on_state_fields [simp]:
  "rs_pendingTxs (snd (on_state f s)) = rs_pendingTxs s" "rs_txReceipts (snd (on_state f s)) = rs_txReceipts s"
  "rs_pendingTxChan (snd (on_state f s)) = rs_pendingTxChan s" "rs_currentBlockNum (snd (on_state f s)) = rs_currentBlockNum s"
  "fst (on_state f s) = fst (f (ex_state (rs_executor s)))"
  "ex_state (rs_executor (snd (on_state f s))) = snd (f (ex_state (rs_executor s)))"
  by (simp_all add: on_state_def evm_GetState_def case_prod_beta Let_def)

text \<open>What a server keeps while a request is answered.\<close>

definition same_server :: "'key rpc_server \<Rightarrow> 'key rpc_server \<Rightarrow> bool" where
  "same_server s t = ((\<forall>a. server_account s a = server_account t a) \<and> rs_pendingTxs s = rs_pendingTxs t \<and>
     rs_txReceipts s = rs_txReceipts t \<and> rs_pendingTxChan s = rs_pendingTxChan t \<and> rs_currentBlockNum s = rs_currentBlockNum t)"

lemma same_server_refl [simp]: "same_server s s"
  by (simp add: same_server_def)

lemma parseTransaction_Inr:
  assumes "parseTransaction K now ps s = (Inr tx, s1)"
  shows "same_server s1 s" "et_nonce tx = ea_nonce (server_account s (et_from tx))" "et_to tx = parse_to K ps"
    "et_from tx = hx_HexToAddress K (the (opt_field ps ''from''))"
    "parse_with (hx_Decode K) ''invalid data: '' [] (opt_field ps ''data'') = Inr (et_data tx)"
  using assms by (auto simp: parseTransaction_def Let_def case_prod_beta same_server_def split: option.splits sum.splits)

lemma parseTransaction_Inl: "parseTransaction K now ps s = (Inl e, s1) \<Longrightarrow> s1 = s"
  by (auto simp: parseTransaction_def Let_def case_prod_beta split: option.splits sum.splits)

lemma validateBasic_state: "validateTransactionBasic tx s = (e, s1) \<Longrightarrow> same_server s1 s"
  by (auto simp: validateTransactionBasic_def Let_def case_prod_beta same_server_def split: if_splits)

text \<open>An accepted \<open>eth_sendTransaction\<close>.\<close>

lemma sendTransaction_ok:
  assumes "rpc_sendTransaction K E now req s = (resp, s')" "rp_error resp = None" "rq_params req = JObj ps # rest"
  obtains tx s1 where
    "et_nonce tx = ea_nonce (server_account s (et_from tx))" "et_to tx = parse_to K ps"
    "et_from tx = hx_HexToAddress K (the (opt_field ps ''from''))"
    "parse_with (hx_Decode K) ''invalid data: '' [] (opt_field ps ''data'') = Inr (et_data tx)"
    "same_server s1 s" "send_tx K E tx s1 = (hx_hash K (evm_CreateHash (ev_keccak E) tx), s')"
    "rp_result resp = RText (hx_hash K (evm_CreateHash (ev_keccak E) tx))"
proof -
  obtain tx s0 where parsed: "parseTransaction K now ps s = (Inr tx, s0)"
    using assms by (cases "parseTransaction K now ps s"; cases "fst (parseTransaction K now ps s)")
      (auto simp: rpc_sendTransaction_def with_params_def writeErrorResponse_def)
  obtain s1 where valid: "validateTransactionBasic tx s0 = (None, s1)"
    using assms parsed by (cases "validateTransactionBasic tx s0"; cases "fst (validateTransactionBasic tx s0)")
      (auto simp: rpc_sendTransaction_def with_params_def writeErrorResponse_def)
  note p = parseTransaction_Inr[OF parsed]
  have "same_server s1 s"
    using validateBasic_state[OF valid] p(1) by (simp add: same_server_def)
  moreover have "send_tx K E tx s1 = (hx_hash K (evm_CreateHash (ev_keccak E) tx), s')"
    "rp_result resp = RText (hx_hash K (evm_CreateHash (ev_keccak E) tx))"
    using assms parsed valid
    by (auto simp: rpc_sendTransaction_def with_params_def send_tx_def Let_def ok_response_def split: if_splits)
  ultimately show ?thesis
    using that p(2-) by blast
qed

text \<open>The nonce of the sender after a call that succeeded, when the machine leaves it alone.\<close>

definition call_keeps_nonce :: "evm_env \<Rightarrow> bool" where
  "call_keeps_nonce E \<longleftrightarrow> (\<forall>ctx c t d g v s ret left err s'. ev_call E ctx c t d g v s = (ret, left, err, s') \<longrightarrow>
     ea_nonce (account_at s' c) = ea_nonce (account_at s c))"

lemma execute_call_nonce:
  assumes "call_keeps_nonce E" "et_to tx = Some t" "evm_ExecuteTransaction E tx e = (r, e')" "er_success r"
  shows "ea_nonce (account_at (ex_state e') (et_from tx)) = et_nonce tx + 1"
proof -
  note valid = execute_error(2)[OF assms(3,4)]
  define e2 where "e2 = e\<lparr>ex_state := snd (evm_validateTransaction tx (ex_state e))\<rparr>"
  have e': "ex_state e' = snd (executeInternal E e2 tx (es_Copy (ex_state e2)))"
    using assms(3,4) unfolding execute_accepted[OF valid] by (auto simp: e2_def)
  let ?s = "db_SetNonce (et_from tx) (et_nonce tx + 1) (es_Copy (ex_state e2))"
  obtain ret lo err s2 where run: "ev_call E (exec_context E e2 tx) (et_from tx) t (et_data tx) (et_gas_limit tx) (et_value tx) ?s = (ret, lo, err, s2)"
    by (metis prod_cases4)
  then have "ea_nonce (account_at s2 (et_from tx)) = et_nonce tx + 1"
    using assms(1) unfolding call_keeps_nonce_def by (fastforce simp: acc_SetNonce_def)
  then show ?thesis
    using run by (simp add: e' executeInternal_def run_vm_def assms(2) Let_def case_prod_beta deduct_gas_account)
qed

lemma process_one:
  "rs_pendingTxChan s = tx # txs \<Longrightarrow> ProcessPendingTransactions K E s = processSingleTransaction K E tx (s\<lparr>rs_pendingTxChan := txs\<rparr>)"
  by (simp add: ProcessPendingTransactions_def)

lemma processSingle_fields:
  "rs_pendingTxChan (processSingleTransaction K E tx s) = rs_pendingTxChan s"
  "rs_executor (processSingleTransaction K E tx s) = snd (evm_ExecuteTransaction E tx (rs_executor s))"
  "gget (rs_txReceipts (processSingleTransaction K E tx s)) h =
     (if h = hx_hash K (et_hash tx) then Some (receipt_of K (rs_currentBlockNum s) tx (fst (evm_ExecuteTransaction E tx (rs_executor s))))
      else gget (rs_txReceipts s) h)"
  "gget (rs_pendingTxs (processSingleTransaction K E tx s)) h =
     (if h = hx_hash K (et_hash tx) then None else gget (rs_pendingTxs s) h)"
  by (simp_all add: processSingleTransaction_def case_prod_beta Let_def)

lemma status_success: "tr_status (receipt_of K n tx r) = ''0x1'' \<longleftrightarrow> er_success r"
  "tr_status (receipt_of K n tx r) = ''0x0'' \<longleftrightarrow> \<not> er_success r"
  by (simp_all add: receipt_of_def)

lemma send_tx_room:
  "send_tx K E tx s = (h, s') \<Longrightarrow> length (rs_pendingTxChan s) < 1000 \<Longrightarrow>
     rs_pendingTxChan s' = rs_pendingTxChan s @ [tx\<lparr>et_hash := evm_CreateHash (ev_keccak E) tx\<rparr>] \<and>
     rs_executor s' = rs_executor s \<and> rs_txReceipts s' = rs_txReceipts s"
  by (auto simp: send_tx_def Let_def)

lemma evm_CreateHash_hash [simp]: "evm_CreateHash k (tx\<lparr>et_hash := h\<rparr>) = evm_CreateHash k tx"
  by (simp add: evm_CreateHash_def)

lemma evm_CreateHash_cong:
  "et_from t1 = et_from t2 \<Longrightarrow> et_to t1 = et_to t2 \<Longrightarrow> et_data t1 = et_data t2 \<Longrightarrow> evm_CreateHash k t1 = evm_CreateHash k t2"
  by (simp add: evm_CreateHash_def)

section \<open>Properties\<close>


text \<open>A signature made by the key store does not verify.  The recovery identifier \<open>v\<close> of EIP-155 is
  twice the chain identifier plus 35 or 36; its low byte is appended as it is, but
  \<open>SigToPub\<close> wants a last byte below 4.  So \<open>VerifySignature\<close> fails on every signature of
  \<open>SignTransaction\<close>, for every chain identifier whose low byte of \<open>v\<close> is not that small, the
  default 1337 among them.\<close>

theorem own_signature_rejected:
  assumes eip155: "\<And>etx c k v r s. cr_SignTx C etx c k = Some (v, r, s) \<Longrightarrow> v = 2 * c + 35 \<or> v = 2 * c + 36"
    and recovery: "\<And>h sig. sig \<noteq> [] \<Longrightarrow> 4 \<le> last sig \<Longrightarrow> cr_SigToPub C h sig = None"
    and "0 \<le> chainID" "4 \<le> (2 * chainID + 35) mod 256" "(2 * chainID + 35) mod 256 < 255"
    and "SignTransactionWithAddress C ks tx a chainID = Some sig"
  shows "evm_VerifySignature C tx sig chainID = None"
proof -
  obtain kp where kp: "kp_SignTransaction C kp tx chainID = Some sig"
    using assms(6) by (auto simp: SignTransactionWithAddress_def split: option.splits)
  then obtain v r s where v: "cr_SignTx C (ToEthTransaction tx) chainID (kp_private kp) = Some (v, r, s)"
    by (auto simp: kp_SignTransaction_def split: option.splits)
  with kp have sig: "sig = (big_Bytes r @ big_Bytes s) @ [word_of_int \<bar>v\<bar>]"
    by (simp add: kp_SignTransaction_def)
  have "(2 * chainID + 36) mod 256 = ((2 * chainID + 35) mod 256 + 1) mod 256"
    using mod_add_left_eq[of "2 * chainID + 35" 256 1] by (simp add: algebra_simps)
  then have "4 \<le> (2 * chainID + 36) mod 256"
    using assms(4,5) by (simp add: mod_pos_pos_trivial)
  then have "4 \<le> \<bar>v\<bar> mod 256"
    using eip155[OF v] assms(3,4) by auto
  then have "4 \<le> (word_of_int \<bar>v\<bar> :: byte)"
    by (simp add: word_le_def uint_word_of_int)
  then show ?thesis
    using recovery[of sig] by (simp add: sig evm_VerifySignature_def)
qed

text \<open>\<open>eth_call\<close> changes nothing on the server.  It runs with nonce zero, which the comment says
  does not matter, but the executor checks it: once an account has sent a transaction every
  call in its name is answered with the nonce error, whatever the contract.\<close>

theorem rpc_call_nonce_matters:
  assumes "rq_params req = JObj ps # rest" "parseCall K now ps = Inr tx"
  shows "snd (rpc_call K E now req s) = s \<and>
    (ea_nonce (server_account s (et_from tx)) \<noteq> 0 \<longrightarrow>
       fst (rpc_call K E now req s) = writeErrorResponse (rq_id req) (-32000) (hx_error K ErrEvmInvalidNonce))"
proof -
  have "et_nonce tx = 0"
    using assms(2) by (auto simp: parseCall_def Let_def split: option.splits sum.splits)
  then have "fst (evm_validateTransaction tx (es_Copy (ex_state (rs_executor s)))) = Some ErrEvmInvalidNonce"
    if "ea_nonce (server_account s (et_from tx)) \<noteq> 0"
    using that by (simp add: validate_error)
  then show ?thesis
    using assms by (auto simp: rpc_call_def with_params_def Let_def evm_GetState_def NewEVMExecutor_def execute_rejected failed_result_def)
qed

text \<open>(C19) Every estimate of \<open>eth_estimateGas\<close> is a gas limit the gas manager accepts, from 21000 to
  8000000, also where the arithmetic on 64 bits wraps around.\<close>

theorem rpc_estimateGas_valid:
  assumes "rpc_estimateGas K now req s = (resp, s')" "rp_error resp = None"
  shows "same_server s' s \<and> (\<exists>g. rp_result resp = RText (hx_EncodeUint64 K g) \<and> ValidateGasLimit g)"
proof -
  have bounds: "ValidateGasLimit (gas_estimate tx)" for tx
    unfolding gas_estimate_def Let_def ValidateGasLimit_def by (auto simp: not_less)
  obtain ps rest where params: "rq_params req = JObj ps # rest"
    using assms by (auto simp: rpc_estimateGas_def with_params_def writeErrorResponse_def split: list.splits json.splits)
  obtain tx s1 where parsed: "parseTransaction K now ps s = (Inr tx, s1)"
    using assms params by (cases "parseTransaction K now ps s"; cases "fst (parseTransaction K now ps s)")
      (auto simp: rpc_estimateGas_def with_params_def writeErrorResponse_def)
  have "s' = s1" "rp_result resp = RText (hx_EncodeUint64 K (gas_estimate tx))"
    using assms params parsed by (auto simp: rpc_estimateGas_def with_params_def ok_response_def)
  with parseTransaction_Inr(1)[OF parsed] bounds show ?thesis by auto
qed

lemma drain_keeps:
  fixes E :: evm_env
  assumes "\<forall>tx \<in> set (rs_pendingTxChan s). hx_hash K (et_hash tx) \<noteq> h"
  defines "s' \<equiv> ProcessPendingTransactions K E s"
  shows "gget (rs_pendingTxs s') h = gget (rs_pendingTxs s) h" "gget (rs_txReceipts s') h = gget (rs_txReceipts s) h"
    "\<forall>tx \<in> set (rs_pendingTxChan s'). hx_hash K (et_hash tx) \<noteq> h"
  using assms(1) by (cases "rs_pendingTxChan s"; auto simp: s'_def ProcessPendingTransactions_def processSingle_fields)+

text \<open>With 1000 transactions queued, \<open>eth_sendTransaction\<close> still answers with a hash, but the
  transaction is not queued.  A comment says it will be processed later; however long the
  queue is worked off, it stays pending and never gets a receipt.\<close>

theorem rpc_full_channel_strands:
  assumes "rpc_sendTransaction K E now req s = (resp, s')" "rp_error resp = None" "rq_params req = JObj ps # rest"
    and "length (rs_pendingTxChan s) = 1000" "rp_result resp = RText h"
    and "\<forall>tx \<in> set (rs_pendingTxChan s). hx_hash K (et_hash tx) \<noteq> h"
  shows "gget (rs_pendingTxs ((ProcessPendingTransactions K E ^^ n) s')) h \<noteq> None \<and>
    gget (rs_txReceipts ((ProcessPendingTransactions K E ^^ n) s')) h = gget (rs_txReceipts s) h"
proof -
  obtain tx s1 where s1: "same_server s1 s" "send_tx K E tx s1 = (hx_hash K (evm_CreateHash (ev_keccak E) tx), s')"
      "rp_result resp = RText (hx_hash K (evm_CreateHash (ev_keccak E) tx))"
    by (rule sendTransaction_ok[OF assms(1-3)])
  then have s': "rs_pendingTxChan s' = rs_pendingTxChan s" "rs_txReceipts s' = rs_txReceipts s" "gget (rs_pendingTxs s') h \<noteq> None"
    using assms(4,5) by (auto simp: send_tx_def Let_def same_server_def)
  have "gget (rs_pendingTxs ((ProcessPendingTransactions K E ^^ n) s')) h = gget (rs_pendingTxs s') h \<and>
      gget (rs_txReceipts ((ProcessPendingTransactions K E ^^ n) s')) h = gget (rs_txReceipts s') h \<and>
      (\<forall>tx \<in> set (rs_pendingTxChan ((ProcessPendingTransactions K E ^^ n) s')). hx_hash K (et_hash tx) \<noteq> h)"
  proof (induction n)
    case (Suc n)
    then show ?case
      using drain_keeps[of "(ProcessPendingTransactions K E ^^ n) s'" K h E] by simp
  qed (use assms(6) s'(1) in simp)
  then show ?thesis
    using s' by simp
qed

section \<open>Witnesses\<close>

text \<open>Texts are their own bytes, numbers are written as that many characters.\<close>

definition plain_codec :: eth_codec where
  "plain_codec = \<lparr>hx_DecodeBig = (\<lambda>s. Inr (int (length s))), hx_DecodeUint64 = (\<lambda>s. Inr (word_of_nat (length s))),
     hx_Decode = (\<lambda>s. Inr (bytes_of s)), hx_EncodeBig = (\<lambda>n. []), hx_EncodeUint64 = (\<lambda>n. []), hx_Encode = string_of_bytes,
     hx_HexToAddress = bytes_of, hx_address = string_of_bytes, hx_hash = string_of_bytes, hx_error = (\<lambda>e. ''error''),
     hx_decimal = (\<lambda>n. [])\<rparr>"

definition rich_server :: "unit rpc_server" where
  "rich_server = NewEVMRPCServer (NewEVMExecutor (es_SetBalance (bytes_of ''a'') 1000000000000000 evm_NewState) 1) NewKeystore 1337"

definition transfer_request :: "string \<Rightarrow> rpc_request" where
  "transfer_request v = \<lparr>rq_id = JNum 1, rq_method = ''eth_sendTransaction'',
     rq_params = [JObj [(''from'', JStr ''a''), (''to'', JStr ''b''), (''value'', JStr v)]]\<rparr>"

lemma sample_vm_nonce: "call_keeps_nonce sample_vm"
  by (auto simp: call_keeps_nonce_def sample_vm_def acc_AddBalance_def acc_SubBalance_def split: if_splits)


theorem rpc_call_nonce_matters_witness:
  "let s = rich_server\<lparr>rs_executor := NewEVMExecutor (es_SetNonce (bytes_of ''a'') 1 (ex_state (rs_executor rich_server))) 1\<rparr>
   in fst (rpc_call plain_codec sample_vm 0 (transfer_request ''x'') s) = writeErrorResponse (JNum 1) (-32000) ''error''"
proof -
  let ?s = "rich_server\<lparr>rs_executor := NewEVMExecutor (es_SetNonce (bytes_of ''a'') 1 (ex_state (rs_executor rich_server))) 1\<rparr>"
  let ?ps = "[(''from'', JStr ''a''), (''to'', JStr ''b''), (''value'', JStr ''x'')]"
  obtain tx where tx: "parseCall plain_codec 0 ?ps = Inr tx" "et_from tx = bytes_of ''a''"
    by (simp add: parseCall_def parse_with_def opt_field_def gget_def plain_codec_def Let_def)
  have "ea_nonce (server_account ?s (bytes_of ''a'')) \<noteq> 0"
    by code_simp
  with rpc_call_nonce_matters[of "transfer_request ''x''" ?ps "[]" plain_codec 0 tx sample_vm ?s] tx show ?thesis
    by (simp add: transfer_request_def Let_def plain_codec_def)
qed

theorem rpc_estimateGas_valid_witness:
  "\<exists>g. ValidateGasLimit g \<and>
     rp_result (fst (rpc_estimateGas plain_codec 0 (transfer_request ''x'') rich_server)) = RText (hx_EncodeUint64 plain_codec g)"
proof -
  have "rp_error (fst (rpc_estimateGas plain_codec 0 (transfer_request ''x'') rich_server)) = None"
    by code_simp
  with rpc_estimateGas_valid[of plain_codec 0 "transfer_request ''x''" rich_server] show ?thesis
    by (metis prod.collapse)
qed

text \<open>A queue filled with other transactions.\<close>

definition full_server :: "unit rpc_server" where
  "full_server = rich_server\<lparr>rs_pendingTxChan := replicate 1000 reverting_tx\<rparr>"

theorem rpc_full_channel_strands_witness:
  "\<exists>h. \<forall>n. gget (rs_pendingTxs ((ProcessPendingTransactions plain_codec sample_vm ^^ n)
      (snd (rpc_sendTransaction plain_codec sample_vm 0 (transfer_request ''x'') full_server)))) h \<noteq> None"
proof -
  let ?p = "rpc_sendTransaction plain_codec sample_vm 0 (transfer_request ''x'') full_server"
  let ?q = "rpc_sendTransaction plain_codec sample_vm 0 (transfer_request ''x'') rich_server"
  have "fst ?p = fst ?q"
    by (simp add: rpc_sendTransaction_def with_params_def transfer_request_def full_server_def parseTransaction_def
        validateTransactionBasic_def send_tx_def Let_def case_prod_beta on_state_def split: sum.split option.split)
  moreover have "rp_error (fst ?q) = None" "rp_result (fst ?q) = RText (string_of_bytes (take 32 (bytes_of ''ab'' @ zero_hash)))"
    "string_of_bytes (take 32 (bytes_of ''ab'' @ zero_hash)) \<noteq> string_of_bytes zero_hash"
    by code_simp+
  ultimately have ok: "rp_error (fst ?p) = None"
    "rp_result (fst ?p) = RText (string_of_bytes (take 32 (bytes_of ''ab'' @ zero_hash)))"
    "\<forall>tx \<in> set (rs_pendingTxChan full_server). hx_hash plain_codec (et_hash tx) \<noteq> string_of_bytes (take 32 (bytes_of ''ab'' @ zero_hash))"
    by (simp_all add: full_server_def plain_codec_def reverting_tx_def)
  have "length (rs_pendingTxChan full_server) = 1000"
    by (simp add: full_server_def)
  with rpc_full_channel_strands[of plain_codec sample_vm 0 "transfer_request ''x''" full_server "fst ?p" "snd ?p" _ "[]", OF _ ok(1) _ _ ok(2,3)]
  show ?thesis
    by (auto simp: transfer_request_def)
qed

text \<open>A scheme with the documented recovery identifiers.\<close>

definition toy_crypto :: "unit eth_crypto" where
  "toy_crypto = \<lparr>cr_SignTx = (\<lambda>etx c k. Some (2 * c + 35, 1, 1)), cr_signer_Hash = (\<lambda>c etx. zero_hash),
     cr_SigToPub = (\<lambda>h sig. if sig \<noteq> [] \<and> 4 \<le> last sig then None else Some []), cr_PubkeyToAddress = id\<rparr>"

theorem own_signature_rejected_witness:
  "let ks = ks_AddKey \<lparr>kp_private = (), kp_address = bytes_of ''a''\<rparr> NewKeystore in
   \<exists>sig. SignTransactionWithAddress toy_crypto ks reverting_tx (bytes_of ''a'') 1337 = Some sig \<and>
     evm_VerifySignature toy_crypto reverting_tx sig 1337 = None"
proof -
  let ?ks = "ks_AddKey \<lparr>kp_private = (), kp_address = bytes_of ''a''\<rparr> NewKeystore"
  obtain sig where sig: "SignTransactionWithAddress toy_crypto ?ks reverting_tx (bytes_of ''a'') 1337 = Some sig"
    by (simp add: SignTransactionWithAddress_def ks_GetKey_def ks_AddKey_def kp_SignTransaction_def toy_crypto_def)
  with own_signature_rejected[of toy_crypto 1337 ?ks reverting_tx "bytes_of ''a''" sig] show ?thesis
    by (simp add: toy_crypto_def)
qed

end
