(* ===== verification/Evm_Node.thy ===== *)
theory Evm_Node
  imports Evm_Rpc
begin

text \<open>
  \<open>cmd/evm-node/main.go\<close>: a process that serves the JSON-RPC interface alone.  The node is the
  server after \<open>main\<close> has set it up, and its run is a sequence of requests: the command starts
  no other goroutine that touches the server.
\<close>

section \<open>The command\<close>

datatype node_error = InvalidInitialBalance | TestAccountsFailed

text \<open>\<open>gens\<close> are the keys generated for the \<open>createAccounts\<close> test accounts.\<close>

definition evm_node_main :: "('key \<Rightarrow> eaddress) \<Rightarrow> 'key option list \<Rightarrow> int \<Rightarrow> string \<Rightarrow> node_error + 'key rpc_server" where
  "evm_node_main addr_of gens chainID initialBalance = (case big_SetString initialBalance of
     None \<Rightarrow> Inl InvalidInitialBalance
   | Some balance \<Rightarrow> (case CreateTestAccounts addr_of gens balance evm_NewState of
       (None, _) \<Rightarrow> Inl TestAccountsFailed
     | (Some testAccounts, state) \<Rightarrow>
         let keystore = fold ks_AddKey testAccounts NewKeystore;
             executor = NewEVMExecutor state 1000000000
         in Inr (NewEVMRPCServer executor keystore chainID)))"

text \<open>The requests a server has answered.\<close>

inductive served :: "eth_codec \<Rightarrow> evm_env \<Rightarrow> 'key rpc_server \<Rightarrow> 'key rpc_server \<Rightarrow> bool" for K E s where
  served_none: "served K E s s"
| served_one: "served K E s t \<Longrightarrow> ServeHTTP K E ord now meth body t = (a, u) \<Longrightarrow> served K E s u"

section \<open>What requests keep\<close>

definition kept :: "'key rpc_server \<Rightarrow> 'key rpc_server \<Rightarrow> bool" where
  "kept s t = ((\<forall>a. server_account t a = server_account s a) \<and> rs_txReceipts t = rs_txReceipts s \<and>
     rs_currentBlockNum t = rs_currentBlockNum s \<and> rs_keystore t = rs_keystore s)"

lemma kept_refl [simp]: "kept s s"
  by (simp add: kept_def)

lemma kept_trans [trans]: "kept s t \<Longrightarrow> kept t u \<Longrightarrow> kept s u"
  by (simp add: kept_def)

lemma kept_on_state:
  "(\<And>st a. account_at (snd (f st)) a = account_at st a) \<Longrightarrow> kept s (snd (on_state f s))"
  by (simp add: kept_def) (simp add: on_state_def case_prod_beta Let_def)

lemma kept_with_params:
  "(\<And>ps s. kept s (snd (f ps s))) \<Longrightarrow> kept s (snd (with_params what req f s))"
  by (simp add: with_params_def split: list.split json.split)

lemma kept_with_text: "(\<And>x s. kept s (snd (f x s))) \<Longrightarrow> kept s (snd (with_text what req f s))"
  by (simp add: with_text_def Let_def case_prod_beta split: list.split option.split)

lemma kept_parse: "kept s (snd (parseTransaction K now ps s))"
  by (simp add: parseTransaction_def Let_def case_prod_beta kept_on_state split: option.split sum.split)

lemma kept_validate: "kept s (snd (validateTransactionBasic tx s))"
  by (simp add: validateTransactionBasic_def Let_def case_prod_beta kept_on_state)

lemma kept_send: "kept s (snd (rpc_sendTransaction K E now req s))"
  unfolding rpc_sendTransaction_def
proof (rule kept_with_params, goal_cases)
  case (1 ps s)
  obtain x s1 where p: "parseTransaction K now ps s = (x, s1)"
    by fastforce
  then have s1: "kept s s1"
    using kept_parse[of s K now ps] by simp
  show ?case
  proof (cases x)
    case (Inr tx)
    obtain y s2 where v: "validateTransactionBasic tx s1 = (y, s2)"
      by fastforce
    have "kept s s2"
      using s1 kept_validate[of s1 tx] v by (auto intro: kept_trans)
    moreover have "kept s2 (snd (send_tx K E tx s2))"
      by (simp add: send_tx_def Let_def kept_def)
    ultimately show ?thesis
      using p v Inr by (cases y) (auto simp: case_prod_beta Let_def intro: kept_trans)
  qed (simp add: p s1)
qed

lemma kept_estimate: "kept s (snd (rpc_estimateGas K now req s))"
  unfolding rpc_estimateGas_def
proof (rule kept_with_params, goal_cases)
  case (1 ps s)
  then show ?case
    using kept_parse[of s K now ps] by (simp add: case_prod_beta split: sum.split)
qed

lemma kept_call: "kept s (snd (rpc_call K E now req s))"
  unfolding rpc_call_def by (rule kept_with_params) (simp add: Let_def split: sum.split)

lemma kept_getters:
  "kept s (snd (rpc_getBalance K req s))" "kept s (snd (rpc_getTransactionCount K req s))"
  "kept s (snd (rpc_getCode K req s))" "kept s (snd (rpc_getTransactionReceipt req s))"
  unfolding rpc_getBalance_def rpc_getTransactionCount_def rpc_getCode_def rpc_getTransactionReceipt_def
  by (rule kept_with_text, simp add: case_prod_beta Let_def kept_on_state)+

lemma kept_if: "kept s (snd x) \<Longrightarrow> kept s (snd y) \<Longrightarrow> kept s (snd (if c then x else y))"
  by simp

lemma handleRequest_kept: "kept s (snd (handleRequest K E ord now req s))"
  unfolding handleRequest_def Let_def by (intro kept_if kept_send kept_estimate kept_call kept_getters) simp_all

lemma ServeHTTP_kept: "kept s (snd (ServeHTTP K E ord now meth body s))"
  unfolding ServeHTTP_def by (intro kept_if) (simp_all add: handleRequest_kept Let_def case_prod_beta split: sum.split)

lemma served_kept: "served K E s t \<Longrightarrow> kept s t"
proof (induction rule: served.induct)
  case (served_one t ord now meth body a u)
  then show ?case
    using ServeHTTP_kept[of t K E ord now meth body] by (auto intro: kept_trans)
qed simp

section \<open>Test accounts\<close>

lemma ks_AddKeys_keys: "gkeys (fold ks_AddKey kps ks) = kp_address ` set kps \<union> gkeys ks"
  by (induction kps arbitrary: ks) (auto simp: ks_AddKey_def)

lemma CreateTestAccounts_balance:
  "CreateTestAccounts addr_of gens v s = (Some kps, s') \<Longrightarrow>
     length kps = length gens \<and> (\<forall>a. ea_balance (account_at s' a) = (if a \<in> kp_address ` set kps then v else ea_balance (account_at s a)))"
proof (induction gens arbitrary: kps s)
  case (Cons gen gens)
  then obtain kp rest where kp: "GenerateKeyPair addr_of gen = Some kp" "kps = kp # rest"
      "CreateTestAccounts addr_of gens v (es_SetBalance (kp_address kp) v s) = (Some rest, s')"
    by (auto simp: Let_def split: option.splits prod.splits)
  from Cons.IH[OF kp(3)] show ?case
    using kp(2) by (auto simp: acc_SetBalance_def)
qed simp

section \<open>Properties\<close>

text \<open>(C18) \<open>evm-node\<close> never starts the goroutine that executes transactions.  After any requests every
  test account still has its initial balance, the accounts, the block number and the receipts
  are those of the start, and the receipt of every transaction is answered with null, the
  accepted ones included.\<close>

theorem evm_node_never_executes:
  assumes "evm_node_main addr_of gens chainID initialBalance = Inr s0" "big_SetString initialBalance = Some balance"
    and "served K E s0 s"
  shows "(\<forall>a \<in> gkeys (rs_keystore s). ea_balance (server_account s a) = balance) \<and>
    (\<forall>a. server_account s a = server_account s0 a) \<and> rs_currentBlockNum s = 1 \<and> rs_txReceipts s = [] \<and>
    rp_result (fst (rpc_getTransactionReceipt req s)) = RNull"
proof -
  obtain kps st where st: "CreateTestAccounts addr_of gens balance evm_NewState = (Some kps, st)"
      and s0: "s0 = NewEVMRPCServer (NewEVMExecutor st 1000000000) (fold ks_AddKey kps NewKeystore) chainID"
    using assms(1,2) by (auto simp: evm_node_main_def Let_def split: option.splits prod.splits)
  have keys: "gkeys (rs_keystore s0) = kp_address ` set kps"
    by (simp add: s0 NewEVMRPCServer_def ks_AddKeys_keys NewKeystore_def)
  have "\<forall>a \<in> gkeys (rs_keystore s0). ea_balance (server_account s0 a) = balance"
    using CreateTestAccounts_balance[OF st] unfolding keys by (simp add: s0 NewEVMRPCServer_def NewEVMExecutor_def)
  moreover have "rs_currentBlockNum s0 = 1" "rs_txReceipts s0 = []"
    by (simp_all add: s0 NewEVMRPCServer_def)
  moreover note served_kept[OF assms(3)]
  ultimately show ?thesis
    by (auto simp: kept_def rpc_getTransactionReceipt_def with_text_def ok_response_def writeErrorResponse_def Let_def
        split: list.split option.split)
qed

section \<open>Witnesses\<close>

text \<open>A node with one test account.\<close>

definition one_account_node :: "string rpc_server" where
  "one_account_node = NewEVMRPCServer (NewEVMExecutor (es_SetBalance (bytes_of ''a'') 1000000000000000 evm_NewState) 1000000000)
     [(bytes_of ''a'', \<lparr>kp_private = ''a'', kp_address = bytes_of ''a''\<rparr>)] 1337"

lemma sample_balance: "big_SetString ''1000000000000000'' = Some 1000000000000000"
  by (simp add: big_SetString_def is_digit_def digits_value_def)

lemma one_account_main: "evm_node_main bytes_of [Some ''a''] 1337 ''1000000000000000'' = Inr one_account_node"
  by (simp add: evm_node_main_def GenerateKeyPair_def sample_balance one_account_node_def ks_AddKey_def NewKeystore_def gput_def Let_def)

theorem evm_node_never_executes_witness:
  "\<exists>h s. ServeHTTP plain_codec sample_vm [] 0 ''POST'' (Inr (transfer_request ''xx'')) one_account_node
       = (HttpJson \<lparr>rp_id = JNum 1, rp_result = RText h, rp_error = None\<rparr>, s)
     \<and> rs_txReceipts s = [] \<and> ea_balance (server_account s (bytes_of ''a'')) = 1000000000000000"
proof -
  let ?r = "ServeHTTP plain_codec sample_vm [] 0 ''POST'' (Inr (transfer_request ''xx'')) one_account_node"
  have answer: "fst ?r = HttpJson \<lparr>rp_id = JNum 1, rp_result = RText (string_of_bytes (take 32 (bytes_of ''ab'' @ zero_hash))), rp_error = None\<rparr>"
    by code_simp
  have "bytes_of ''a'' \<in> gkeys (rs_keystore one_account_node)"
    by (simp add: one_account_node_def NewEVMRPCServer_def gkeys_def)
  moreover have served: "served plain_codec sample_vm one_account_node (snd ?r)"
    by (rule served_one[OF served_none]) (rule prod.collapse[symmetric])
  moreover have "rs_keystore (snd ?r) = rs_keystore one_account_node"
    using served_kept[OF served] by (simp add: kept_def)
  ultimately have "rs_txReceipts (snd ?r) = []" "ea_balance (server_account (snd ?r) (bytes_of ''a'')) = 1000000000000000"
    using evm_node_never_executes[OF one_account_main sample_balance served] by metis+
  with answer show ?thesis
    by (metis prod.collapse)
qed

end
