(* ===== verification/Integrated_Node.thy ===== *)
theory Integrated_Node
  imports Wave_Node Evm_Node
begin

text \<open>
  \<open>cmd/integrated-node/main.go\<close>: one process that runs DAG sync, wave consensus and the EVM
  JSON-RPC server, and the goroutines that connect them.  The node is the three component
  states and the two channels; a step relation interleaves the handlers of the components
  with the goroutines of the node.  The consensus reads the blocks of the same process, so
  it shares the block heap of DAG sync.
\<close>

section \<open>State\<close>

record 'key integrated_node =
  in_validatorID :: address
  in_sync :: sync_world
  in_wave :: wave_node
  in_server :: "'key rpc_server"
  in_evmRPCAddr :: string
  in_evmTxChannel :: "evm_tx list"
  in_blockUpdateChan :: "bref list"

text \<open>The validators: the node itself and a name made of the host of each wave peer.\<close>

definition peer_validator :: "string \<Rightarrow> address" where
  "peer_validator peer = ''validator_'' @ hd (split_on CHR '':'' peer)"

definition all_validators :: "address \<Rightarrow> string list \<Rightarrow> address list" where
  "all_validators me wavePeers = me # map peer_validator wavePeers"

definition NewIntegratedDAGSync :: "address \<Rightarrow> string \<Rightarrow> string list \<Rightarrow> int \<Rightarrow> block_heap \<Rightarrow> tx_heap \<Rightarrow> sync_world" where
  "NewIntegratedDAGSync me listenAddr peers dur hp th = sync_start me listenAddr peers dur hp th"

text \<open>\<open>gens\<close> are the keys generated for the \<open>createAccounts\<close> test accounts, \<open>hp\<close> and \<open>th\<close> the
  heaps before the first allocation.\<close>

definition NewIntegratedNode ::
  "('key \<Rightarrow> eaddress) \<Rightarrow> 'key option list \<Rightarrow> block_heap \<Rightarrow> tx_heap \<Rightarrow> address \<Rightarrow> string \<Rightarrow> string \<Rightarrow> string
     \<Rightarrow> string list \<Rightarrow> string list \<Rightarrow> int \<Rightarrow> int \<Rightarrow> int \<Rightarrow> string \<Rightarrow> node_error + 'key integrated_node" where
  "NewIntegratedNode addr_of gens hp th me dagListen waveListen evmRPCAddr dagPeers wavePeers roundDur waveDur chainID initialBalance =
     (case big_SetString initialBalance of
        None \<Rightarrow> Inl InvalidInitialBalance
      | Some balance \<Rightarrow> (case CreateTestAccounts addr_of gens balance evm_NewState of
          (None, _) \<Rightarrow> Inl TestAccountsFailed
        | (Some accounts, evmState) \<Rightarrow>
            let keystore = fold ks_AddKey accounts NewKeystore;
                executor = NewEVMExecutor evmState 1000000000
            in Inr \<lparr>in_validatorID = me,
                    in_sync = NewIntegratedDAGSync me dagListen dagPeers roundDur hp th,
                    in_wave = NewWaveNode me (all_validators me wavePeers) waveListen wavePeers waveDur,
                    in_server = NewEVMRPCServer executor keystore chainID,
                    in_evmRPCAddr = evmRPCAddr, in_evmTxChannel = [], in_blockUpdateChan = []\<rparr>))"

section \<open>Transactions\<close>

text \<open>\<open>big.Int.Uint64\<close> keeps the low 64 bits of the magnitude.\<close>

definition big_Uint64 :: "int \<Rightarrow> u64" where
  "big_Uint64 x = word_of_int \<bar>x\<bar>"

definition convertEVMToBlazeTransaction :: "eth_codec \<Rightarrow> (eaddress \<Rightarrow> u64 \<Rightarrow> eaddress) \<Rightarrow> evm_tx \<Rightarrow> transaction" where
  "convertEVMToBlazeTransaction K create_address tx =
     \<lparr>tx_nonce = et_nonce tx, tx_from = hx_address K (et_from tx),
      tx_to = (case et_to tx of
        Some t \<Rightarrow> hx_address K t
      | None \<Rightarrow> hx_address K (CreateContractAddress create_address (et_from tx) (et_nonce tx))),
      tx_value = big_Uint64 (et_value tx), tx_gas_limit = et_gas_limit tx, tx_gas_price = big_Uint64 (et_gas_price tx),
      tx_data = et_data tx, tx_signature = empty_signature, tx_time = uint (et_time tx),
      tx_state = TransactionStatePending, tx_hash = None\<rparr>"

definition isEVMTransaction :: "transaction \<Rightarrow> bool" where
  "isEVMTransaction tx = (length (tx_data tx) > 0 \<or> take 2 (tx_to tx) = ''0x'')"

definition add_to_dag :: "eth_codec \<Rightarrow> (eaddress \<Rightarrow> u64 \<Rightarrow> eaddress) \<Rightarrow> evm_tx \<Rightarrow> 'key integrated_node \<Rightarrow> 'key integrated_node" where
  "add_to_dag K ca tx n = n\<lparr>in_sync := submit_tx (convertEVMToBlazeTransaction K ca tx) (in_sync n)\<rparr>"

text \<open>One round of each goroutine; with an empty channel it waits.\<close>

definition processEVMTransactions :: "eth_codec \<Rightarrow> (eaddress \<Rightarrow> u64 \<Rightarrow> eaddress) \<Rightarrow> 'key integrated_node \<Rightarrow> 'key integrated_node" where
  "processEVMTransactions K ca n = (case in_evmTxChannel n of
     [] \<Rightarrow> n | tx # txs \<Rightarrow> add_to_dag K ca tx (n\<lparr>in_evmTxChannel := txs\<rparr>))"

text \<open>\<open>processEVMTransactionInBlock\<close> only writes a log line.\<close>

definition processEVMTransactionInBlock :: "transaction \<Rightarrow> 'key integrated_node \<Rightarrow> 'key integrated_node" where
  "processEVMTransactionInBlock tx n = n"

definition processBlockUpdates :: "'key integrated_node \<Rightarrow> go_panic + 'key integrated_node" where
  "processBlockUpdates n = (case in_blockUpdateChan n of
     [] \<Rightarrow> Inr n
   | b # bs \<Rightarrow>
       let blk = sw_heap (in_sync n) b;
           n1 = n\<lparr>in_blockUpdateChan := bs,
                  in_server := rpc_UpdateBlockNumber (go_int (hdr_height (blk_header blk))) (in_server n)\<rparr>
       in case blk_body blk of
            None \<Rightarrow> Inl NilDereference
          | Some body \<Rightarrow> Inr (fold (\<lambda>t n. let tx = sw_txs (in_sync n) t
              in if isEVMTransaction tx then processEVMTransactionInBlock tx n else n) (body_txs body) n1))"

text \<open>A tick of \<open>connectEVMToDAG\<close>; \<open>ord\<close> is the order in which the pending transactions are listed.\<close>

definition connectEVMToDAG :: "eth_codec \<Rightarrow> (eaddress \<Rightarrow> u64 \<Rightarrow> eaddress) \<Rightarrow> string list \<Rightarrow> 'key integrated_node \<Rightarrow> 'key integrated_node" where
  "connectEVMToDAG K ca ord n = fold (add_to_dag K ca) (rpc_GetPendingTransactions ord (in_server n)) n"

definition statusReporter :: "u64 list \<Rightarrow> u64 list \<Rightarrow> 'key integrated_node \<Rightarrow> go_panic + sync_status \<times> wave_status_view \<times> int \<times> string" where
  "statusReporter ordr ordv n =
     map_sum id (\<lambda>ws. (GetDAGStatus ordr (sw_node (in_sync n)), ws, rs_chainID (in_server n), in_evmRPCAddr n))
       (GetWaveStatus ordv (in_wave n))"

section \<open>Runs\<close>

text \<open>What of the node a step of the wave consensus replaces.\<close>

definition put_wave :: "wave_consensus \<Rightarrow> 'key integrated_node \<Rightarrow> 'key integrated_node" where
  "put_wave wc n = n\<lparr>in_wave := (in_wave n)\<lparr>wn_core := wc\<rparr>\<rparr>"

abbreviation core :: "'key integrated_node \<Rightarrow> wave_consensus" where
  "core n \<equiv> wn_core (in_wave n)"

text \<open>\<open>real\<close> are the identifiers in whose name the other nodes vote.\<close>

inductive node_step ::
  "header_digest \<Rightarrow> hash \<Rightarrow> eth_codec \<Rightarrow> evm_env \<Rightarrow> (eaddress \<Rightarrow> u64 \<Rightarrow> eaddress) \<Rightarrow> address set
     \<Rightarrow> 'key integrated_node \<Rightarrow> 'key integrated_node \<Rightarrow> bool" for H null K E ca real where
  ns_sync: "sync_step H null (in_sync n) w \<Longrightarrow> node_step H null K E ca real n (n\<lparr>in_sync := w\<rparr>)"
| ns_connect: "wave_connectToPeer p d (in_wave n) = Some x \<Longrightarrow> node_step H null K E ca real n (n\<lparr>in_wave := x\<rparr>)"
| ns_advance: "wave_advanceWave (core n) = Inr (wc, ts) \<Longrightarrow> node_step H null K E ca real n (put_wave wc n)"
| ns_process: "sync_GetRecentBlocks (sw_heap (in_sync n)) ord (sw_node (in_sync n)) 20 = Inr recent \<Longrightarrow>
    processWave H (sw_heap (in_sync n)) cap now recent w (core n) = Inr (hp, wc, ms, ts) \<Longrightarrow>
    node_step H null K E ca real n (put_wave wc (n\<lparr>in_sync := (in_sync n)\<lparr>sw_heap := hp\<rparr>\<rparr>))"
| ns_message: "(\<And>v. wm_vote m = Some v \<Longrightarrow> wv_voter v \<in> real) \<Longrightarrow>
    handleWaveMessage H hp cap now m (core n) = Inr (wc, ms, ts) \<Longrightarrow> node_step H null K E ca real n (put_wave wc n)"
| ns_check: "checkWaveFinalization H hp ordv ordb ordw recent w (core n) = Inr wc \<Longrightarrow>
    node_step H null K E ca real n (put_wave wc n)"
| ns_cleanup: "node_step H null K E ca real n (put_wave (wave_cleanupOldWaves ordw ordc (core n)) n)"
| ns_request: "ServeHTTP K E orda now meth body (in_server n) = (a, s) \<Longrightarrow> node_step H null K E ca real n (n\<lparr>in_server := s\<rparr>)"
| ns_execute: "node_step H null K E ca real n (n\<lparr>in_server := ProcessPendingTransactions K E (in_server n)\<rparr>)"
| ns_pending: "node_step H null K E ca real n (connectEVMToDAG K ca ordp n)"
| ns_evm: "node_step H null K E ca real n (processEVMTransactions K ca n)"
| ns_block: "processBlockUpdates n = Inr n' \<Longrightarrow> node_step H null K E ca real n n'"

inductive node_run ::
  "header_digest \<Rightarrow> hash \<Rightarrow> eth_codec \<Rightarrow> evm_env \<Rightarrow> (eaddress \<Rightarrow> u64 \<Rightarrow> eaddress) \<Rightarrow> address set
     \<Rightarrow> 'key integrated_node \<Rightarrow> 'key integrated_node \<Rightarrow> bool" for H null K E ca real n0 where
  nr_start: "node_run H null K E ca real n0 n0"
| nr_step: "node_run H null K E ca real n0 n \<Longrightarrow> node_step H null K E ca real n n' \<Longrightarrow> node_run H null K E ca real n0 n'"

section \<open>Lemmas\<close>

subsection \<open>The pool of DAG sync\<close>

lemma add_to_dag_fields [simp]:
  "in_server (add_to_dag K ca tx n) = in_server n" "in_wave (add_to_dag K ca tx n) = in_wave n"
  "in_evmTxChannel (add_to_dag K ca tx n) = in_evmTxChannel n" "in_blockUpdateChan (add_to_dag K ca tx n) = in_blockUpdateChan n"
  by (simp_all add: add_to_dag_def)

lemma fold_add_fields [simp]:
  "in_server (fold (add_to_dag K ca) txs n) = in_server n" "in_wave (fold (add_to_dag K ca) txs n) = in_wave n"
  "in_evmTxChannel (fold (add_to_dag K ca) txs n) = in_evmTxChannel n"
  "in_blockUpdateChan (fold (add_to_dag K ca) txs n) = in_blockUpdateChan n"
  by (induction txs arbitrary: n) simp_all

lemma connectEVMToDAG_fields [simp]:
  "in_server (connectEVMToDAG K ca ord n) = in_server n" "in_wave (connectEVMToDAG K ca ord n) = in_wave n"
  "in_evmTxChannel (connectEVMToDAG K ca ord n) = in_evmTxChannel n"
  "in_blockUpdateChan (connectEVMToDAG K ca ord n) = in_blockUpdateChan n"
  by (simp_all add: connectEVMToDAG_def)

text \<open>The transactions behind the pool, and that all of them are allocated.\<close>

definition pool_txs :: "'key integrated_node \<Rightarrow> transaction list" where
  "pool_txs n = map (sw_txs (in_sync n)) (sy_pendingTxs (sw_node (in_sync n)))"

definition pool_ok :: "'key integrated_node \<Rightarrow> bool" where
  "pool_ok n = (\<forall>t \<in> set (sy_pendingTxs (sw_node (in_sync n))). t < sw_next_tx (in_sync n))"

lemma pool_add:
  "pool_ok n \<Longrightarrow> pool_ok (add_to_dag K ca tx n)"
  "pool_ok n \<Longrightarrow> pool_txs (add_to_dag K ca tx n) = pool_txs n @ [convertEVMToBlazeTransaction K ca tx]"
  by (auto simp: pool_ok_def pool_txs_def add_to_dag_def submit_tx_def AddPendingTransaction_def)

lemma pool_fold:
  "pool_ok n \<Longrightarrow> pool_ok (fold (add_to_dag K ca) txs n) \<and>
     pool_txs (fold (add_to_dag K ca) txs n) = pool_txs n @ map (convertEVMToBlazeTransaction K ca) txs"
  by (induction txs arbitrary: n) (simp_all add: pool_add)

lemma pool_ticks:
  fixes n :: "'key integrated_node" and K :: eth_codec and ca :: "eaddress \<Rightarrow> u64 \<Rightarrow> eaddress" and ord :: "string list"
  assumes "pool_ok n"
  defines "tick \<equiv> connectEVMToDAG K ca ord"
  shows "pool_ok ((tick ^^ k) n) \<and> in_server ((tick ^^ k) n) = in_server n \<and>
    pool_txs ((tick ^^ k) n) = pool_txs n @
      concat (replicate k (map (convertEVMToBlazeTransaction K ca) (rpc_GetPendingTransactions ord (in_server n))))"
proof (induction k)
  case (Suc k)
  have "concat (replicate k xs) @ xs = xs @ concat (replicate k xs)" for xs :: "transaction list"
    by (induction k) simp_all
  with Suc show ?case
    by (simp add: tick_def connectEVMToDAG_def pool_fold)
qed (use assms(1) in simp)

subsection \<open>The server\<close>

lemma Process_number [simp]: "rs_currentBlockNum (ProcessPendingTransactions K E s) = rs_currentBlockNum s"
  by (simp add: ProcessPendingTransactions_def processSingleTransaction_def Let_def case_prod_beta split: list.split)

subsection \<open>A node that knows no other voter\<close>

text \<open>No vote but the node's own is stored, and no wave is finalised.\<close>

definition alone :: "address \<Rightarrow> address list \<Rightarrow> wave_consensus \<Rightarrow> bool" where
  "alone me vs wc = (wc_validatorID wc = me \<and> wc_validators wc = vs \<and> stored_votes_ok me {me} (wc_waveVotes wc) \<and>
     wc_finalizedWaves wc = [] \<and> wc_confirmedBlocks wc = [] \<and> wc_currentWave wc \<le> 1)"

lemma alone_store:
  "alone me vs wc \<Longrightarrow> wv_voter v = me \<Longrightarrow> wv_wave v = w \<Longrightarrow> k = hex_of (wv_hash v) \<or> k = voter_key (wv_hash v) me \<Longrightarrow>
     alone me vs (store_vote w k v wc)"
  by (auto simp: alone_def store_vote_def votes_at_def intro!: stored_votes_ok_gput)

lemma alone_voteOnBlock: "voteOnBlock H hp cap now w b wc = Inr (wc', ms, ts) \<Longrightarrow> alone me vs wc \<Longrightarrow> alone me vs wc'"
  by (auto simp: voteOnBlock_def Let_def split: if_splits intro!: alone_store) (simp add: alone_def)

lemma alone_voteOnBlocks:
  "voteOnBlocks H hp cap now w bs wc = Inr (wc', ms, ts) \<Longrightarrow> alone me vs wc \<Longrightarrow> alone me vs wc'"
proof (induction bs arbitrary: wc ms ts)
  case (Cons b bs)
  then obtain wc1 ms1 ts1 ms2 ts2 where "voteOnBlock H hp cap now w b wc = Inr (wc1, ms1, ts1)"
      "voteOnBlocks H hp cap now w bs wc1 = Inr (wc', ms2, ts2)"
    by (auto split: sum.splits simp: map_sum_eq_Inr)
  then show ?case
    using Cons alone_voteOnBlock by blast
qed simp

lemma alone_message:
  assumes "\<And>v. wm_vote m = Some v \<Longrightarrow> wv_voter v \<in> real" "set vs \<inter> real \<subseteq> {me}" "alone me vs wc"
    and "handleWaveMessage H hp cap now m wc = Inr (wc', ms, ts)"
  shows "alone me vs wc'"
proof -
  have "handleReceivedVote cap (wm_vote m) from wc = Inr (wc', ts') \<Longrightarrow> alone me vs wc'" for "from" ts'
  proof (cases "wm_vote m")
    case (Some v)
    then have "wv_voter v \<in> set vs \<Longrightarrow> wv_voter v = me"
      using assms(1,2) by blast
    moreover have "wc_validators wc = vs"
      using assms(3) by (simp add: alone_def)
    moreover assume "handleReceivedVote cap (wm_vote m) from wc = Inr (wc', ts')"
    ultimately show ?thesis
      using assms(3) Some by (auto simp: handleReceivedVote_def split: if_splits intro!: alone_store)
  qed (use assms(3) in \<open>simp add: handleReceivedVote_def\<close>)
  then show ?thesis
    using assms(3,4) by (auto simp: handleWaveMessage_def handleReceivedWaveBlocks_def map_sum_eq_Inr
        split: if_splits sum.splits bool.splits dest: alone_voteOnBlocks)
qed

lemma alone_candidates:
  assumes "wc_finalizedWaves wc = []" "recent \<noteq> []"
  shows "candidateBlocks H hp wc recent \<noteq> []"
proof -
  have fresh: "\<not> alreadyProcessed H hp wc b" for b
    using assms(1) by (simp add: alreadyProcessed_def)
  have "snd (fold (collect_candidate H hp wc) bs acc) \<noteq> []" if "snd acc \<noteq> []" for bs acc
    using that by (induction bs arbitrary: acc) (auto simp: collect_candidate_def fresh split: prod.splits)
  moreover obtain b bs where "recent = b # bs"
    using assms(2) by (auto simp: neq_Nil_conv)
  ultimately show ?thesis
    by (simp add: candidateBlocks_def collect_candidate_def fresh word_gt_0)
qed

lemma alone_process:
  assumes "alone me vs wc" "processWave H hp cap now recent w wc = Inr (hp', wc', ms, ts)"
  shows "alone me vs wc'"
proof -
  have "wc_finalizedWaves wc = []"
    using assms(1) by (simp add: alone_def)
  note cands = alone_candidates[OF this]
  have "alone me vs (wc\<lparr>wc_waveBlocks := m, wc_waveVotes := gput w (votes_at wc w) (wc_waveVotes wc)\<rparr>)" for m
    using assms(1) by (simp add: alone_def votes_at_def)
  then have "voteOnBlock H hp1 cap now w b (wc\<lparr>wc_waveBlocks := m, wc_waveVotes := gput w (votes_at wc w) (wc_waveVotes wc)\<rparr>)
      = Inr (wc', ms', ts') \<Longrightarrow> alone me vs wc'" for hp1 b m ms' ts'
    using alone_voteOnBlock by blast
  then show ?thesis
    using assms cands by (auto simp: processWave_def Let_def map_sum_eq_Inr split: sum.splits bool.splits if_splits)
qed

lemma alone_check:
  assumes "alone me vs wc" "2 \<le> length vs" "checkWaveFinalization H hp ordv ordb ordw recent w wc = Inr wc'"
  shows "alone me vs wc'"
proof -
  have "commit_voters wc w h \<subseteq> {me}" for h
    using assms(1) by (auto simp: commit_voters_def alone_def stored_votes_ok_def votes_at_def)
  then have "card (commit_voters wc w h) \<le> 1" for h
    using card_mono[of "{me}"] by fastforce
  moreover have "2 \<le> wave_requiredVotes (length (wc_validators wc))"
    using assms(1,2) by (auto simp: alone_def wave_requiredVotes_def)
  ultimately have "\<not> wave_requiredVotes (length (wc_validators wc)) \<le> card (commit_voters wc w h)" for h
    by (metis le_trans numeral_le_one_iff semiring_norm(69))
  moreover have "\<not> flag (wc_finalizedWaves wc) w"
    using assms(1) by (simp add: alone_def flag_def)
  ultimately have "\<not> flag (wc_finalizedWaves wc') w"
    using check_needs_majority[OF _ assms(3)] by blast
  then show ?thesis
    using check_result[OF assms(3)] assms(1) by (auto simp: alone_def)
qed

lemma gdel_all_Nil [simp]: "gdel_all ks [] = []"
  by (induction ks) (simp_all add: gdel_all_def gdel_def)

lemma processed_block: "processEVMTransactionInBlock tx n = n"
  by (simp add: processEVMTransactionInBlock_def)

lemma processBlock_result:
  assumes "processBlockUpdates n = Inr n'"
  shows "n' = n \<or> (\<exists>b bs. in_blockUpdateChan n = b # bs \<and> n' = n\<lparr>in_blockUpdateChan := bs,
    in_server := rpc_UpdateBlockNumber (go_int (hdr_height (blk_header (sw_heap (in_sync n) b)))) (in_server n)\<rparr>)"
proof -
  have "fold (\<lambda>t n. let tx = sw_txs (in_sync n) t in if isEVMTransaction tx then processEVMTransactionInBlock tx n else n) ts m = m"
    for ts and m :: "'a integrated_node"
    by (induction ts) (simp_all add: processed_block Let_def)
  with assms show ?thesis
    by (auto simp: processBlockUpdates_def Let_def split: list.splits option.splits)
qed

lemma alone_step:
  assumes "node_step H null K E ca real n n'" "set vs \<inter> real \<subseteq> {me}" "2 \<le> length vs" "alone me vs (core n)"
  shows "alone me vs (core n')"
  using assms(1)
proof (cases rule: node_step.cases)
  case (ns_connect p d x)
  then show ?thesis
    using assms(4) by (auto simp: wave_connectToPeer_def split: option.splits)
next
  case (ns_advance wc ts)
  then show ?thesis
    using assms(4) by (auto simp: put_wave_def wave_advanceWave_def alone_def flag_def Let_def word_gt_0 split: if_splits sum.splits)
next
  case (ns_block)
  then show ?thesis
    using assms(4) by (auto dest: processBlock_result)
next
  case (ns_cleanup ordw ordc)
  then show ?thesis
    using assms(4) by (simp add: put_wave_def wave_cleanupOldWaves_def alone_def Let_def)
qed (use assms(2-4) in \<open>auto simp: put_wave_def processEVMTransactions_def split: list.splits
      dest: alone_process alone_check intro: alone_message\<close>)

lemma split_on_not_Nil: "split_on c s \<noteq> []"
  by (induction s) (auto split: list.split)

lemma NewIntegratedNode_fields:
  assumes "NewIntegratedNode addr_of gens hp th me dl wl ra dps wps rd wd c bal = Inr n"
  shows "core n = NewWaveConsensus me (all_validators me wps)" "in_evmTxChannel n = []" "in_blockUpdateChan n = []"
    "rs_currentBlockNum (in_server n) = 1" "in_sync n = sync_start me dl dps rd hp th" "sy_pendingTxs (sw_node (in_sync n)) = []" "rs_pendingTxs (in_server n) = []"
  using assms by (auto simp: NewIntegratedNode_def NewWaveNode_def NewEVMRPCServer_def NewIntegratedDAGSync_def sync_start_def
      NewDAGSync_def Let_def split: option.splits prod.splits)

section \<open>Properties\<close>

text \<open>(C12) The node names each wave peer after the host of its address, \<open>validator_<host>\<close>, while the
  peers vote under their own identifiers.  As long as no node has one of these made-up
  names, a node with at least one wave peer drops every vote of the others: in whatever order its
  handlers run, no wave is ever finalised, no block is confirmed and the node never gets
  past wave one.\<close>

theorem integrated_never_finalises:
  assumes "NewIntegratedNode addr_of gens hp th me dl wl ra dps wps rd wd c bal = Inr n0"
    and "node_run H null K E ca real n0 n"
    and "wps \<noteq> []" "\<forall>p \<in> set wps. peer_validator p \<notin> real"
  shows "wave_GetCurrentWave (core n) \<le> 1 \<and> wc_confirmedBlocks (core n) = [] \<and> (\<forall>w. \<not> flag (wc_finalizedWaves (core n)) w)"
proof -
  let ?vs = "all_validators me wps"
  have vs: "set ?vs \<inter> real \<subseteq> {me}" "2 \<le> length ?vs"
    using assms(3,4) by (auto simp: all_validators_def Suc_le_eq)
  have "alone me ?vs (core n)"
    using assms(2)
  proof (induction rule: node_run.induct)
    case nr_start
    then show ?case
      by (simp add: NewIntegratedNode_fields[OF assms(1)] alone_def NewWaveConsensus_def)
  next
    case (nr_step n n')
    then show ?case
      using alone_step vs by blast
  qed
  then show ?thesis
    by (simp add: alone_def wave_GetCurrentWave_def flag_def)
qed

text \<open>Nothing is ever sent on the channels \<open>evmTxChannel\<close> and \<open>blockUpdateChan\<close>: in every run they are
  empty, so the goroutines behind them do nothing, and \<open>eth_blockNumber\<close> answers one, whatever
  blocks the node has created, received or confirmed.\<close>

theorem integrated_block_number_frozen:
  assumes "NewIntegratedNode addr_of gens hp th me dl wl ra dps wps rd wd c bal = Inr n0"
    and "node_run H null K E ca real n0 n"
  shows "in_evmTxChannel n = [] \<and> in_blockUpdateChan n = [] \<and>
    rpc_blockNumber K req (in_server n) = ok_response req (RText (hx_EncodeBig K 1))"
proof -
  have "in_evmTxChannel n = [] \<and> in_blockUpdateChan n = [] \<and> rs_currentBlockNum (in_server n) = 1"
    using assms(2)
  proof (induction rule: node_run.induct)
    case nr_start
    then show ?case
      by (simp add: NewIntegratedNode_fields[OF assms(1)])
  next
    case (nr_step n n')
    from nr_step.hyps(2) nr_step.IH show ?case
    proof (cases rule: node_step.cases)
      case (ns_request orda now meth body a s)
      then show ?thesis
        using nr_step.IH ServeHTTP_kept[of "in_server n" K E orda now meth body] by (simp add: kept_def)
    qed (auto simp: put_wave_def processEVMTransactions_def dest: processBlock_result)
  qed
  then show ?thesis
    by (simp add: rpc_blockNumber_def)
qed

text \<open>Every tick of \<open>connectEVMToDAG\<close> adds every pending EVM transaction to the pool of DAG sync again,
  also those added before: after \<open>k\<close> ticks a transaction that is still pending is in the pool
  \<open>k\<close> times, and the next block carries all copies.\<close>

theorem pending_resubmitted:
  assumes "sync_reach H null (in_sync n)"
  shows "pool_txs ((connectEVMToDAG K ca ord ^^ k) n) = pool_txs n @
    concat (replicate k (map (convertEVMToBlazeTransaction K ca) (rpc_GetPendingTransactions ord (in_server n))))"
proof -
  have "pool_ok n"
    using sync_reach_inv[OF assms(1)] by (simp add: pool_ok_def sync_inv_def Let_def)
  from pool_ticks[OF this] show ?thesis
    by blast
qed

text \<open>A converted transaction carries the value and the gas price of the EVM transaction exactly when
  they are below $2^{64}$; larger amounts, from about 18.4 ether on, wrap around.\<close>

theorem converted_value_exact:
  "(uint (tx_value (convertEVMToBlazeTransaction K ca tx)) = et_value tx \<longleftrightarrow> 0 \<le> et_value tx \<and> et_value tx < 2 ^ 64) \<and>
   uint (tx_value (convertEVMToBlazeTransaction K ca tx)) = \<bar>et_value tx\<bar> mod 2 ^ 64"
proof -
  have "uint (tx_value (convertEVMToBlazeTransaction K ca tx)) = \<bar>et_value tx\<bar> mod 2 ^ 64"
    by (simp add: convertEVMToBlazeTransaction_def big_Uint64_def uint_word_of_int)
  moreover have "\<bar>x\<bar> mod 2 ^ 64 = x \<longleftrightarrow> 0 \<le> x \<and> x < 2 ^ 64" for x :: int
    by (metis abs_of_nonneg mod_pos_pos_trivial pos_mod_bound pos_mod_sign zero_less_numeral zero_less_power)
  ultimately show ?thesis
    by simp
qed

section \<open>Witnesses\<close>

text \<open>A node with one wave peer, whose identifier is \<open>validator2\<close>.\<close>

definition pair_node :: "unit integrated_node" where
  "pair_node = projr (NewIntegratedNode (\<lambda>_. bytes_of ''a'') [Some ()] sample_heap (\<lambda>_. sample_transaction ''u'' 0 0 0) ''validator1''
     ''0.0.0.0:4001'' ''0.0.0.0:6001'' ''0.0.0.0:8545'' [] [''localhost:6002''] 2 3 1337 ''1000'')"

lemma pair_node_new:
  "NewIntegratedNode (\<lambda>_. bytes_of ''a'') [Some ()] sample_heap (\<lambda>_. sample_transaction ''u'' 0 0 0) ''validator1''
     ''0.0.0.0:4001'' ''0.0.0.0:6001'' ''0.0.0.0:8545'' [] [''localhost:6002''] 2 3 1337 ''1000'' = Inr pair_node"
proof -
  have "big_SetString ''1000'' = Some 1000"
    by code_simp
  then show ?thesis
    by (simp add: pair_node_def NewIntegratedNode_def GenerateKeyPair_def Let_def)
qed

text \<open>The vote of the peer is dropped.\<close>

lemma pair_node_run:
  assumes "handleWaveMessage sample_digest sample_heap (\<lambda>h. 32) 0 (broadcastVote ''validator2'' 0 (forged_vote 1 [1] ''validator2'')) (core pair_node)
    = Inr (wc, ms, ts)"
  shows "node_run sample_digest [] plain_codec sample_vm (\<lambda>a n. a) {''validator2''} pair_node (put_wave wc pair_node)"
  by (rule nr_step[OF nr_start ns_message[OF _ assms]]) (simp add: broadcastVote_def forged_vote_def)

theorem integrated_never_finalises_witness:
  "\<exists>wc ms ts. handleWaveMessage sample_digest sample_heap (\<lambda>h. 32) 0 (broadcastVote ''validator2'' 0 (forged_vote 1 [1] ''validator2'')) (core pair_node)
     = Inr (wc, ms, ts) \<and> wave_GetCurrentWave wc \<le> 1 \<and> (\<forall>w. \<not> flag (wc_finalizedWaves wc) w)"
proof -
  obtain wc ms ts where wc: "handleWaveMessage sample_digest sample_heap (\<lambda>h. 32) 0
      (broadcastVote ''validator2'' 0 (forged_vote 1 [1] ''validator2'')) (core pair_node) = Inr (wc, ms, ts)"
    by (cases "''validator2'' \<in> set (wc_validators (core pair_node))")
      (simp_all add: handleWaveMessage_def broadcastVote_def handleReceivedVote_def forged_vote_def)
  have "peer_validator ''localhost:6002'' \<notin> {''validator2''}"
    by code_simp
  then show ?thesis
    using integrated_never_finalises[OF pair_node_new pair_node_run[OF wc]] wc by (auto simp: put_wave_def)
qed

theorem integrated_block_number_frozen_witness:
  "rpc_blockNumber plain_codec (transfer_request ''x'') (in_server (connectEVMToDAG plain_codec (\<lambda>a n. a) [] pair_node))
     = ok_response (transfer_request ''x'') (RText (hx_EncodeBig plain_codec 1))"
proof -
  have "node_run sample_digest [] plain_codec sample_vm (\<lambda>a n. a) {} pair_node (connectEVMToDAG plain_codec (\<lambda>a n. a) [] pair_node)"
    by (rule nr_step[OF nr_start ns_pending])
  from integrated_block_number_frozen[OF pair_node_new this] show ?thesis
    by blast
qed

text \<open>One pending transaction, three ticks.\<close>

theorem pending_resubmitted_witness:
  "let n = pair_node\<lparr>in_server := (in_server pair_node)\<lparr>rs_pendingTxs := [(''h'', reverting_tx)]\<rparr>\<rparr> in
   pool_txs ((connectEVMToDAG plain_codec (\<lambda>a n. a) [''h''] ^^ 3) n)
     = replicate 3 (convertEVMToBlazeTransaction plain_codec (\<lambda>a n. a) reverting_tx)"
proof -
  let ?n = "pair_node\<lparr>in_server := (in_server pair_node)\<lparr>rs_pendingTxs := [(''h'', reverting_tx)]\<rparr>\<rparr>"
  have start: "sync_reach sample_digest [] (in_sync ?n)"
    using NewIntegratedNode_fields(5)[OF pair_node_new] sync_begin by simp
  have "pool_txs ?n = []" "rpc_GetPendingTransactions [''h''] (in_server ?n) = [reverting_tx]"
    using NewIntegratedNode_fields(6)[OF pair_node_new]
    by (simp_all add: pool_txs_def rpc_GetPendingTransactions_def range_vals_def gget_def)
  with pending_resubmitted[OF start, of 3 plain_codec "\<lambda>a n. a" "[''h'']"] show ?thesis
    by (simp add: numeral_3_eq_3 Let_def del: funpow.simps)
qed

end
