(* ===== verification/Network.thy ===== *)
theory Network
  imports Wave_Node
begin

text \<open>
  \<open>internal/network\<close> (the peer service with its layer, the P2P node and the message handler)
  and \<open>internal/core/network_manager.go\<close>.  A peer is a pointer that the service and the layer
  share, so peers live in a heap; connections are numbers, and the outcome of a dial, a write
  or a listen is an argument.  A mutex that a goroutine takes twice is a \<open>Deadlock\<close>.
\<close>

section \<open>Peers and messages\<close>

record types_peer =
  tp_ID :: string
  tp_address :: address
  tp_active :: bool
  tp_lastSeen :: int
  tp_score :: int
  tp_isValidator :: bool
  tp_connection :: "nat option"

type_synonym peer_heap = "nat \<Rightarrow> types_peer"

record network_message =
  nmsg_type :: message_type
  nmsg_payload :: "byte list"
  nmsg_from :: address
  nmsg_to :: address
  nmsg_sender :: address
  nmsg_recipient :: address
  nmsg_time :: int
  nmsg_TTL :: int
  nmsg_signature :: "byte list"
  nmsg_priority :: int

text \<open>The composite literal \<open>&types.Peer{Address: a}\<close>.\<close>

definition bare_peer :: "address \<Rightarrow> types_peer" where
  "bare_peer a = \<lparr>tp_ID = [], tp_address = a, tp_active = False, tp_lastSeen = 0, tp_score = 0, tp_isValidator = False,
     tp_connection = None\<rparr>"

datatype net_error = ServiceNotRunning | PeerNotFound | PeerNotConnected | ListenFailed | DialFailed | MarshalFailed | NoHandler

section \<open>The layer\<close>

record network_layer =
  nl_peers :: "(address, nat) gomap"
  nl_closed :: bool

definition NewNetworkLayer :: network_layer where
  "NewNetworkLayer = \<lparr>nl_peers = [], nl_closed = False\<rparr>"

definition layer_Stop :: "network_layer \<Rightarrow> go_panic + network_layer" where
  "layer_Stop l = (if nl_closed l then Inl ClosedChannel else Inr (l\<lparr>nl_closed := True\<rparr>))"

definition layer_AddPeer :: "peer_heap \<Rightarrow> nat \<Rightarrow> network_layer \<Rightarrow> network_layer" where
  "layer_AddPeer ph p l = l\<lparr>nl_peers := gput (tp_address (ph p)) p (nl_peers l)\<rparr>"

definition layer_RemovePeer :: "address \<Rightarrow> network_layer \<Rightarrow> network_layer" where
  "layer_RemovePeer a l = l\<lparr>nl_peers := gdel a (nl_peers l)\<rparr>"

definition layer_GetPeers :: "address list \<Rightarrow> network_layer \<Rightarrow> nat list" where
  "layer_GetPeers ord l = range_vals ord (nl_peers l)"

text \<open>Nothing is written to the connection.\<close>

definition layer_SendMessage :: "int \<Rightarrow> nat \<Rightarrow> peer_heap \<Rightarrow> net_error + peer_heap" where
  "layer_SendMessage now p ph = (case tp_connection (ph p) of
     None \<Rightarrow> Inl PeerNotConnected
   | Some _ \<Rightarrow> Inr (ph(p := (ph p)\<lparr>tp_lastSeen := now\<rparr>)))"

definition layer_Broadcast :: "int \<Rightarrow> address list \<Rightarrow> network_layer \<Rightarrow> peer_heap \<Rightarrow> peer_heap" where
  "layer_Broadcast now ord l ph = fold (\<lambda>p ph. if tp_connection (ph p) \<noteq> None
     then (case layer_SendMessage now p ph of Inl e \<Rightarrow> ph | Inr ph' \<Rightarrow> ph') else ph) (range_vals ord (nl_peers l)) ph"

section \<open>The service\<close>

record net_config =
  nc_ListenAddr :: address
  nc_Seeds :: "address list"
  nc_MaxPeers :: int
  nc_MinPeers :: int

record service =
  svc_config :: net_config
  svc_layer :: network_layer
  svc_peers :: "(address, nat) gomap"
  svc_messages :: "(string, network_message) gomap"
  svc_running :: bool
  svc_heap :: peer_heap
  svc_next :: nat

definition NewService :: "net_config \<Rightarrow> service" where
  "NewService cfg = \<lparr>svc_config = cfg, svc_layer = NewNetworkLayer, svc_peers = [], svc_messages = [], svc_running = False,
     svc_heap = (\<lambda>_. bare_peer []), svc_next = 0\<rparr>"

definition svc_addPeer :: "int \<Rightarrow> nat \<Rightarrow> service \<Rightarrow> service" where
  "svc_addPeer now p s =
     (if int (glen (svc_peers s)) \<ge> nc_MaxPeers (svc_config s) then s
      else let ph = (svc_heap s)(p := (svc_heap s p)\<lparr>tp_lastSeen := now\<rparr>)
           in s\<lparr>svc_heap := ph, svc_peers := gput (tp_address (ph p)) p (svc_peers s),
                svc_layer := layer_AddPeer ph p (svc_layer s)\<rparr>)"

definition svc_removePeer :: "address \<Rightarrow> service \<Rightarrow> service" where
  "svc_removePeer a s = s\<lparr>svc_peers := gdel a (svc_peers s), svc_layer := layer_RemovePeer a (svc_layer s)\<rparr>"

definition svc_updatePeerLastSeen :: "int \<Rightarrow> address \<Rightarrow> service \<Rightarrow> service" where
  "svc_updatePeerLastSeen now a s = (case gget (svc_peers s) a of
     None \<Rightarrow> s | Some p \<Rightarrow> s\<lparr>svc_heap := (svc_heap s)(p := (svc_heap s p)\<lparr>tp_lastSeen := now\<rparr>)\<rparr>)"

definition svc_GetPeers :: "address list \<Rightarrow> service \<Rightarrow> nat list" where
  "svc_GetPeers ord s = range_vals ord (svc_peers s)"

text \<open>A new peer object at the next free place of the heap.\<close>

definition svc_new :: "types_peer \<Rightarrow> service \<Rightarrow> nat \<times> service" where
  "svc_new p s = (svc_next s, s\<lparr>svc_heap := (svc_heap s)(svc_next s := p), svc_next := svc_next s + 1\<rparr>)"

text \<open>\<open>connectToSeed\<close> up to its endless loop.\<close>

definition connectToSeed :: "int \<Rightarrow> address \<Rightarrow> nat option \<Rightarrow> service \<Rightarrow> service" where
  "connectToSeed now seed dialled s = (case dialled of
     None \<Rightarrow> s
   | Some conn \<Rightarrow> let (p, s1) = svc_new ((bare_peer seed)\<lparr>tp_lastSeen := now, tp_connection := Some conn\<rparr>) s in svc_addPeer now p s1)"

text \<open>\<open>Start\<close>: the seeds are dialled in goroutines of their own.\<close>

definition svc_Start :: "bool \<Rightarrow> service \<Rightarrow> net_error + service" where
  "svc_Start listen s = (if \<not> listen then Inl ListenFailed else Inr (s\<lparr>svc_running := True\<rparr>))"

definition svc_Stop :: "service \<Rightarrow> go_panic + service" where
  "svc_Stop s = (if \<not> svc_running s then Inr s
     else case layer_Stop (svc_layer s) of
       Inl p \<Rightarrow> Inl p
     | Inr l \<Rightarrow> Inr (s\<lparr>svc_layer := l, svc_peers := [], svc_messages := [], svc_running := False\<rparr>))"

text \<open>One tick of \<open>discoverPeers\<close>; the timeout may end it after \<open>k\<close> seeds.\<close>

definition discover_seed :: "int \<Rightarrow> address \<Rightarrow> service \<Rightarrow> service" where
  "discover_seed now seed s = (let (p, s1) = svc_new (bare_peer seed) s in svc_addPeer now p s1)"

definition svc_discoverPeers :: "int \<Rightarrow> nat \<Rightarrow> service \<Rightarrow> service" where
  "svc_discoverPeers now k s = fold (discover_seed now) (take k (nc_Seeds (svc_config s))) s"

definition svc_BroadcastMessage :: "int \<Rightarrow> address list \<Rightarrow> network_message \<Rightarrow> service \<Rightarrow> service" where
  "svc_BroadcastMessage now ord msg s = s\<lparr>svc_heap := layer_Broadcast now ord (svc_layer s) (svc_heap s)\<rparr>"

definition svc_SendMessage :: "int \<Rightarrow> int \<Rightarrow> address \<Rightarrow> network_message \<Rightarrow> service \<Rightarrow> net_error + network_message \<times> service" where
  "svc_SendMessage now now' peerID msg s =
     (if \<not> svc_running s then Inl ServiceNotRunning
      else case gget (svc_peers s) peerID of
        None \<Rightarrow> Inl PeerNotFound
      | Some p \<Rightarrow>
          let msg' = msg\<lparr>nmsg_sender := nc_ListenAddr (svc_config s), nmsg_recipient := peerID, nmsg_time := now\<rparr>
          in case layer_SendMessage now' p (svc_heap s) of
               Inl e \<Rightarrow> Inl e
             | Inr ph \<Rightarrow> Inr (msg', s\<lparr>svc_heap := ph,
                 svc_messages := gput (string_of_bytes (nmsg_signature msg')) msg' (svc_messages s)\<rparr>))"

definition svc_GetMessage :: "byte list \<Rightarrow> service \<Rightarrow> network_message option" where
  "svc_GetMessage signature s = gget (svc_messages s) (string_of_bytes signature)"

text \<open>\<open>OptimizePeerConnections\<close> holds the mutex of the service throughout.  The scores only order
  the peers; the first call of \<open>removePeer\<close> or \<open>addPeer\<close> waits for the mutex for ever.\<close>

fun add_missing_seeds :: "address list \<Rightarrow> service \<Rightarrow> go_panic + service" where
  "add_missing_seeds [] s = Inr s"
| "add_missing_seeds (seed # seeds) s =
     (if int (glen (svc_peers s)) \<ge> nc_MaxPeers (svc_config s) then Inr s
      else if \<not> ghas (svc_peers s) seed then Inl Deadlock
      else add_missing_seeds seeds s)"

definition OptimizePeerConnections :: "address list \<Rightarrow> service \<Rightarrow> go_panic + service" where
  "OptimizePeerConnections ord s =
     (if \<not> svc_running s then Inr s
      else let scored = remdups (map (\<lambda>p. tp_address (svc_heap s p)) (range_vals ord (svc_peers s)))
           in if list_ex (\<lambda>a. gget (svc_peers s) a = None) scored then Inl NilDereference
              else if int (length scored) > nc_MaxPeers (svc_config s)
              then (if nc_MaxPeers (svc_config s) < 0 then Inl IndexOutOfRange else Inl Deadlock)
              else if int (length scored) < nc_MinPeers (svc_config s)
              then add_missing_seeds (nc_Seeds (svc_config s)) s
              else Inr s)"

section \<open>The P2P node\<close>

text \<open>\<open>pn_open\<close> are the connections that are open.\<close>

record p2p_node =
  pn_id :: string
  pn_peers :: "(string, nat) gomap"
  pn_running :: bool
  pn_port :: int
  pn_open :: "nat list"

definition NewP2PNode :: "string \<Rightarrow> p2p_node" where
  "NewP2PNode i = \<lparr>pn_id = i, pn_peers = [], pn_running = False, pn_port = 0, pn_open = []\<rparr>"

definition p2p_Start :: "bool \<Rightarrow> p2p_node \<Rightarrow> net_error + p2p_node" where
  "p2p_Start listen n = (if pn_running n then Inr n else if \<not> listen then Inl ListenFailed else Inr (n\<lparr>pn_running := True\<rparr>))"

definition p2p_Stop :: "p2p_node \<Rightarrow> p2p_node" where
  "p2p_Stop n = (if \<not> pn_running n then n
     else n\<lparr>pn_open := filter (\<lambda>c. c \<notin> snd ` set (pn_peers n)) (pn_open n), pn_running := False\<rparr>)"

definition p2p_Connect :: "string \<Rightarrow> nat option \<Rightarrow> p2p_node \<Rightarrow> net_error + p2p_node" where
  "p2p_Connect peerID dialled n = (case dialled of
     None \<Rightarrow> Inl DialFailed
   | Some conn \<Rightarrow> Inr (n\<lparr>pn_peers := gput peerID conn (pn_peers n), pn_open := conn # pn_open n\<rparr>))"

definition p2p_Disconnect :: "string \<Rightarrow> p2p_node \<Rightarrow> p2p_node" where
  "p2p_Disconnect peerID n = (case gget (pn_peers n) peerID of
     None \<Rightarrow> n
   | Some conn \<Rightarrow> n\<lparr>pn_open := filter (\<lambda>c. c \<noteq> conn) (pn_open n), pn_peers := gdel peerID (pn_peers n)\<rparr>)"

definition GetActivePeers :: "string list \<Rightarrow> p2p_node \<Rightarrow> string list" where
  "GetActivePeers ord n = map fst (range_items ord (pn_peers n))"

text \<open>The writes of a broadcast; failed ones are only printed.\<close>

definition p2p_Broadcast :: "string list \<Rightarrow> byte list \<Rightarrow> p2p_node \<Rightarrow> (nat \<times> byte list) list" where
  "p2p_Broadcast ord msg n = map (\<lambda>(_, conn). (conn, msg)) (range_items ord (pn_peers n))"

definition known_peers :: "(string \<times> string) list" where
  "known_peers = [(''validator1'', ''54.183.204.244:3000''), (''validator2'', ''52.53.192.236:3000'')]"

text \<open>A tick of \<open>discoverPeers\<close>; \<open>dial\<close> is the outcome of dialling an address.\<close>

definition p2p_discoverPeers :: "(string \<Rightarrow> nat option) \<Rightarrow> p2p_node \<Rightarrow> p2p_node" where
  "p2p_discoverPeers dial n = fold (\<lambda>(i, addr) n. if i \<noteq> pn_id n
     then (case p2p_Connect i (dial addr) n of Inl e \<Rightarrow> n | Inr n' \<Rightarrow> n') else n) known_peers n"

section \<open>The message handler\<close>

datatype p2p_message_type =
    P2PBlock | P2PVote | P2PCertificate | P2PComplaint | P2PSyncRequest | P2PSyncResponse | P2PRecoveryRequest | P2PRecoveryResponse

record p2p_message =
  pm_type :: p2p_message_type
  pm_payload :: "byte list"
  pm_time :: int
  pm_sender :: string

record message_handler =
  mh_node :: p2p_node
  mh_handlers :: "(p2p_message_type, p2p_message \<Rightarrow> string option) gomap"
  mh_running :: bool

definition NewMessageHandler :: "p2p_node \<Rightarrow> message_handler" where
  "NewMessageHandler n = \<lparr>mh_node = n, mh_handlers = [], mh_running = False\<rparr>"

definition RegisterHandler :: "p2p_message_type \<Rightarrow> (p2p_message \<Rightarrow> string option) \<Rightarrow> message_handler \<Rightarrow> message_handler" where
  "RegisterHandler t h mh = mh\<lparr>mh_handlers := gput t h (mh_handlers mh)\<rparr>"

definition mh_Start :: "message_handler \<Rightarrow> message_handler" where
  "mh_Start mh = (if mh_running mh then mh else mh\<lparr>mh_running := True\<rparr>)"

definition mh_Stop :: "message_handler \<Rightarrow> message_handler" where
  "mh_Stop mh = (if \<not> mh_running mh then mh else mh\<lparr>mh_running := False\<rparr>)"

definition HandleMessage :: "p2p_message \<Rightarrow> message_handler \<Rightarrow> net_error + string option" where
  "HandleMessage m mh = (case gget (mh_handlers mh) (pm_type m) of None \<Rightarrow> Inl NoHandler | Some h \<Rightarrow> Inr (h m))"

text \<open>\<open>payload\<close> and \<open>enc\<close> are the results of the two calls of \<open>json.Marshal\<close>.\<close>

definition mh_SendMessage :: "(p2p_message \<Rightarrow> byte list option) \<Rightarrow> string list \<Rightarrow> string \<Rightarrow> p2p_message_type \<Rightarrow> byte list option \<Rightarrow> message_handler
    \<Rightarrow> net_error + (nat \<times> byte list) list" where
  "mh_SendMessage enc ord peerID t payload mh = (case payload of
     None \<Rightarrow> Inl MarshalFailed
   | Some bytes \<Rightarrow> (case enc \<lparr>pm_type = t, pm_payload = bytes, pm_time = 0, pm_sender = pn_id (mh_node mh)\<rparr> of
       None \<Rightarrow> Inl MarshalFailed
     | Some msgBytes \<Rightarrow> Inr (p2p_Broadcast ord msgBytes (mh_node mh))))"

definition mh_BroadcastMessage :: "(p2p_message \<Rightarrow> byte list option) \<Rightarrow> string list \<Rightarrow> p2p_message_type \<Rightarrow> byte list option \<Rightarrow> message_handler
    \<Rightarrow> net_error + (nat \<times> byte list) list" where
  "mh_BroadcastMessage enc ord t payload mh = (case payload of
     None \<Rightarrow> Inl MarshalFailed
   | Some bytes \<Rightarrow> (case enc \<lparr>pm_type = t, pm_payload = bytes, pm_time = 0, pm_sender = pn_id (mh_node mh)\<rparr> of
       None \<Rightarrow> Inl MarshalFailed
     | Some msgBytes \<Rightarrow> Inr (p2p_Broadcast ord msgBytes (mh_node mh))))"

text \<open>\<open>network/peer.go\<close>; times are in nanoseconds.\<close>

record p2p_peer =
  pp_ID :: string
  pp_addr :: string
  pp_connected :: bool
  pp_lastSeen :: int

definition NewPeer :: "int \<Rightarrow> string \<Rightarrow> string \<Rightarrow> p2p_peer" where
  "NewPeer now i addr = \<lparr>pp_ID = i, pp_addr = addr, pp_connected = False, pp_lastSeen = now\<rparr>"

definition peer_IsActive :: "int \<Rightarrow> p2p_peer \<Rightarrow> bool" where
  "peer_IsActive now p = (pp_connected p \<and> now - pp_lastSeen p < 5 * 60 * 1000000000)"

definition peer_UpdateLastSeen :: "int \<Rightarrow> p2p_peer \<Rightarrow> p2p_peer" where
  "peer_UpdateLastSeen now p = p\<lparr>pp_lastSeen := now\<rparr>"

definition peer_Connect :: "int \<Rightarrow> p2p_peer \<Rightarrow> p2p_peer" where
  "peer_Connect now p = peer_UpdateLastSeen now (p\<lparr>pp_connected := True\<rparr>)"

definition peer_Disconnect :: "p2p_peer \<Rightarrow> p2p_peer" where
  "peer_Disconnect p = p\<lparr>pp_connected := False\<rparr>"

section \<open>The network manager of the core\<close>

record network_manager =
  nmg_peers :: "(address, int \<times> nat) gomap"
  nmg_messages :: "network_message list"

definition NewNetworkManager :: network_manager where
  "NewNetworkManager = \<lparr>nmg_peers = [], nmg_messages = []\<rparr>"

definition nmg_addPeer :: "address \<Rightarrow> int \<Rightarrow> nat \<Rightarrow> network_manager \<Rightarrow> network_manager" where
  "nmg_addPeer a now conn nm = nm\<lparr>nmg_peers := gput a (now, conn) (nmg_peers nm)\<rparr>"

definition nmg_removePeer :: "address \<Rightarrow> network_manager \<Rightarrow> network_manager" where
  "nmg_removePeer a nm = nm\<lparr>nmg_peers := gdel a (nmg_peers nm)\<rparr>"

definition nmg_updatePeerLastSeen :: "int \<Rightarrow> address \<Rightarrow> network_manager \<Rightarrow> network_manager" where
  "nmg_updatePeerLastSeen now a nm = (case gget (nmg_peers nm) a of
     None \<Rightarrow> nm | Some (_, conn) \<Rightarrow> nm\<lparr>nmg_peers := gput a (now, conn) (nmg_peers nm)\<rparr>)"

text \<open>\<open>readMessage\<close> makes up a message without reading.\<close>

definition nmg_readMessage :: "address \<Rightarrow> net_error + network_message" where
  "nmg_readMessage remote = Inr \<lparr>nmsg_type = MessageTypeBlock, nmsg_payload = bytes_of ''dummy_message'', nmsg_from = [], nmsg_to = [],
     nmsg_sender = remote, nmsg_recipient = [], nmsg_time = 0, nmsg_TTL = 0, nmsg_signature = [], nmsg_priority = 0\<rparr>"

text \<open>One turn of the loop of \<open>handleConnection\<close>: \<open>None\<close> when it waits for room in the channel, else
  the new state and whether the loop goes on.\<close>

definition nmg_connection_turn :: "address \<Rightarrow> network_manager \<Rightarrow> (network_manager \<times> bool) option" where
  "nmg_connection_turn remote nm = (case nmg_readMessage remote of
     Inl e \<Rightarrow> Some (nmg_removePeer remote nm, False)
   | Inr m \<Rightarrow> if length (nmg_messages nm) < 100 then Some (nm\<lparr>nmg_messages := nmg_messages nm @ [m]\<rparr>, True) else None)"

definition nmg_processMessage :: "network_message \<Rightarrow> network_manager \<Rightarrow> network_manager" where
  "nmg_processMessage m nm = nm"

definition nmg_handleMessages :: "network_manager \<Rightarrow> network_manager" where
  "nmg_handleMessages nm = (case nmg_messages nm of [] \<Rightarrow> nm | m # ms \<Rightarrow> nmg_processMessage m (nm\<lparr>nmg_messages := ms\<rparr>))"

section \<open>Runs of the service\<close>

inductive svc_step :: "service \<Rightarrow> service \<Rightarrow> bool" where
  svs_start: "svc_Start True s = Inr s' \<Longrightarrow> svc_step s s'"
| svs_stop: "svc_Stop s = Inr s' \<Longrightarrow> svc_step s s'"
| svs_seed: "seed \<in> set (nc_Seeds (svc_config s)) \<Longrightarrow> svc_step s (connectToSeed now seed d s)"
| svs_discover: "svc_step s (svc_discoverPeers now k s)"
| svs_remove: "svc_step s (svc_removePeer a s)"
| svs_seen: "svc_step s (svc_updatePeerLastSeen now a s)"
| svs_broadcast: "svc_step s (svc_BroadcastMessage now ord msg s)"
| svs_send: "svc_SendMessage now now' a msg s = Inr (msg', s') \<Longrightarrow> svc_step s s'"
| svs_optimise: "OptimizePeerConnections ord s = Inr s' \<Longrightarrow> svc_step s s'"

inductive svc_reach :: "net_config \<Rightarrow> service \<Rightarrow> bool" for cfg where
  svr_new: "svc_reach cfg (NewService cfg)"
| svr_step: "svc_reach cfg s \<Longrightarrow> svc_step s s' \<Longrightarrow> svc_reach cfg s'"

text \<open>At most \<open>MaxPeers\<close> peers, each allocated, filed under its own address and known to the layer.\<close>

definition svc_inv :: "net_config \<Rightarrow> service \<Rightarrow> bool" where
  "svc_inv cfg s = (svc_config s = cfg \<and> gwf (svc_peers s) \<and> int (glen (svc_peers s)) \<le> max 0 (nc_MaxPeers cfg) \<and>
     (\<forall>a p. gget (svc_peers s) a = Some p \<longrightarrow>
        p < svc_next s \<and> tp_address (svc_heap s p) = a \<and> gget (nl_peers (svc_layer s)) a = Some p))"

section \<open>Lemmas\<close>

text \<open>Writing \<open>LastSeen\<close> changes nothing else.\<close>

definition same_but_seen :: "peer_heap \<Rightarrow> peer_heap \<Rightarrow> bool" where
  "same_but_seen ph ph' = (\<forall>p. (ph' p)\<lparr>tp_lastSeen := 0\<rparr> = (ph p)\<lparr>tp_lastSeen := 0\<rparr>)"

lemma same_but_seen_simps [simp]: "same_but_seen ph ph" "same_but_seen ph (ph(p := (ph p)\<lparr>tp_lastSeen := t\<rparr>))"
  by (auto simp: same_but_seen_def)

lemma same_but_seen_trans: "same_but_seen a b \<Longrightarrow> same_but_seen b c \<Longrightarrow> same_but_seen a c"
  by (simp add: same_but_seen_def)

lemma same_but_seen_address:
  assumes "same_but_seen ph ph'"
  shows "tp_address (ph' p) = tp_address (ph p)"
proof -
  have "tp_address ((ph' p)\<lparr>tp_lastSeen := 0\<rparr>) = tp_address ((ph p)\<lparr>tp_lastSeen := 0\<rparr>)"
    using assms by (simp only: same_but_seen_def)
  then show ?thesis
    by simp
qed

lemma layer_Broadcast_same: "same_but_seen ph (layer_Broadcast now ord l ph)"
proof -
  have "same_but_seen ph (fold (\<lambda>p ph. if tp_connection (ph p) \<noteq> None
     then (case layer_SendMessage now p ph of Inl e \<Rightarrow> ph | Inr ph' \<Rightarrow> ph') else ph) ps ph)" for ps
  proof (induction ps arbitrary: ph)
    case (Cons p ps)
    have "same_but_seen ph (if tp_connection (ph p) \<noteq> None
        then (case layer_SendMessage now p ph of Inl e \<Rightarrow> ph | Inr ph' \<Rightarrow> ph') else ph)"
      by (simp add: layer_SendMessage_def split: option.split)
    from same_but_seen_trans[OF this Cons] show ?case
      by simp
  qed simp
  then show ?thesis
    by (simp add: layer_Broadcast_def)
qed

lemma svc_inv_heap: "svc_inv cfg s \<Longrightarrow> same_but_seen (svc_heap s) ph \<Longrightarrow> svc_inv cfg (s\<lparr>svc_heap := ph\<rparr>)"
  by (simp add: svc_inv_def same_but_seen_address)

lemma svc_inv_simps [simp]:
  "svc_inv cfg (s\<lparr>svc_messages := m\<rparr>) = svc_inv cfg s" "svc_inv cfg (s\<lparr>svc_running := r\<rparr>) = svc_inv cfg s"
  "svc_inv cfg s \<Longrightarrow> svc_inv cfg (s\<lparr>svc_layer := l, svc_peers := []\<rparr>)"
  by (simp_all add: svc_inv_def)

lemma svc_inv_new:
  assumes "svc_inv cfg s" "svc_new p s = (i, s')"
  shows "svc_inv cfg s'" "i < svc_next s'" "svc_heap s' i = p" "svc_peers s' = svc_peers s" "svc_config s' = svc_config s"
proof -
  have "gget (svc_peers s) a \<noteq> Some (svc_next s)" for a
    using assms(1) unfolding svc_inv_def by (metis less_irrefl)
  then show "svc_inv cfg s'" "i < svc_next s'" "svc_heap s' i = p" "svc_peers s' = svc_peers s" "svc_config s' = svc_config s"
    using assms by (auto simp: svc_new_def svc_inv_def less_Suc_eq)
qed

lemma svc_inv_addPeer:
  assumes "svc_inv cfg s" "p < svc_next s"
  shows "svc_inv cfg (svc_addPeer now p s)"
proof (cases "int (glen (svc_peers s)) \<ge> nc_MaxPeers (svc_config s)")
  case False
  then show ?thesis
    using assms by (auto simp: svc_addPeer_def svc_inv_def layer_AddPeer_def glen_gput Let_def)
qed (simp add: svc_addPeer_def assms(1))

lemma svc_inv_seed: "svc_inv cfg s \<Longrightarrow> svc_inv cfg (connectToSeed now seed d s)"
  by (cases d) (auto simp: connectToSeed_def Let_def split: prod.split dest: svc_inv_new intro: svc_inv_addPeer)

lemma svc_inv_discover_seed: "svc_inv cfg s \<Longrightarrow> svc_inv cfg (discover_seed now seed s)"
  by (auto simp: discover_seed_def Let_def split: prod.split dest: svc_inv_new intro: svc_inv_addPeer)

lemma svc_inv_discover: "svc_inv cfg s \<Longrightarrow> svc_inv cfg (svc_discoverPeers now k s)"
proof -
  have "svc_inv cfg s \<Longrightarrow> svc_inv cfg (fold (discover_seed now) seeds s)" for seeds
    by (induction seeds arbitrary: s) (simp_all add: svc_inv_discover_seed)
  then show "svc_inv cfg s \<Longrightarrow> ?thesis"
    by (simp add: svc_discoverPeers_def)
qed

lemma add_missing_same: "add_missing_seeds seeds s = Inr s' \<Longrightarrow> s' = s"
  by (induction seeds) (auto split: if_splits)

lemma optimise_same: "OptimizePeerConnections ord s = Inr s' \<Longrightarrow> s' = s"
  by (auto simp: OptimizePeerConnections_def Let_def split: if_splits dest: add_missing_same)

lemma svc_step_inv: "svc_step s s' \<Longrightarrow> svc_inv cfg s \<Longrightarrow> svc_inv cfg s'"
proof (induction rule: svc_step.induct)
  case (svs_broadcast s now ord msg)
  then show ?case
    by (simp add: svc_BroadcastMessage_def svc_inv_heap layer_Broadcast_same)
next
  case (svs_seen s now a)
  then show ?case
    by (auto simp: svc_updatePeerLastSeen_def svc_inv_heap split: option.split)
next
  case (svs_send now now' a msg s msg' s')
  then show ?case
    by (auto simp: svc_SendMessage_def layer_SendMessage_def Let_def svc_inv_heap split: if_splits option.splits)
next
  case (svs_remove s a)
  then show ?case
    using glen_gdel_le[of a "svc_peers s"] by (auto simp: svc_removePeer_def layer_RemovePeer_def svc_inv_def)
qed (auto simp: svc_Start_def svc_Stop_def svc_inv_seed svc_inv_discover split: if_splits sum.splits dest: optimise_same)

lemma svc_reach_inv: "svc_reach cfg s \<Longrightarrow> svc_inv cfg s"
  by (induction rule: svc_reach.induct) (simp_all add: svc_step_inv, simp add: svc_inv_def NewService_def)

text \<open>A discovered seed is a peer without connection, and stays one while others are discovered.\<close>

lemma discover_seed_result:
  fixes now :: int and seed :: address
  assumes "svc_inv cfg s" "int (glen (svc_peers s)) < nc_MaxPeers (svc_config s)"
  defines "s' \<equiv> discover_seed now seed s"
  shows "svc_config s' = svc_config s" "svc_running s' = svc_running s" "glen (svc_peers s') \<le> glen (svc_peers s) + 1"
    "gget (svc_peers s') seed = Some (svc_next s)" "tp_connection (svc_heap s' (svc_next s)) = None"
    "a \<noteq> seed \<Longrightarrow> gget (svc_peers s') a = gget (svc_peers s) a"
    "p < svc_next s \<Longrightarrow> svc_heap s' p = svc_heap s p" "svc_next s' = svc_next s + 1"
  using assms by (auto simp: discover_seed_def svc_new_def svc_addPeer_def svc_inv_def bare_peer_def glen_gput Let_def)

lemma discover_all:
  assumes "svc_inv cfg s" "int (glen (svc_peers s)) + int (length seeds) \<le> nc_MaxPeers (svc_config s)"
    and "\<forall>a \<in> done'. \<exists>p. gget (svc_peers s) a = Some p \<and> tp_connection (svc_heap s p) = None"
  shows "svc_running (fold (discover_seed now) seeds s) = svc_running s \<and>
    (\<forall>a \<in> done' \<union> set seeds. \<exists>p. gget (svc_peers (fold (discover_seed now) seeds s)) a = Some p \<and>
      tp_connection (svc_heap (fold (discover_seed now) seeds s) p) = None)"
  using assms
proof (induction seeds arbitrary: s done')
  case (Cons seed seeds)
  have room: "int (glen (svc_peers s)) < nc_MaxPeers (svc_config s)"
    using Cons.prems(2) by simp
  note step = discover_seed_result[OF Cons.prems(1) room, where now = now and seed = seed]
  have "\<exists>p. gget (svc_peers (discover_seed now seed s)) a = Some p \<and> tp_connection (svc_heap (discover_seed now seed s) p) = None"
    if a: "a \<in> insert seed done'" for a
  proof (cases "a = seed")
    case False
    then obtain p where p: "gget (svc_peers s) a = Some p" "tp_connection (svc_heap s p) = None"
      using Cons.prems(3) a by auto
    then have "p < svc_next s"
      using Cons.prems(1) by (simp add: svc_inv_def)
    then show ?thesis
      using p step(6,7) False by simp
  qed (use step(4,5) in simp)
  then have "\<forall>a \<in> insert seed done'. \<exists>p. gget (svc_peers (discover_seed now seed s)) a = Some p \<and>
      tp_connection (svc_heap (discover_seed now seed s) p) = None"
    by blast
  from Cons.IH[OF svc_inv_discover_seed[OF Cons.prems(1)] _ this] show ?case
    using step(1-3) Cons.prems(2) by simp
qed simp

lemma add_missing_result:
  "add_missing_seeds seeds s =
     (if int (glen (svc_peers s)) < nc_MaxPeers (svc_config s) \<and> (\<exists>a \<in> set seeds. a \<notin> gkeys (svc_peers s)) then Inl Deadlock else Inr s)"
  by (induction seeds) (auto simp: ghas_gkeys)

lemma scored_peers:
  assumes "svc_inv cfg s" "range_order ord (svc_peers s)"
  shows "set (map (\<lambda>p. tp_address (svc_heap s p)) (range_vals ord (svc_peers s))) = gkeys (svc_peers s)"
proof -
  have "set (range_vals ord (svc_peers s)) = {p. \<exists>a. gget (svc_peers s) a = Some p}"
    using assms(2) by (auto simp: set_range_vals range_order_def gkeys_iff)
  then show ?thesis
    using assms(1) by (force simp: svc_inv_def gkeys_iff image_iff)
qed

section \<open>Properties\<close>

text \<open>(C36) In every state the service reaches it has at most \<open>MaxPeers\<close> peers (none when that is
  negative), and each of them is filed under its own address in the service and in the layer.\<close>

theorem service_peers_bounded:
  assumes "svc_reach cfg s"
  shows "int (length (svc_GetPeers (map fst (svc_peers s)) s)) \<le> max 0 (nc_MaxPeers cfg) \<and>
    (\<forall>a p. gget (svc_peers s) a = Some p \<longrightarrow> tp_address (svc_heap s p) = a \<and> gget (nl_peers (svc_layer s)) a = Some p)"
proof -
  have inv: "svc_inv cfg s"
    using assms by (rule svc_reach_inv)
  then have "length (svc_GetPeers (map fst (svc_peers s)) s) \<le> glen (svc_peers s)"
    using length_range_vals_le[of "map fst (svc_peers s)" "svc_peers s"] by (simp add: svc_GetPeers_def glen_def)
  then show ?thesis
    using inv by (auto simp: svc_inv_def)
qed

text \<open>A tick of the peer discovery replaces every seed, also one that is connected, by a peer without
  connection: as long as there is room for the seeds, every message to one of them is then refused
  with the error that the peer is not connected.\<close>

theorem discovery_disconnects:
  assumes "svc_reach cfg s" "svc_running s" "seed \<in> set (take k (nc_Seeds cfg))"
    and "int (glen (svc_peers s)) + int (length (take k (nc_Seeds cfg))) \<le> nc_MaxPeers cfg"
  shows "svc_SendMessage now1 now2 seed msg (svc_discoverPeers now k s) = Inl PeerNotConnected"
proof -
  have inv: "svc_inv cfg s"
    using assms(1) by (rule svc_reach_inv)
  then have cfg: "svc_config s = cfg"
    by (simp add: svc_inv_def)
  from discover_all[OF inv, of "take k (nc_Seeds cfg)" "{}" now] assms(3,4) obtain p where
    "gget (svc_peers (svc_discoverPeers now k s)) seed = Some p" "tp_connection (svc_heap (svc_discoverPeers now k s) p) = None"
    "svc_running (svc_discoverPeers now k s) = svc_running s"
    by (auto simp: svc_discoverPeers_def cfg)
  then show ?thesis
    using assms(2) by (simp add: svc_SendMessage_def layer_SendMessage_def Let_def)
qed

text \<open>\<open>OptimizePeerConnections\<close> never changes a peer.  When the service has fewer than \<open>MinPeers\<close>
  peers, room for more and a seed that is not among them, which is the only case with
  something to do, it waits for ever for the mutex it holds; in every other case it
  returns with the service as it was.\<close>

theorem optimize_blocks_or_idles:
  assumes "svc_reach cfg s" "svc_running s" "0 \<le> nc_MaxPeers cfg" "range_order ord (svc_peers s)"
  shows "OptimizePeerConnections ord s =
    (if int (glen (svc_peers s)) < nc_MinPeers cfg \<and> int (glen (svc_peers s)) < nc_MaxPeers cfg \<and>
        (\<exists>seed \<in> set (nc_Seeds cfg). seed \<notin> gkeys (svc_peers s))
     then Inl Deadlock else Inr s)"
proof -
  have inv: "svc_inv cfg s"
    using assms(1) by (rule svc_reach_inv)
  let ?scored = "remdups (map (\<lambda>p. tp_address (svc_heap s p)) (range_vals ord (svc_peers s)))"
  have keys: "set ?scored = gkeys (svc_peers s)"
    using scored_peers[OF inv assms(4)] by simp
  then have "length ?scored = glen (svc_peers s)"
    using inv by (metis distinct_card distinct_remdups glen_card svc_inv_def)
  moreover have "\<not> list_ex (\<lambda>a. gget (svc_peers s) a = None) ?scored"
    using keys by (auto simp: list_ex_iff gkeys_iff)
  ultimately show ?thesis
    using inv assms(2,3) by (auto simp: OptimizePeerConnections_def add_missing_result svc_inv_def Let_def)
qed

text \<open>\<open>SendMessage\<close> of the message handler sends to every peer, not to the one named.\<close>

lemma handler_send_broadcasts: "mh_SendMessage enc ord peerID t payload mh = mh_BroadcastMessage enc ord t payload mh"
  by (simp add: mh_SendMessage_def mh_BroadcastMessage_def)

text \<open>A tick of the discovery of a P2P node opens a new connection to each peer and drops the old one
  without closing it.\<close>

lemma p2p_discovery_leaks:
  assumes "pn_id n = ''validator1''" "dial ''52.53.192.236:3000'' = Some c"
  shows "pn_open (p2p_discoverPeers dial n) = c # pn_open n \<and> gget (pn_peers (p2p_discoverPeers dial n)) ''validator2'' = Some c"
  using assms by (simp add: p2p_discoverPeers_def known_peers_def p2p_Connect_def)

text \<open>A connection to the network manager of the core never ends: messages are made up, not read.\<close>

lemma nmg_connection_never_ends: "nmg_connection_turn remote nm \<noteq> Some (nm', False)"
  by (simp add: nmg_connection_turn_def nmg_readMessage_def)

section \<open>Witnesses\<close>

definition two_seeds :: net_config where
  "two_seeds = \<lparr>nc_ListenAddr = ''me:1'', nc_Seeds = [''s1:1'', ''s2:1''], nc_MaxPeers = 10, nc_MinPeers = 5\<rparr>"

text \<open>A started service that is connected to its first seed.\<close>

definition seeded :: service where
  "seeded = connectToSeed 1 ''s1:1'' (Some 7) (projr (svc_Start True (NewService two_seeds)))"

lemma seeded_facts: "svc_reach two_seeds seeded" "svc_running seeded" "svc_peers seeded = [(''s1:1'', 0)]"
  "range_order [''s1:1''] (svc_peers seeded)"
proof -
  have "svc_reach two_seeds (projr (svc_Start True (NewService two_seeds)))"
    by (rule svr_step[OF svr_new svs_start]) (simp add: svc_Start_def)
  then show "svc_reach two_seeds seeded"
    unfolding seeded_def by (rule svr_step[OF _ svs_seed]) (simp add: svc_Start_def NewService_def two_seeds_def)
  show "svc_running seeded" "svc_peers seeded = [(''s1:1'', 0)]" "range_order [''s1:1''] (svc_peers seeded)"
    by (simp_all add: seeded_def svc_Start_def NewService_def connectToSeed_def svc_new_def svc_addPeer_def two_seeds_def
        bare_peer_def gput_def range_order_def gkeys_def Let_def)
qed

theorem service_peers_bounded_witness: "int (length (svc_GetPeers [''s1:1''] seeded)) \<le> 10"
  using service_peers_bounded[OF seeded_facts(1)] by (simp add: seeded_facts(3) two_seeds_def)

definition hello :: network_message where
  "hello = projr (nmg_readMessage ''x'')"

theorem discovery_disconnects_witness:
  "(\<exists>r. svc_SendMessage 2 2 ''s1:1'' hello seeded = Inr r) \<and> svc_SendMessage 4 4 ''s1:1'' hello (svc_discoverPeers 3 2 seeded) = Inl PeerNotConnected"
proof
  show "\<exists>r. svc_SendMessage 2 2 ''s1:1'' hello seeded = Inr r"
    by (simp add: svc_SendMessage_def layer_SendMessage_def Let_def seeded_def svc_Start_def NewService_def connectToSeed_def svc_new_def
        svc_addPeer_def two_seeds_def bare_peer_def)
  show "svc_SendMessage 4 4 ''s1:1'' hello (svc_discoverPeers 3 2 seeded) = Inl PeerNotConnected"
    by (rule discovery_disconnects[OF seeded_facts(1,2)]) (simp_all add: two_seeds_def seeded_facts(3) glen_def)
qed

theorem optimize_blocks_or_idles_witness: "OptimizePeerConnections [''s1:1''] seeded = Inl Deadlock"
  using optimize_blocks_or_idles[OF seeded_facts(1,2) _ seeded_facts(4)]
  by (simp add: two_seeds_def seeded_facts(3) glen_def gkeys_def)

end
