(* ===== verification/Block_Sync.thy ===== *)
theory Block_Sync
  imports Core_Dag
begin

text \<open>
  \<open>internal/consensus/block_sync.go\<close> and \<open>sync_server.go\<close>: a node asks another for the blocks
  it does not have, naming the hashes of its 50 most recent blocks, and adds what comes
  back to its DAG.  A message is written once and read once: \<open>gob\<close> is a codec given as an
  argument, and one \<open>Read\<close> yields at most a buffer full of what was written.  Received blocks
  are allocated at the next free reference.  The goroutines of one round are run one after
  the other, in the order of the list given.
\<close>

section \<open>Messages\<close>

record block_request =
  br_node :: address
  br_known :: "hash list"

record block_answer =
  ba_node :: address
  ba_blocks :: "block list"

record gob_codec =
  gob_enc_request :: "block_request \<Rightarrow> byte list option"
  gob_dec_request :: "byte list \<Rightarrow> block_request option"
  gob_enc_answer :: "block_answer \<Rightarrow> byte list option"
  gob_dec_answer :: "byte list \<Rightarrow> block_answer option"

text \<open>One \<open>Read\<close> into a buffer of \<open>bufsize\<close> bytes; \<open>avail\<close> is how much has arrived.\<close>

definition tcp_read :: "nat \<Rightarrow> nat \<Rightarrow> byte list \<Rightarrow> byte list" where
  "tcp_read bufsize avail bs = take (min bufsize avail) bs"

section \<open>The synchroniser\<close>

record block_synchronizer =
  by_nodeID :: address
  by_validators :: "address list"
  by_heap :: block_heap
  by_next :: bref
  by_dag :: core_dag
  by_running :: bool
  by_stopClosed :: bool
  by_syncInterval :: int

definition NewBlockSynchronizer :: "address \<Rightarrow> address list \<Rightarrow> block_heap \<Rightarrow> bref \<Rightarrow> core_dag \<Rightarrow> int \<Rightarrow> block_synchronizer" where
  "NewBlockSynchronizer me vs hp nxt d interval = \<lparr>by_nodeID = me, by_validators = vs, by_heap = hp, by_next = nxt, by_dag = d,
     by_running = False, by_stopClosed = False, by_syncInterval = interval\<rparr>"

definition bsync_Start :: "block_synchronizer \<Rightarrow> block_synchronizer" where
  "bsync_Start bs = (if by_running bs then bs else bs\<lparr>by_running := True\<rparr>)"

definition bsync_Stop :: "block_synchronizer \<Rightarrow> go_panic + block_synchronizer" where
  "bsync_Stop bs = (if \<not> by_running bs then Inr bs
     else if by_stopClosed bs then Inl ClosedChannel
     else Inr (bs\<lparr>by_stopClosed := True, by_running := False\<rparr>))"

definition getValidatorSyncAddress :: "address \<Rightarrow> string" where
  "getValidatorSyncAddress v =
     (if v = ''validator1'' then ''54.183.204.244:4000''
      else if v = ''validator2'' then ''52.53.192.236:4000'' else [])"

text \<open>The hashes a node names in its requests.\<close>

definition known_hashes :: "header_digest \<Rightarrow> hash list \<Rightarrow> block_synchronizer \<Rightarrow> go_panic + hash list" where
  "known_hashes H ord bs =
     map_sum id (map (\<lambda>b. block_ComputeHash H (by_heap bs b))) (core_GetRecentBlocks (by_heap bs) ord (by_dag bs) 50)"

text \<open>The loop over the blocks of an answer; \<open>cl r\<close> is the order in which a clean-up visits the DAG
  when the block at \<open>r\<close> is added.\<close>

fun add_blocks :: "header_digest \<Rightarrow> (bref \<Rightarrow> hash list) \<Rightarrow> hash list \<Rightarrow> block list \<Rightarrow> block_synchronizer \<Rightarrow> block_synchronizer" where
  "add_blocks H cl known [] bs = bs"
| "add_blocks H cl known (b # rest) bs =
     (if block_ComputeHash H b \<in> set known then add_blocks H cl known rest bs
      else let r = by_next bs; hp = (by_heap bs)(r := b);
               d = (case core_AddBlock H hp (cl r) r (by_dag bs) of Inl e \<Rightarrow> by_dag bs | Inr d \<Rightarrow> d)
           in add_blocks H cl known rest (bs\<lparr>by_heap := hp, by_next := r + 1, by_dag := d\<rparr>))"

text \<open>\<open>syncWithValidator\<close>: \<open>peer\<close> maps an address and the bytes of a request to the bytes the peer
  writes back, or to nothing when it cannot be reached or does not answer; \<open>avail\<close> of them
  have arrived at the read.  The hashes are put into the request in the order of a range.\<close>

definition syncWithValidator ::
  "header_digest \<Rightarrow> gob_codec \<Rightarrow> (string \<Rightarrow> byte list \<Rightarrow> byte list option) \<Rightarrow> nat \<Rightarrow> (bref \<Rightarrow> hash list) \<Rightarrow> hash list \<Rightarrow> address
     \<Rightarrow> block_synchronizer \<Rightarrow> block_synchronizer" where
  "syncWithValidator H G peer avail cl known validatorID bs =
     (let addr = getValidatorSyncAddress validatorID
      in if addr = [] then bs
         else case gob_enc_request G \<lparr>br_node = by_nodeID bs, br_known = known\<rparr> of
           None \<Rightarrow> bs
         | Some req \<Rightarrow> (case peer addr req of
             None \<Rightarrow> bs
           | Some answer \<Rightarrow> (case gob_dec_answer G (tcp_read 40960 avail answer) of
               None \<Rightarrow> bs
             | Some a \<Rightarrow> add_blocks H cl known (ba_blocks a) bs)))"

text \<open>\<open>kord\<close> is the order in which the set of known hashes is ranged over.\<close>

definition syncWithPeers ::
  "header_digest \<Rightarrow> gob_codec \<Rightarrow> (string \<Rightarrow> byte list \<Rightarrow> byte list option) \<Rightarrow> nat \<Rightarrow> (bref \<Rightarrow> hash list) \<Rightarrow> hash list \<Rightarrow> (hash list \<Rightarrow> hash list)
     \<Rightarrow> block_synchronizer \<Rightarrow> go_panic + block_synchronizer" where
  "syncWithPeers H G peer avail cl ord kord bs = (case known_hashes H ord bs of
     Inl p \<Rightarrow> Inl p
   | Inr hashes \<Rightarrow>
       Inr (fold (syncWithValidator H G peer avail cl (kord (remdups hashes))) (filter (\<lambda>v. v \<noteq> by_nodeID bs) (by_validators bs)) bs))"

text \<open>\<open>HandleSyncRequest\<close>: the bytes written to the connection.\<close>

definition missing_blocks :: "header_digest \<Rightarrow> hash list \<Rightarrow> hash list \<Rightarrow> block_synchronizer \<Rightarrow> go_panic + block list" where
  "missing_blocks H ord known bs =
     map_sum id (\<lambda>ours. filter (\<lambda>b. block_ComputeHash H b \<notin> set known) (map (by_heap bs) ours))
       (core_GetRecentBlocks (by_heap bs) ord (by_dag bs) 50)"

definition HandleSyncRequest :: "header_digest \<Rightarrow> gob_codec \<Rightarrow> hash list \<Rightarrow> block_request \<Rightarrow> block_synchronizer \<Rightarrow> go_panic + byte list option" where
  "HandleSyncRequest H G ord req bs =
     map_sum id (\<lambda>blocks. gob_enc_answer G \<lparr>ba_node = by_nodeID bs, ba_blocks = blocks\<rparr>)
       (missing_blocks H ord (br_known req) bs)"

section \<open>The server\<close>

record sync_server =
  sv_synchronizer :: block_synchronizer
  sv_port :: int
  sv_listening :: bool
  sv_running :: bool
  sv_stopClosed :: bool

definition NewSyncServer :: "block_synchronizer \<Rightarrow> int \<Rightarrow> sync_server" where
  "NewSyncServer bs port = \<lparr>sv_synchronizer = bs, sv_port = port, sv_listening = False, sv_running = False, sv_stopClosed = False\<rparr>"

text \<open>\<open>listen\<close> tells whether the port could be opened; \<open>None\<close> is its error.\<close>

definition ssrv_Start :: "bool \<Rightarrow> sync_server \<Rightarrow> sync_server option" where
  "ssrv_Start listen ss = (if sv_running ss then Some ss
     else if \<not> listen then None
     else Some (ss\<lparr>sv_listening := True, sv_running := True\<rparr>))"

definition ssrv_Stop :: "sync_server \<Rightarrow> go_panic + sync_server" where
  "ssrv_Stop ss = (if \<not> sv_running ss then Inr ss
     else if sv_stopClosed ss then Inl ClosedChannel
     else Inr (ss\<lparr>sv_stopClosed := True, sv_listening := False, sv_running := False\<rparr>))"

definition ssrv_handleConnection :: "header_digest \<Rightarrow> gob_codec \<Rightarrow> hash list \<Rightarrow> nat \<Rightarrow> byte list \<Rightarrow> sync_server \<Rightarrow> go_panic + byte list option" where
  "ssrv_handleConnection H G ord avail bytes ss = (case gob_dec_request G (tcp_read 4096 avail bytes) of
     None \<Rightarrow> Inr None
   | Some req \<Rightarrow> HandleSyncRequest H G ord req (sv_synchronizer ss))"

text \<open>A peer that runs this server under one address.\<close>

definition serving :: "header_digest \<Rightarrow> gob_codec \<Rightarrow> hash list \<Rightarrow> nat \<Rightarrow> sync_server \<Rightarrow> string \<Rightarrow> string \<Rightarrow> byte list \<Rightarrow> byte list option" where
  "serving H G ord avail ss here addr bytes = (if addr = here
     then case ssrv_handleConnection H G ord avail bytes ss of Inr (Some x) \<Rightarrow> Some x | _ \<Rightarrow> None else None)"

section \<open>Lemmas\<close>

text \<open>Keys are hashes, and every stored block is allocated.\<close>

definition store_ok :: "header_digest \<Rightarrow> block_synchronizer \<Rightarrow> bool" where
  "store_ok H bs = (gwf (cd_blocks (by_dag bs)) \<and> hash_agrees H (by_heap bs) (cd_blocks (by_dag bs)) \<and>
     (\<forall>h b. gget (cd_blocks (by_dag bs)) h = Some b \<longrightarrow> b < by_next bs))"

abbreviation stored :: "block_synchronizer \<Rightarrow> hash set" where
  "stored bs \<equiv> gkeys (cd_blocks (by_dag bs))"

text \<open>Adding one block that leaves the DAG within its limit.\<close>

lemma add_one:
  fixes bs :: block_synchronizer and blk :: block and cl :: "bref \<Rightarrow> hash list" and H :: header_digest
  defines "hp \<equiv> (by_heap bs)(by_next bs := blk)"
  defines "d \<equiv> (case core_AddBlock H hp (cl (by_next bs)) (by_next bs) (by_dag bs) of Inl e \<Rightarrow> by_dag bs | Inr d \<Rightarrow> d)"
  defines "bs' \<equiv> bs\<lparr>by_heap := hp, by_next := by_next bs + 1, by_dag := d\<rparr>"
  assumes "store_ok H bs" "int (glen (cd_blocks (by_dag bs))) + 1 \<le> cd_maxBlocks (by_dag bs)"
  shows "store_ok H bs'" "stored bs' = insert (block_ComputeHash H blk) (stored bs)" "by_nodeID bs' = by_nodeID bs"
    "cd_maxBlocks (by_dag bs') = cd_maxBlocks (by_dag bs)" "glen (cd_blocks d) \<le> glen (cd_blocks (by_dag bs)) + 1"
proof -
  let ?m = "cd_blocks (by_dag bs)" and ?h = "block_ComputeHash H blk"
  have old: "hash_agrees H hp ?m" "\<forall>h b. gget ?m h = Some b \<longrightarrow> b < by_next bs + 1"
    using assms(4) by (auto simp: store_ok_def hash_agrees_def hp_def less_Suc_eq)
  have wf: "gwf ?m"
    using assms(4) by (simp add: store_ok_def)
  have cases: "d = by_dag bs \<and> ?h \<in> stored bs \<or>
      ?h \<notin> stored bs \<and> cd_blocks d = gput ?h (by_next bs) ?m \<and> cd_maxBlocks d = cd_maxBlocks (by_dag bs)"
    using assms(5) by (cases "?h \<in> stored bs") (simp_all add: d_def hp_def core_AddBlock_def Let_def ghas_gkeys glen_gput[OF wf])
  then show "store_ok H bs'" "stored bs' = insert ?h (stored bs)" "by_nodeID bs' = by_nodeID bs"
    "cd_maxBlocks (by_dag bs') = cd_maxBlocks (by_dag bs)" "glen (cd_blocks d) \<le> glen ?m + 1"
    using assms(4) old by (auto simp: bs'_def store_ok_def hash_agrees_def hp_def glen_gput split: if_splits)
qed

lemma add_blocks_stored:
  assumes "store_ok H bs" "int (glen (cd_blocks (by_dag bs))) + int (length blocks) \<le> cd_maxBlocks (by_dag bs)"
  shows "store_ok H (add_blocks H cl known blocks bs) \<and> by_nodeID (add_blocks H cl known blocks bs) = by_nodeID bs \<and>
    stored (add_blocks H cl known blocks bs) = stored bs \<union> (block_ComputeHash H ` set blocks - set known)"
  using assms
proof (induction blocks arbitrary: bs)
  case (Cons b rest)
  show ?case
  proof (cases "block_ComputeHash H b \<in> set known")
    case False
    have one: "int (glen (cd_blocks (by_dag bs))) + 1 \<le> cd_maxBlocks (by_dag bs)"
      using Cons.prems(2) by simp
    note step = add_one[OF Cons.prems(1) one, of b cl]
    show ?thesis
      using Cons.IH[OF step(1)] Cons.prems(2) step(2-5) False by (auto simp: Let_def)
  qed (use Cons in \<open>auto simp: Let_def\<close>)
qed simp

lemma recent_ok:
  assumes "store_ok H bs" "range_order ord (cd_blocks (by_dag bs))"
  obtains ours where "core_GetRecentBlocks (by_heap bs) ord (by_dag bs) 50 = Inr ours"
    "recent_of (recent_less (by_heap bs)) (cd_blocks (by_dag bs)) 50 ours"
proof -
  have "gwf (cd_blocks (by_dag bs))"
    using assms(1) by (simp add: store_ok_def)
  from recent_of_sorted_range[OF this assms(2) _ strict_weak_recent_less, of 50 "by_heap bs"] that show ?thesis
    by (auto simp: core_GetRecentBlocks_def Let_def)
qed

lemma stored_hashes:
  "store_ok H bs \<Longrightarrow> (\<lambda>b. block_ComputeHash H (by_heap bs b)) ` snd ` set (cd_blocks (by_dag bs)) = stored bs"
  by (force simp: store_ok_def hash_agrees_def gkeys_def gget_set image_image)

lemma recent_subset: "recent_of lt m n ours \<Longrightarrow> set ours \<subseteq> snd ` set m"
  by (auto simp: recent_of_def dest!: set_mset_mono)

lemma recent_all:
  assumes "recent_of lt m n ours" "int (glen m) \<le> n"
  shows "set ours = snd ` set m"
proof -
  have "mset ours \<subseteq># mset (map snd m)" "size (mset ours) = size (mset (map snd m))"
    using assms by (simp_all add: recent_of_def glen_def)
  then have "mset ours = mset (map snd m)"
    by (metis mset_subset_size less_irrefl subset_mset.le_neq_trans)
  then show ?thesis
    by (metis set_map set_mset_mset)
qed

section \<open>Properties\<close>

text \<open>A message the codec writes and reads back, and \<open>gob\<close> reporting an error on one that ends
  early.\<close>

definition request_as :: "gob_codec \<Rightarrow> block_request \<Rightarrow> byte list \<Rightarrow> bool" where
  "request_as G r x = (gob_enc_request G r = Some x \<and> gob_dec_request G x = Some r \<and>
     (\<forall>n < length x. gob_dec_request G (take n x) = None))"

definition answer_as :: "gob_codec \<Rightarrow> block_answer \<Rightarrow> byte list \<Rightarrow> bool" where
  "answer_as G a x = (gob_enc_answer G a = Some x \<and> gob_dec_answer G x = Some a \<and>
     (\<forall>n < length x. gob_dec_answer G (take n x) = None))"

lemma exchange:
  assumes "getValidatorSyncAddress v = here" "here \<noteq> []"
    and "request_as G \<lparr>br_node = by_nodeID bs, br_known = known\<rparr> req" "length req \<le> min 4096 avail2"
    and "missing_blocks H ord2 known (sv_synchronizer ss) = Inr blocks"
    and "answer_as G \<lparr>ba_node = by_nodeID (sv_synchronizer ss), ba_blocks = blocks\<rparr> ans" "length ans \<le> min 40960 avail"
  shows "syncWithValidator H G (serving H G ord2 avail2 ss here) avail cl known v bs = add_blocks H cl known blocks bs"
proof -
  have "tcp_read 4096 avail2 req = req" "tcp_read 40960 avail ans = ans"
    using assms(4,7) by (simp_all add: tcp_read_def)
  with assms(1-3,5,6) show ?thesis
    by (simp add: syncWithValidator_def serving_def ssrv_handleConnection_def HandleSyncRequest_def request_as_def answer_as_def Let_def)
qed


text \<open>An answer of more than 40960 bytes is read once and cut off there, and the decoder rejects what
  is left: nothing is added.  A node that lacks more than fits into one answer never
  catches up.\<close>

theorem oversized_answer_lost:
  assumes "request_as G \<lparr>br_node = by_nodeID bs, br_known = known\<rparr> req"
    and "missing_blocks H ord2 known (sv_synchronizer ss) = Inr blocks"
    and "answer_as G \<lparr>ba_node = by_nodeID (sv_synchronizer ss), ba_blocks = blocks\<rparr> ans" "40960 < length ans"
  shows "syncWithValidator H G (serving H G ord2 avail2 ss here) avail cl known v bs = bs"
proof -
  let ?r = "\<lparr>br_node = by_nodeID bs, br_known = known\<rparr>"
  have "gob_dec_request G (tcp_read 4096 avail2 req) \<in> {None, Some ?r}"
  proof (cases "min 4096 avail2 < length req")
    case True
    then show ?thesis
      using assms(1) by (simp add: request_as_def tcp_read_def)
  next
    case False
    then have "tcp_read 4096 avail2 req = req"
      by (simp add: tcp_read_def not_less)
    then show ?thesis
      using assms(1) by (simp add: request_as_def)
  qed
  then have answer: "serving H G ord2 avail2 ss here addr req \<in> {None, Some ans}" for addr
    using assms(2,3) by (auto simp: serving_def ssrv_handleConnection_def HandleSyncRequest_def answer_as_def)
  have "gob_dec_answer G (tcp_read 40960 avail ans) = None"
    using assms(3,4) by (auto simp: tcp_read_def answer_as_def)
  then show ?thesis
    using assms(1) answer[of "getValidatorSyncAddress v"] by (auto simp: syncWithValidator_def request_as_def Let_def)
qed

text \<open>A synchroniser that is started again cannot be stopped: the second \<open>Stop\<close> closes a closed
  channel.\<close>

lemma bsync_second_stop:
  assumes "\<not> by_running bs" "\<not> by_stopClosed bs"
  shows "bsync_Stop (bsync_Start (projr (bsync_Stop (bsync_Start bs)))) = Inl ClosedChannel"
  using assms by (simp add: bsync_Stop_def bsync_Start_def)

section \<open>Witnesses\<close>

text \<open>Two nodes: one without blocks asks one that holds the sample blocks 0 and 1.\<close>

definition empty_side :: block_synchronizer where
  "empty_side = NewBlockSynchronizer ''validator2'' [''validator1'', ''validator2''] sample_heap 0 core_NewDAG 5"

definition full_side :: sync_server where
  "full_side = NewSyncServer (NewBlockSynchronizer ''validator1'' [''validator1'', ''validator2''] sample_heap 2 sample_core_dag 5) 4000"

definition ask :: block_request where
  "ask = \<lparr>br_node = ''validator2'', br_known = []\<rparr>"

definition told :: block_answer where
  "told = \<lparr>ba_node = ''validator1'', ba_blocks = map sample_heap [1, 0]\<rparr>"

text \<open>A codec for these two messages, the answer taking \<open>k\<close> bytes.\<close>

definition short_codec :: "nat \<Rightarrow> gob_codec" where
  "short_codec k = \<lparr>gob_enc_request = (\<lambda>_. Some [1]), gob_dec_request = (\<lambda>x. if x = [1] then Some ask else None),
     gob_enc_answer = (\<lambda>_. Some (replicate k 0)), gob_dec_answer = (\<lambda>x. if length x = k then Some told else None)\<rparr>"

lemma codec_facts: "request_as (short_codec k) ask [1]" "answer_as (short_codec k) told (replicate k 0)"
  by (auto simp: request_as_def answer_as_def short_codec_def)

lemma sides:
  "store_ok sample_digest empty_side" "store_ok sample_digest (sv_synchronizer full_side)"
  "range_order [] (cd_blocks (by_dag empty_side))" "range_order [sample_key 0, sample_key 1] (cd_blocks (by_dag (sv_synchronizer full_side)))"
  "known_hashes sample_digest [] empty_side = Inr []"
  "core_GetRecentBlocks sample_heap [sample_key 0, sample_key 1] sample_core_dag 50 = Inr [1, 0]"
proof -
  show "store_ok sample_digest empty_side" "range_order [] (cd_blocks (by_dag empty_side))" "known_hashes sample_digest [] empty_side = Inr []"
    by (simp_all add: store_ok_def empty_side_def NewBlockSynchronizer_def core_NewDAG_def hash_agrees_def range_order_def
        known_hashes_def core_GetRecentBlocks_def Let_def go_prefix_def)
  show "store_ok sample_digest (sv_synchronizer full_side)"
    using sample_core_inv by (auto simp: store_ok_def full_side_def NewSyncServer_def NewBlockSynchronizer_def core_inv_def
        sample_core_dag_def gget_def split: if_splits)
  show "range_order [sample_key 0, sample_key 1] (cd_blocks (by_dag (sv_synchronizer full_side)))"
    using sample_key_inj [of 1 0]
    by (auto simp: range_order_def sample_core_dag_def gkeys_def full_side_def NewSyncServer_def NewBlockSynchronizer_def)
  show "core_GetRecentBlocks sample_heap [sample_key 0, sample_key 1] sample_core_dag 50 = Inr [1, 0]"
    by code_simp
qed

lemma side_missing: "missing_blocks sample_digest [sample_key 0, sample_key 1] [] (sv_synchronizer full_side) = Inr (map sample_heap [1, 0])"
  using sides(6) by (simp add: missing_blocks_def full_side_def NewSyncServer_def NewBlockSynchronizer_def)


theorem oversized_answer_lost_witness:
  "syncWithValidator sample_digest (short_codec 40961) (serving sample_digest (short_codec 40961) [sample_key 0, sample_key 1] 9 full_side
      ''54.183.204.244:4000'') 50000 (\<lambda>r. []) [] ''validator1'' empty_side = empty_side"
proof -
  have names: "\<lparr>br_node = by_nodeID empty_side, br_known = []\<rparr> = ask"
    "\<lparr>ba_node = by_nodeID (sv_synchronizer full_side), ba_blocks = map sample_heap [1, 0]\<rparr> = told"
    by (simp_all add: ask_def told_def empty_side_def full_side_def NewSyncServer_def NewBlockSynchronizer_def)
  show ?thesis
    by (rule oversized_answer_lost[OF codec_facts(1)[of 40961, folded names(1)] side_missing codec_facts(2)[of 40961, folded names(2)]]) simp
qed

end
