(* ===== verification/Node_Server.thy ===== *)
theory Node_Server
  imports Engine_Properties Wave_Node Block_Sync Coordinator
begin

text \<open>
  The servers around the consensus engine: \<open>NetworkServer\<close> and the queries of
  \<open>internal/consensus/engine.go\<close>, the HTTP interface of \<open>internal/api/api.go\<close>, the node
  configuration of \<open>internal/config/config.go\<close> and the console of \<open>cmd/blazedag/cli.go\<close>.
  A proposal arrives as bytes: the codec is an argument, one \<open>Read\<close> takes at most 4096 of
  them, and the decoded block and its transactions are allocated at the references given.
\<close>

section \<open>The network server\<close>

definition split_port :: "string \<Rightarrow> string option" where
  "split_port hp = map_option (\<lambda>_. rev (takeWhile (\<lambda>c. c \<noteq> CHR '':'') (rev hp))) (split_host hp)"

record net_server =
  ns_port :: string
  ns_running :: bool

definition NewNetworkServer :: "consensus_engine \<Rightarrow> net_server" where
  "NewNetworkServer ce = \<lparr>ns_port = (case split_port (ec_listen_addr (ce_config ce)) of None \<Rightarrow> ''3000'' | Some p \<Rightarrow> p), ns_running = False\<rparr>"

text \<open>\<open>listen\<close> tells whether the port could be opened; \<open>None\<close> is its error.\<close>

definition ns_Start :: "bool \<Rightarrow> net_server \<Rightarrow> net_server option" where
  "ns_Start listen ns = (if ns_running ns then Some ns else if \<not> listen then None else Some (ns\<lparr>ns_running := True\<rparr>))"

definition ns_Stop :: "net_server \<Rightarrow> net_server" where
  "ns_Stop ns = (if \<not> ns_running ns then ns else ns\<lparr>ns_running := False\<rparr>)"

text \<open>A proposal as decoded: the pointers of the block and of its transactions are yet to be set.\<close>

record wire_proposal =
  wp_proposal :: proposal
  wp_block :: "wire_block option"
  wp_txs :: "transaction list"

definition alloc_txs :: "tref \<Rightarrow> transaction list \<Rightarrow> tx_heap \<Rightarrow> tx_heap" where
  "alloc_txs t txs th = (\<lambda>i. if t \<le> i \<and> i < t + length txs then txs ! (i - t) else th i)"

text \<open>The result is the world and whether the connection is answered with \<open>ACK\<close>.\<close>

definition ns_handleConnection ::
  "header_digest \<Rightarrow> (byte list \<Rightarrow> hash) \<Rightarrow> hash list \<Rightarrow> hash list \<Rightarrow> (byte list \<Rightarrow> wire_proposal option) \<Rightarrow> nat \<Rightarrow> byte list \<Rightarrow> bref \<Rightarrow> tref
     \<Rightarrow> engine_world \<Rightarrow> go_panic + engine_world \<times> bool" where
  "ns_handleConnection H sha ord ordm dec avail bytes r t w =
     (case dec (tcp_read 4096 avail bytes) of
        None \<Rightarrow> Inr (w, False)
      | Some wp \<Rightarrow> (case wp_block wp of
          None \<Rightarrow> Inr (w, False)
        | Some NoHeader \<Rightarrow> Inl NilDereference
        | Some (WithHeader blk) \<Rightarrow> (case blk_body blk of
            None \<Rightarrow> Inl NilDereference
          | Some body \<Rightarrow>
              if prop_proposer (wp_proposal wp) \<notin> set (ce_validators (ew_ce w)) then Inr (w, False)
              else let blk' = blk\<lparr>blk_body := Some (body\<lparr>body_txs := [t..<t + length (wp_txs wp)]\<rparr>)\<rparr>;
                       w1 = w\<lparr>ew_blocks := (ew_blocks w)(r := blk'), ew_txs := alloc_txs t (wp_txs wp) (ew_txs w)\<rparr>
                   in map_sum id (\<lambda>(w2, err). (w2, err = None))
                        (ce_HandleProposal H sha ord ordm ((wp_proposal wp)\<lparr>prop_block := r\<rparr>) w1))))"

text \<open>One turn of \<open>waveTimer\<close>: \<open>lastTime\<close> and \<open>lastWave\<close> are its local variables.\<close>

definition ce_waveTimer :: "int \<Rightarrow> int \<Rightarrow> int \<times> u64 \<Rightarrow> consensus_engine \<Rightarrow> go_panic + (int \<times> u64) \<times> consensus_engine" where
  "ce_waveTimer now now' local ce = (case (local, ce_wave ce) of
     ((lastTime, lastWave), Some w) \<Rightarrow>
       if now - lastTime \<ge> ec_wave_timeout (ce_config ce) \<and> ws_GetWaveNumber w = lastWave
       then map_sum id (\<lambda>ce'. ((now', lastWave + 1), ce'))
              (ce_selectLeader (ce\<lparr>ce_wave := Some (NewWaveState now (ws_GetWaveNumber w + 1)
                 (ec_wave_timeout (ce_config ce)) (ec_quorum_size (ce_config ce)))\<rparr>))
       else Inr (local, ce)
   | (_, None) \<Rightarrow> Inr (local, ce))"

definition ce_GetRecentBlocks :: "block_heap \<Rightarrow> hash list \<Rightarrow> consensus_engine \<Rightarrow> int \<Rightarrow> go_panic + bref list" where
  "ce_GetRecentBlocks hp ord ce cnt = core_GetRecentBlocks hp ord (ce_dag ce) cnt"

definition ce_GetBlock :: "consensus_engine \<Rightarrow> hash \<Rightarrow> dag_error + bref" where
  "ce_GetBlock ce h = core_GetBlock (ce_dag ce) h"

section \<open>The HTTP interface\<close>

text \<open>The hash that \<open>ComputeHash\<close> caches in a transaction while it is listed is left out.\<close>

text \<open>The server; \<open>as_routes\<close> are the patterns registered with its router, which panics on a
  pattern it already has.\<close>

record api_server =
  as_port :: int
  as_running :: bool
  as_routes :: "string list"

definition NewServer :: "int \<Rightarrow> api_server" where
  "NewServer port = \<lparr>as_port = port, as_running = False, as_routes = []\<rparr>"

definition api_patterns :: "string list" where
  "api_patterns = [''/'', ''/status'', ''/blocks'', ''/blocks/'', ''/dag/stats'', ''/consensus/wave'', ''/transactions'', ''/validators'',
     ''/debug/blockhash/'']"

fun registerRoutes :: "string list \<Rightarrow> api_server \<Rightarrow> go_panic + api_server" where
  "registerRoutes [] s = Inr s"
| "registerRoutes (p # ps) s = (if p \<in> set (as_routes s) then Inl DuplicatePattern
     else registerRoutes ps (s\<lparr>as_routes := as_routes s @ [p]\<rparr>))"

definition api_Start :: "api_server \<Rightarrow> go_panic + api_server" where
  "api_Start s = (if as_running s then Inr s
     else map_sum id (\<lambda>s'. s'\<lparr>as_running := True\<rparr>) (registerRoutes api_patterns s))"

text \<open>\<open>closes\<close> tells whether the HTTP server closes without an error.\<close>

definition api_Stop :: "bool \<Rightarrow> api_server \<Rightarrow> api_server option" where
  "api_Stop closes s = (if \<not> as_running s then Some s else if \<not> closes then None else Some (s\<lparr>as_running := False\<rparr>))"

datatype 'a answer = BadRequest | NotFound | Answer 'a

definition api_handleStatus :: "consensus_engine \<Rightarrow> address \<times> u64 \<times> address list \<times> string" where
  "api_handleStatus ce = (ce_node ce, ce_GetCurrentWave ce, ce_validators ce, ''running'')"

definition api_handleGetBlocks :: "header_digest \<Rightarrow> block_heap \<Rightarrow> hash list \<Rightarrow> string \<Rightarrow> consensus_engine \<Rightarrow> go_panic + block_view list answer" where
  "api_handleGetBlocks H hp ord countStr ce = (case count_param 10 countStr of
     None \<Rightarrow> Inr BadRequest
   | Some n \<Rightarrow> (case ce_GetRecentBlocks hp ord ce n of
       Inl p \<Rightarrow> Inl p
     | Inr blocks \<Rightarrow> map_sum id Answer (all_or_panic (map (\<lambda>b. block_view_of H (hp b)) blocks))))"

record tx_view =
  tv_hash :: string
  tv_from :: address
  tv_to :: address
  tv_value :: u64
  tv_nonce :: u64
  tv_gas_limit :: u64
  tv_gas_price :: u64
  tv_time :: int

definition tx_view_of :: "(byte list \<Rightarrow> hash) \<Rightarrow> transaction \<Rightarrow> tx_view" where
  "tx_view_of sha tx = \<lparr>tv_hash = hex_of (fst (tx_ComputeHash sha tx)), tv_from = tx_from tx, tv_to = tx_to tx, tv_value = tx_value tx,
     tv_nonce = tx_nonce tx, tv_gas_limit = tx_gas_limit tx, tv_gas_price = tx_gas_price tx, tv_time = tx_time tx\<rparr>"

record block_detail =
  bd_view :: block_view
  bd_parent :: string
  bd_state_root :: string
  bd_txs :: "tx_view list"

definition api_handleGetBlock ::
  "header_digest \<Rightarrow> (byte list \<Rightarrow> hash) \<Rightarrow> block_heap \<Rightarrow> tx_heap \<Rightarrow> string \<Rightarrow> consensus_engine \<Rightarrow> go_panic + block_detail answer" where
  "api_handleGetBlock H sha hp th hashStr ce =
     (if hashStr = [] then Inr BadRequest
      else case hex_DecodeString hashStr of
        None \<Rightarrow> Inr BadRequest
      | Some h \<Rightarrow> (case ce_GetBlock ce h of
          Inl e \<Rightarrow> Inr NotFound
        | Inr b \<Rightarrow> (case (blk_body (hp b), block_view_of H (hp b)) of
            (Some body, Inr v) \<Rightarrow> Inr (Answer \<lparr>bd_view = v, bd_parent = hex_of (hdr_parent (hd_of hp b)),
                bd_state_root = hex_of (hdr_state_root (hd_of hp b)), bd_txs = map (\<lambda>t. tx_view_of sha (th t)) (body_txs body)\<rparr>)
          | _ \<Rightarrow> Inl NilDereference)))"

definition api_handleDAGStats :: "block_heap \<Rightarrow> hash list \<Rightarrow> core_dag \<Rightarrow> go_panic + nat \<times> (address, nat) gomap" where
  "api_handleDAGStats hp ord d = map_sum id (\<lambda>blocks. (length blocks,
     fold (\<lambda>b m. let v = hdr_validator (hd_of hp b) in gput v (case gget m v of None \<Rightarrow> 1 | Some n \<Rightarrow> Suc n) m) blocks []))
     (core_GetRecentBlocks hp ord d 100)"

definition api_handleWaveInfo :: "consensus_engine \<Rightarrow> u64 \<times> string" where
  "api_handleWaveInfo ce = (ce_GetCurrentWave ce, ce_GetWaveStatus ce)"

record block_tx_view =
  bt_tx :: tx_view
  bt_block :: string
  bt_wave :: u64
  bt_round :: u64

definition block_tx_views :: "header_digest \<Rightarrow> (byte list \<Rightarrow> hash) \<Rightarrow> tx_heap \<Rightarrow> block \<Rightarrow> go_panic + block_tx_view list" where
  "block_tx_views H sha th b = (case blk_body b of
     None \<Rightarrow> Inl NilDereference
   | Some body \<Rightarrow> Inr (map (\<lambda>t. \<lparr>bt_tx = tx_view_of sha (th t), bt_block = hex_of (block_ComputeHash H b),
       bt_wave = hdr_wave (blk_header b), bt_round = hdr_round (blk_header b)\<rparr>) (body_txs body)))"

definition api_handleGetTransactions ::
  "header_digest \<Rightarrow> (byte list \<Rightarrow> hash) \<Rightarrow> block_heap \<Rightarrow> tx_heap \<Rightarrow> hash list \<Rightarrow> string \<Rightarrow> consensus_engine \<Rightarrow> go_panic + block_tx_view list answer" where
  "api_handleGetTransactions H sha hp th ord countStr ce = (case count_param 10 countStr of
     None \<Rightarrow> Inr BadRequest
   | Some n \<Rightarrow> (case ce_GetRecentBlocks hp ord ce n of
       Inl p \<Rightarrow> Inl p
     | Inr blocks \<Rightarrow> map_sum id (\<lambda>vs. Answer (concat vs)) (all_or_panic (map (\<lambda>b. block_tx_views H sha th (hp b)) blocks))))"

definition api_handleGetValidators :: "consensus_engine \<Rightarrow> address list \<times> nat" where
  "api_handleGetValidators ce = (ce_validators ce, length (ce_validators ce))"

definition api_handleDebugBlockHash :: "header_digest \<Rightarrow> block_heap \<Rightarrow> hash list \<Rightarrow> string \<Rightarrow> consensus_engine
    \<Rightarrow> go_panic + (hash \<times> address \<times> int \<times> u64 \<times> u64 \<times> u64) answer" where
  "api_handleDebugBlockHash H hp ord hashStr ce =
     (if hashStr = [] then Inr BadRequest
      else case hex_DecodeString hashStr of
        None \<Rightarrow> Inr BadRequest
      | Some h \<Rightarrow> (case ce_GetRecentBlocks hp ord ce 100 of
          Inl p \<Rightarrow> Inl p
        | Inr blocks \<Rightarrow> (case find (\<lambda>b. block_ComputeHash H (hp b) = h) blocks of
            None \<Rightarrow> Inr NotFound
          | Some b \<Rightarrow> Inr (Answer (h, hdr_validator (hd_of hp b), hdr_time (hd_of hp b), hdr_wave (hd_of hp b),
              hdr_round (hd_of hp b), hdr_height (hd_of hp b))))))"

section \<open>Configuration\<close>

record block_config =
  bc_MaxTransactionsPerBlock :: u64
  bc_MaxBlockSize :: u64
  bc_TransactionTimeoutMs :: u64
  bc_MemPoolSize :: u64
  bc_BatchSize :: u64
  bc_WorkerCount :: int
  bc_EnableOptimizations :: bool

record node_consensus_config =
  ncc_WaveTimeout :: int
  ncc_RoundDuration :: int
  ncc_ValidatorSet :: "address list"
  ncc_QuorumSize :: int
  ncc_ListenAddr :: address
  ncc_Seeds :: "address list"

record node_config =
  ndc_NodeID :: address
  ndc_Consensus :: node_consensus_config
  ndc_Block :: block_config

definition DefaultBlockConfig :: block_config where
  "DefaultBlockConfig = \<lparr>bc_MaxTransactionsPerBlock = 40000, bc_MaxBlockSize = 100 * 1024 * 1024, bc_TransactionTimeoutMs = 5000,
     bc_MemPoolSize = 200000, bc_BatchSize = 1000, bc_WorkerCount = 16, bc_EnableOptimizations = True\<rparr>"

datatype config_load_error = ReadFailed | ParseFailed

text \<open>\<open>file\<close> is what reading the file yields, \<open>parse\<close> the YAML decoder.\<close>

definition node_LoadConfig :: "(byte list \<Rightarrow> node_config option) \<Rightarrow> byte list option \<Rightarrow> config_load_error + node_config" where
  "node_LoadConfig parse file = (case file of
     None \<Rightarrow> Inl ReadFailed
   | Some bytes \<Rightarrow> (case parse bytes of
       None \<Rightarrow> Inl ParseFailed
     | Some c \<Rightarrow> Inr (if bc_MaxTransactionsPerBlock (ndc_Block c) = 0 then c\<lparr>ndc_Block := DefaultBlockConfig\<rparr> else c)))"

definition node_Validate :: "node_config \<Rightarrow> string option" where
  "node_Validate c =
     (if bc_MaxTransactionsPerBlock (ndc_Block c) = 0 then Some ''max_transactions_per_block must be greater than 0''
      else if bc_MaxBlockSize (ndc_Block c) = 0 then Some ''max_block_size must be greater than 0''
      else if bc_WorkerCount (ndc_Block c) \<le> 0 then Some ''worker_count must be greater than 0''
      else None)"

section \<open>The console\<close>

text \<open>The node of the console: \<open>initialize\<close> passes the listen address as the identifier.\<close>

definition cli_core_config :: "engine_config \<Rightarrow> core_config" where
  "cli_core_config c = \<lparr>cfg_block_interval = 1000000000, cfg_consensus_timeout = 5000000000, cfg_is_validator = True,
     cfg_node_id = ec_listen_addr c, cfg_max_txs = 0, cfg_max_block_size = 0, cfg_tx_timeout_ms = 0, cfg_mempool_size = 0,
     cfg_batch_size = 0, cfg_worker_count = 0, cfg_optimizations = False\<rparr>"

definition cli_initialize :: "bool \<Rightarrow> engine_config \<Rightarrow> coordinator option" where
  "cli_initialize storage_ok c = (if \<not> storage_ok then None else Some (NewBlazeDagCoordinator (cli_core_config c)))"

datatype cli_action =
    CliNothing | CliHelp | CliStatus | CliDag | CliConsensus | CliSystem | CliCommitted | CliExit | CliUnknown string

text \<open>One line: the first of its fields is the command.\<close>

definition cli_command :: "string \<Rightarrow> cli_action" where
  "cli_command line =
     (let input = trim_space line; command = takeWhile (\<lambda>c. \<not> is_space c) input
      in if input = [] then CliNothing
         else if command = ''help'' then CliHelp
         else if command = ''status'' then CliStatus
         else if command = ''dag'' then CliDag
         else if command = ''consensus'' then CliConsensus
         else if command = ''system'' then CliSystem
         else if command = ''committed'' then CliCommitted
         else if command = ''exit'' \<or> command = ''quit'' then CliExit
         else CliUnknown command)"

text \<open>\<open>run\<close>: the actions on the lines read, up to the first exit.\<close>

fun cli_run :: "string list \<Rightarrow> cli_action list" where
  "cli_run [] = []"
| "cli_run (line # rest) = (case cli_command line of CliExit \<Rightarrow> [CliExit] | a \<Rightarrow> a # cli_run rest)"

text \<open>The transactions \<open>handleCommittedTransactions\<close> shows, with their numbers.\<close>

definition cli_committed :: "coord_world \<Rightarrow> go_panic + (nat \<times> transaction) list" where
  "cli_committed w = (case GetCommittedTransactions w of
     Inl p \<Rightarrow> Inl p
   | Inr (txs, w') \<Rightarrow>
       let start = int (length txs) - 10; start = (if start < 0 then 0 else start)
       in Inr (map (\<lambda>i. (i + 1, cv_txs w' (txs ! i))) [nat start..<length txs]))"

section \<open>Lemmas\<close>

lemma HandleProposal_stores:
  fixes w :: engine_world
  assumes "ce_running (ew_ce w)" "\<not> ghas (ce_proposals (ew_ce w)) (prop_block_hash p)"
    and "prop_proposer p \<in> set (ce_validators (ew_ce w))"
    and "prop_block_hash p = block_ComputeHash H (ew_blocks w (prop_block p))"
    and "blk_body (ew_blocks w (prop_block p)) \<noteq> None"
    and "gwf (cd_blocks (ce_dag (ew_ce w)))" "int (glen (cd_blocks (ce_dag (ew_ce w)))) + 1 \<le> cd_maxBlocks (ce_dag (ew_ce w))"
  shows "\<exists>w' err. ce_HandleProposal H sha ord ordm p w = Inr (w', err) \<and>
    gkeys (cd_blocks (ce_dag (ew_ce w'))) = insert (prop_block_hash p) (gkeys (cd_blocks (ce_dag (ew_ce w))))"
proof -
  let ?d = "ce_dag (ew_ce w)" and ?h = "prop_block_hash p"
  let ?ce = "case core_AddBlock H (ew_blocks w) ord (prop_block p) ?d of Inl _ \<Rightarrow> ew_ce w | Inr d \<Rightarrow> set_dag d (ew_ce w)"
  have added: "gkeys (cd_blocks (ce_dag ?ce)) = insert ?h (gkeys (cd_blocks ?d))"
    using assms(4,6,7) by (auto simp: core_AddBlock_def Let_def ghas_gkeys glen_gput)
  have v: "ce_verifyProposal H (ew_blocks w) ord p (ew_ce w) =
      (?ce, ce_verifyBlockSignature (ce_validators (ew_ce w)) (hd_of (ew_blocks w) (prop_block p)))"
    using assms(3,4) by (simp add: ce_verifyProposal_def Let_def)
  show ?thesis
  proof (cases "ce_verifyBlockSignature (ce_validators (ew_ce w)) (hd_of (ew_blocks w) (prop_block p))")
    case (Some err)
    then show ?thesis
      using assms(1,2) v added by (simp add: ce_HandleProposal_def Let_def)
  next
    case None
    have dup: "\<not> missing (ce_dag ?ce) (block_ComputeHash H (ew_blocks w (prop_block p)))"
      using added assms(4) by (auto simp: missing_def core_GetBlock_def gkeys_iff split: option.splits)
    obtain body where body: "blk_body (ew_blocks w (prop_block p)) = Some body"
      using assms(5) by auto
    define w1 where "w1 = w\<lparr>ew_ce := ?ce\<lparr>ce_saved := (if ce_isWaveLeader ?ce (prop_proposer p) then Some (prop_block p) else ce_saved ?ce),
        ce_proposals := gput ?h p (ce_proposals ?ce)\<rparr>\<rparr>"
    have handle: "ce_HandleProposal H sha ord ordm p w = ce_processBlock H sha ord ordm (prop_block p) w1"
      using assms(1,2) v None by (simp add: ce_HandleProposal_def Let_def w1_def)
    have "\<exists>w' err. ce_processBlock H sha ord ordm (prop_block p) w1 = Inr (w', err) \<and> ce_dag (ew_ce w') = ce_dag ?ce"
    proof (cases "ce_verifyBlock (ew_ce w1) (ew_blocks w1 (prop_block p))")
      case None
      obtain th1 ex where ex: "existing_txs sha (GetMempoolTransactions ordm (ce_bp (ew_ce w1))) (ew_txs w1) = (th1, ex)"
        by fastforce
      obtain th2 mp where "fold (return_tx sha ex) (body_txs body) (th1, bp_mempool (ce_bp (ew_ce w1))) = (th2, mp)"
        by fastforce
      then show ?thesis
        using None body dup ex by (simp add: ce_processBlock_def w1_def Let_def commit_block_def mgr_CommitBlock_def case_prod_beta)
    qed (simp add: ce_processBlock_def w1_def)
    then show ?thesis
      using handle added by auto
  qed
qed

text \<open>What one read yields when the whole message fits and has arrived.\<close>

lemma tcp_read_all: "length bytes \<le> min n avail \<Longrightarrow> tcp_read n avail bytes = bytes"
  by (simp add: tcp_read_def)

lemma broadcast_message:
  assumes "ce_BroadcastBlock H now (Some b) w = ((w', None), msgs)" "(addr, p) \<in> set msgs"
  shows "prop_block_hash p = block_ComputeHash H (ew_blocks w' b)" "prop_proposer p = ce_node (ew_ce w)"
  using assms by (auto simp: ce_BroadcastBlock_def Let_def split: if_splits)

lemma recent_in_dag:
  assumes "core_GetRecentBlocks hp ord d n = Inr bs" "b \<in> set bs"
  shows "\<exists>h. gget (cd_blocks d) h = Some b"
proof -
  have "b \<in> set (range_vals ord (cd_blocks d))"
    using assms by (auto simp: core_GetRecentBlocks_def Let_def go_prefix_def split: if_splits dest: in_set_takeD)
  then show ?thesis
    by (auto simp: set_range_vals)
qed

text \<open>Patterns are registered in order, and a router that has one of them panics.\<close>

lemma registerRoutes_fresh:
  "distinct ps \<Longrightarrow> set ps \<inter> set (as_routes s) = {} \<Longrightarrow> registerRoutes ps s = Inr (s\<lparr>as_routes := as_routes s @ ps\<rparr>)"
  by (induction ps arbitrary: s) auto

lemma api_patterns_distinct: "distinct api_patterns"
  by code_simp

text \<open>A server that was stopped cannot be started again: its routes are still registered.\<close>

lemma api_restart_panics:
  assumes "api_Start (NewServer port) = Inr s" "api_Stop True s = Some s'"
  shows "api_Start s' = Inl DuplicatePattern"
  using assms registerRoutes_fresh[OF api_patterns_distinct, of "NewServer port"]
  by (auto simp: api_Start_def api_Stop_def NewServer_def api_patterns_def split: if_splits)

text \<open>A file without block settings is given the defaults, which are valid.\<close>

lemma loaded_defaults_valid:
  "parse bytes = Some c \<Longrightarrow> bc_MaxTransactionsPerBlock (ndc_Block c) = 0 \<Longrightarrow>
   \<exists>c'. node_LoadConfig parse (Some bytes) = Inr c' \<and> node_Validate c' = None"
  by (simp add: node_LoadConfig_def node_Validate_def DefaultBlockConfig_def)

section \<open>Properties\<close>


text \<open>A proposal of more than 4096 bytes is read once and cut off: when the decoder rejects what is
  left, the handler drops it without storing the block and without an acknowledgement, so a
  block of more than a few transactions never spreads this way.\<close>

theorem oversized_proposal_lost:
  assumes "4096 < length bytes" "\<And>n. n < length bytes \<Longrightarrow> dec (take n bytes) = None"
  shows "ns_handleConnection H sha ord ordm dec avail bytes r t w = Inr (w, False)"
  using assms(1) assms(2)[of "min 4096 avail"] by (simp add: ns_handleConnection_def tcp_read_def)


text \<open>The console passes the listen address as the identifier of its node, while the validators
  are fixed: unless that address is one of their names, the node leads no wave before
  $2^{63}$, and starting a wave schedules nothing but its timeout, so it never proposes.\<close>

theorem cli_node_never_leads:
  assumes "cli_initialize True c = Some node" "ec_listen_addr c \<notin> {''validator1'', ''validator2''}" "unat w < 2 ^ 63"
  shows "isCurrentWaveLeader (co_validators node) (co_validatorID node) w = Inr False \<and>
    map_sum id snd (core_startNewWave ((co_wave node)\<lparr>cw_currentWave := w\<rparr>)) = Inr [TaskTimeout w]"
proof -
  let ?vs = "[''validator1'', ''validator2'']"
  have node: "co_validators node = ?vs" "co_validatorID node = ec_listen_addr c"
    "cw_validators (co_wave node) = ?vs" "cw_validatorID (co_wave node) = ec_listen_addr c"
    using assms(1) by (auto simp: cli_initialize_def NewBlazeDagCoordinator_def cli_core_config_def core_NewWaveConsensus_def Let_def)
  have "rotation_leader ?vs w = Inr (?vs ! (unat w mod length ?vs))"
    by (rule rotation_leader_eq) (use assms(3) in simp_all)
  moreover have "?vs ! (unat w mod length ?vs) \<in> set ?vs"
    by (intro nth_mem) simp
  ultimately have "rotation_leader ?vs w \<in> {Inr ''validator1'', Inr ''validator2''}"
    by auto
  then show ?thesis
    using assms(2) by (auto simp: node isCurrentWaveLeader_def core_startNewWave_def core_isLeader_def Let_def)
qed

section \<open>Witnesses\<close>

text \<open>A sender with a stored block, and a receiver without blocks.\<close>

definition far_config :: engine_config where
  "far_config = sample_config\<lparr>ec_validator_set := [''v0'', ''validator2'']\<rparr>"

definition full_heap :: block_heap where
  "full_heap n = (sample_heap n)\<lparr>blk_body := Some \<lparr>body_txs = [], body_receipts = [], body_events = []\<rparr>\<rparr>"

lemma full_heap_hash [simp]: "block_ComputeHash H (full_heap n) = block_ComputeHash H (sample_heap n)"
  by (simp add: full_heap_def block_ComputeHash_def)

definition sender_world :: engine_world where
  "sender_world = \<lparr>ew_blocks = full_heap, ew_txs = priced_tx_heap,
     ew_ce = started_engine\<lparr>ce_config := far_config, ce_validators := [''v0'', ''validator2'']\<rparr>\<rparr>"

definition sent_block :: block where
  "sent_block = ce_signBlock 5 ''v0'' (full_heap 1)"

definition sent_proposal :: proposal where
  "sent_proposal = \<lparr>prop_id = sample_key 1, prop_block_hash = sample_key 1, prop_round = hdr_round (blk_header sent_block),
     prop_wave = hdr_wave (blk_header sent_block), prop_block = 1, prop_proposer = ''v0'', prop_time = 5,
     prop_status = ProposalStatusPending, prop_signature = zero_signature\<rparr>"

lemma sent_block_hash: "block_ComputeHash sample_digest sent_block = sample_key 1"
  by (simp add: sent_block_def ce_signBlock_def full_heap_def block_ComputeHash_def sample_digest_def sample_defs)

lemma sender_broadcasts:
  "\<exists>wa'. ce_BroadcastBlock sample_digest 5 (Some 1) sender_world = ((wa', None), [(''52.53.192.236:3000'', sent_proposal)])
     \<and> ew_blocks wa' 1 = sent_block"
  using sent_block_hash
  by (simp add: ce_BroadcastBlock_def Let_def sender_world_def far_config_def ce_getValidatorAddress_def sent_block_def sent_proposal_def)

definition sample_decoder :: "byte list \<Rightarrow> wire_proposal option" where
  "sample_decoder bytes = (if bytes = [1, 2, 3]
     then Some \<lparr>wp_proposal = sent_proposal, wp_block = Some (WithHeader sent_block), wp_txs = []\<rparr> else None)"


theorem oversized_proposal_lost_witness:
  "ns_handleConnection sample_digest id [] []
     (\<lambda>bs. if length bs = 5000 then Some \<lparr>wp_proposal = sent_proposal, wp_block = Some (WithHeader sent_block), wp_txs = []\<rparr> else None)
     5000 (replicate 5000 0) 7 7 (sample_engine_world sample_heap) = Inr (sample_engine_world sample_heap, False)"
  by (rule oversized_proposal_lost) simp_all


theorem cli_node_never_leads_witness:
  "\<exists>node. cli_initialize True (sample_config\<lparr>ec_listen_addr := '':3000''\<rparr>) = Some node
     \<and> isCurrentWaveLeader (co_validators node) (co_validatorID node) 4 = Inr False"
  using cli_node_never_leads[of "sample_config\<lparr>ec_listen_addr := '':3000''\<rparr>" _ 4] by (simp add: cli_initialize_def)

end
