(* ===== verification/Core_Loops.thy ===== *)
theory Core_Loops
  imports Core_Engine Engine_Properties
begin

text \<open>
  The loops that drive the engines: block creation of \<open>internal/core/engine.go\<close>, and the wave manager
  and wave controller of \<open>internal/consensus/wave_manager.go\<close> and \<open>wave_controller.go\<close>.  One turn of
  a loop is a function of what the tick, the timer and the operations it calls deliver; a
  goroutine that waits for ever is a state of its own.
\<close>

section \<open>The engine of package \<open>core\<close>\<close>

text \<open>\<open>blockChan\<close> holds 100 blocks and nothing receives from it; \<open>networkManager\<close> is a field that
  \<open>NewEngine\<close> leaves nil.\<close>

datatype loop_at = LoopWaiting | LoopSending bref | LoopReturned

record core_engine =
  en_config :: core_config
  en_world :: bp_world
  en_blockChan :: "bref list"
  en_stopClosed :: bool
  en_networkManager :: "unit option"
  en_loop :: loop_at

definition core_NewEngine :: "int \<Rightarrow> core_config \<Rightarrow> storage \<Rightarrow> core_dag option \<Rightarrow> block_heap \<Rightarrow> tx_heap \<Rightarrow> core_engine" where
  "core_NewEngine cpus c st g hp th = \<lparr>en_config = c,
     en_world = \<lparr>bw_blocks = hp, bw_txs = th, bw_bp = NewBlockProcessor cpus c types_NewState st (fst (GetDAG g))\<rparr>,
     en_blockChan = [], en_stopClosed = False, en_networkManager = None, en_loop = LoopWaiting\<rparr>"

text \<open>\<open>Stop\<close> closes \<open>stopChan\<close> and then calls a method on the network manager that reads its fields.\<close>

definition core_Stop :: "core_engine \<Rightarrow> go_panic + core_engine" where
  "core_Stop en = (if en_stopClosed en then Inl ClosedChannel
     else case en_networkManager en of None \<Rightarrow> Inl NilDereference | Some _ \<Rightarrow> Inr (en\<lparr>en_stopClosed := True\<rparr>))"

text \<open>One turn of \<open>blockCreationLoop\<close>: \<open>tick\<close> says which case of the \<open>select\<close> is taken when both are ready;
  \<open>ordp\<close> and \<open>ordf\<close> are the orders of the maps that the clean-up visits.\<close>

definition blockCreationLoop :: "bool \<Rightarrow> block_env \<Rightarrow> hash list \<Rightarrow> hash list \<Rightarrow> core_engine \<Rightarrow> core_engine" where
  "blockCreationLoop tick e ordp ordf en = (case en_loop en of
     LoopReturned \<Rightarrow> en
   | LoopSending b \<Rightarrow> if length (en_blockChan en) < 100 then en\<lparr>en_blockChan := en_blockChan en @ [b], en_loop := LoopWaiting\<rparr> else en
   | LoopWaiting \<Rightarrow>
       if \<not> tick then if en_stopClosed en then en\<lparr>en_loop := LoopReturned\<rparr> else en
       else if \<not> cfg_is_validator (en_config en) then en
       else let w = en_world en;
                state = types_CleanupOldBlocks ordp ordf (bp_state (bw_bp w))
            in (case bp_CreateBlock e (ts_current_round state) (ts_current_wave state) (w\<lparr>bw_bp := (bw_bp w)\<lparr>bp_state := state\<rparr>\<rparr>) of
                  (w1, Inl err) \<Rightarrow> en\<lparr>en_world := w1\<rparr>
                | (w1, Inr b) \<Rightarrow>
                    if length (en_blockChan en) < 100 then en\<lparr>en_world := w1, en_blockChan := en_blockChan en @ [b]\<rparr>
                    else en\<lparr>en_world := w1, en_loop := LoopSending b\<rparr>))"

section \<open>The wave manager and the wave controller\<close>

text \<open>The timer of both: nil, armed or not; \<open>Stop\<close> only disarms it.\<close>

record 'a waver =
  wvr_timer :: "bool option"
  wvr_running :: bool
  wvr_last :: u64
  wvr_world :: 'a

definition waver_Start :: "'a waver \<Rightarrow> 'a waver" where
  "waver_Start m = m\<lparr>wvr_timer := Some True, wvr_running := True\<rparr>"

definition waver_Stop :: "'a waver \<Rightarrow> 'a waver" where
  "waver_Stop m = m\<lparr>wvr_timer := map_option (\<lambda>_. False) (wvr_timer m)\<rparr>"

definition on_timer :: "int \<Rightarrow> engine_world waver \<Rightarrow> go_panic + engine_world waver" where
  "on_timer now m = map_sum id (\<lambda>ce. m\<lparr>wvr_timer := Some True, wvr_world := (wvr_world m)\<lparr>ew_ce := ce\<rparr>\<rparr>) (ce_ProcessTimeout now (ew_ce (wvr_world m)))"

text \<open>A turn of \<open>WaveManager.run\<close>; the timer fires only while it is armed.\<close>

definition manager_run :: "header_digest \<Rightarrow> block_env \<Rightarrow> hash list \<Rightarrow> int \<Rightarrow> bool \<Rightarrow> engine_world waver \<Rightarrow> go_panic + engine_world waver" where
  "manager_run H e ord now fired m =
     (if fired \<and> wvr_timer m = Some True then on_timer now m
      else map_sum id (\<lambda>(w, lastWave). m\<lparr>wvr_world := w, wvr_last := lastWave\<rparr>) (wm_poll H e ord now (wvr_world m, wvr_last m)))"

text \<open>A turn of \<open>WaveController.run\<close>: the same without the memory of the last wave.\<close>

definition controller_run :: "header_digest \<Rightarrow> block_env \<Rightarrow> hash list \<Rightarrow> int \<Rightarrow> bool \<Rightarrow> engine_world waver \<Rightarrow> go_panic + engine_world waver" where
  "controller_run H e ord now fired m =
     (if fired \<and> wvr_timer m = Some True then on_timer now m
      else if ce_IsLeader (ew_ce (wvr_world m))
      then map_sum id (\<lambda>((w, err), msgs). m\<lparr>wvr_world := w\<rparr>) (wc_handleWaveProposing H e ord now (wvr_world m))
      else Inr m)"

section \<open>Lemmas\<close>

inductive core_engine_reach :: "core_engine \<Rightarrow> bool" where
  er_new: "core_engine_reach (core_NewEngine cpus c st g hp th)"
| er_turn: "core_engine_reach en \<Longrightarrow> core_engine_reach (blockCreationLoop tick e ordp ordf en)"

lemma core_engine_reach_inv:
  "core_engine_reach en \<Longrightarrow> en_networkManager en = None \<and> \<not> en_stopClosed en \<and> length (en_blockChan en) \<le> 100 \<and>
     (\<forall>b. en_loop en = LoopSending b \<longrightarrow> length (en_blockChan en) = 100) \<and> en_loop en \<noteq> LoopReturned"
proof (induction rule: core_engine_reach.induct)
  case (er_turn en tick e ordp ordf)
  then show ?case
    unfolding blockCreationLoop_def by (auto simp: Let_def split: loop_at.splits prod.splits sum.splits)
qed (simp add: core_NewEngine_def)

text \<open>The engine cannot be stopped, and with 100 blocks in the channel its loop waits for ever.\<close>

lemma core_Stop_panics: "core_engine_reach en \<Longrightarrow> core_Stop en = Inl NilDereference"
  using core_engine_reach_inv[of en] by (simp add: core_Stop_def)

lemma full_channel_blocks:
  "core_engine_reach en \<Longrightarrow> en_loop en = LoopSending b \<Longrightarrow> blockCreationLoop tick e ordp ordf en = en"
  using core_engine_reach_inv[of en] by (simp add: blockCreationLoop_def)

text \<open>The loops of the manager and the controller do not look at \<open>Stop\<close>, but with the engine stopped
  their turns change nothing.\<close>

lemma manager_turn_after_stop:
  "manager_run H e ord now False (waver_Stop m) = map_sum id waver_Stop (manager_run H e ord now False m)"
  by (cases "wm_poll H e ord now (wvr_world m, wvr_last m)") (auto simp: manager_run_def waver_Stop_def)

lemma stopped_engine_idles:
  assumes "\<not> ce_running (ew_ce (wvr_world m))"
  shows "manager_run H e ord now False m = Inr m" "controller_run H e ord now False m = Inr m"
  using assms by (simp_all add: manager_run_def controller_run_def wm_poll_def ce_IsLeader_def)

text \<open>A wave is proposed by the manager only when it is later than the last it proposed.\<close>

lemma manager_last_increases:
  assumes "manager_run H e ord now fired m = Inr m'"
  shows "wvr_last m \<le> wvr_last m' \<and> (wvr_last m \<noteq> wvr_last m' \<longrightarrow>
    ce_IsLeader (ew_ce (wvr_world m)) \<and> wvr_last m' = ce_GetCurrentWave (ew_ce (wvr_world m)))"
  using assms
  by (auto simp: manager_run_def on_timer_def wm_poll_def map_sum_eq_Inr split: if_splits prod.splits)

end
