(* ===== verification/Commands.thy ===== *)
theory Commands
  imports Core_Loops Node_Server Integrated_Node
begin

text \<open>
  The commands under \<open>cmd/\<close>: what \<open>main\<close> of \<open>api\<close>, \<open>blazedag\<close> and \<open>integrated-node\<close> builds from its flags
  and its configuration file.  The parsed flags and the contents of the file are arguments.
\<close>

section \<open>\<open>cmd/api\<close>\<close>

datatype main_exit = ExitConfig load_error | ExitStorage | ExitEngine engine_error

definition api_block_config :: "engine_config \<Rightarrow> core_config" where
  "api_block_config c = \<lparr>cfg_block_interval = 1000000000, cfg_consensus_timeout = 5000000000, cfg_is_validator = True,
     cfg_node_id = ec_node_id c, cfg_max_txs = 0, cfg_max_block_size = 0, cfg_tx_timeout_ms = 0, cfg_mempool_size = 0,
     cfg_batch_size = 0, cfg_worker_count = 0, cfg_optimizations = False\<rparr>"

text \<open>\<open>store\<close> is what \<open>NewStorage\<close> finds in the data directory, or its failure; \<open>loaded\<close> are the blocks that
  \<open>Start\<close> of the engine reads back when it does; \<open>net_ok\<close> is the outcome of its listener.\<close>

definition api_main ::
  "(byte list \<Rightarrow> raw_config option) \<Rightarrow> (string \<Rightarrow> int option) \<Rightarrow> byte list option \<Rightarrow> storage option \<Rightarrow> int \<Rightarrow> core_dag option
     \<Rightarrow> header_digest \<Rightarrow> block_heap \<Rightarrow> int \<Rightarrow> (core_dag \<Rightarrow> hash list) \<Rightarrow> bref list \<Rightarrow> bool \<Rightarrow> go_panic + main_exit + consensus_engine" where
  "api_main yaml dur file store cpus g H hp now ordf loaded net_ok = (case LoadConfig yaml dur file of
     Inl e \<Rightarrow> Inr (Inl (ExitConfig e))
   | Inr cfg \<Rightarrow> (case store of
       None \<Rightarrow> Inr (Inl ExitStorage)
     | Some st \<Rightarrow>
         let blockProcessor = NewBlockProcessor cpus (api_block_config cfg) types_NewState st (fst (GetDAG g));
             engine = NewConsensusEngine cfg NewStateManager blockProcessor
         in (case ce_Start H hp now ordf loaded net_ok engine of
               Inl p \<Rightarrow> Inl p
             | Inr (ce, Some err) \<Rightarrow> Inr (Inl (ExitEngine err))
             | Inr (ce, None) \<Rightarrow> Inr (Inr ce))))"

section \<open>\<open>cmd/blazedag\<close>\<close>

text \<open>The actions of the console on its input lines, once the configuration and the storage are there.\<close>

definition blazedag_main ::
  "(byte list \<Rightarrow> raw_config option) \<Rightarrow> (string \<Rightarrow> int option) \<Rightarrow> byte list option \<Rightarrow> bool \<Rightarrow> string list \<Rightarrow> main_exit + coordinator \<times> cli_action list" where
  "blazedag_main yaml dur file storage_ok input = (case LoadConfig yaml dur file of
     Inl e \<Rightarrow> Inl (ExitConfig e)
   | Inr cfg \<Rightarrow> (case cli_initialize storage_ok cfg of
       None \<Rightarrow> Inl ExitStorage
     | Some node \<Rightarrow> Inr (node, cli_run input)))"

section \<open>\<open>cmd/integrated-node\<close>\<close>

definition integrated_main ::
  "('key \<Rightarrow> eaddress) \<Rightarrow> 'key option list \<Rightarrow> block_heap \<Rightarrow> tx_heap \<Rightarrow> address \<Rightarrow> string \<Rightarrow> string \<Rightarrow> string \<Rightarrow> string \<Rightarrow> string
     \<Rightarrow> int \<Rightarrow> int \<Rightarrow> int \<Rightarrow> string \<Rightarrow> node_error + 'key integrated_node" where
  "integrated_main addr_of gens hp th me dagListen waveListen evmRPCAddr dagPeersStr wavePeersStr roundDur waveDur chainID initialBalance =
     NewIntegratedNode addr_of gens hp th me dagListen waveListen evmRPCAddr (parse_peers dagPeersStr) (parse_peers wavePeersStr)
       roundDur waveDur chainID initialBalance"

section \<open>Properties\<close>

text \<open>(C40) A node started by \<open>cmd/api\<close> begins anew whatever its data directory holds: a state is made and the
  stored one is not read, so that it is in wave 1, round 0 and at height 0, the blocks on disk are
  not loaded into its DAG, and the leader is validator \<open>1 mod n\<close> of the configuration.\<close>

theorem api_restart_forgets:
  assumes "api_main yaml dur file (Some st) cpus g H hp now ordf loaded net_ok = Inr (Inr ce)" "ec_validator_set (ce_config ce) \<noteq> []"
  shows "ce_running ce \<and> ce_GetCurrentWave ce = 1 \<and> ce_round ce = 0 \<and> ce_height ce = 0 \<and> ce_dag ce = fst (GetDAG g) \<and>
    bp_storage (ce_bp ce) = st \<and>
    ce_leader ce = ec_validator_set (ce_config ce) ! (1 mod length (ec_validator_set (ce_config ce)))"
proof -
  obtain cfg where cfg: "LoadConfig yaml dur file = Inr cfg"
      and start: "ce_Start H hp now ordf loaded net_ok
        (NewConsensusEngine cfg NewStateManager (NewBlockProcessor cpus (api_block_config cfg) types_NewState st (fst (GetDAG g)))) = Inr (ce, None)"
    using assms(1) by (auto simp: api_main_def Let_def split: sum.splits option.splits)
  then have c: "ce_config ce = cfg"
    by (auto simp: ce_Start_def ce_selectLeader_def NewConsensusEngine_def NewBlockProcessor_def types_NewState_def map_sum_eq_Inr Let_def
        split: if_splits sum.splits)
  have "rotation_leader (ec_validator_set cfg) 1 = Inr (ec_validator_set cfg ! (1 mod length (ec_validator_set cfg)))"
    using assms(2) rotation_leader_eq[of "ec_validator_set cfg" 1] by (simp add: c)
  then show ?thesis
    using start assms(2) unfolding c
    by (auto simp: ce_Start_def ce_selectLeader_def NewConsensusEngine_def NewBlockProcessor_def types_NewState_def NewWaveState_def
        engine_selectLeader_def ce_GetCurrentWave_def Let_def split: if_splits)
qed

text \<open>A directory that has a block, and a configuration of two validators.\<close>

definition two_raw :: raw_config where
  "two_raw = \<lparr>raw_node_id = ''v0'', raw_wave_timeout = ''1s'', raw_round_duration = ''1s'', raw_validator_set = [''v0'', ''v1''],
     raw_quorum_size = 2, raw_listen_addr = ''host'', raw_seeds = [], raw_total_validators = 2\<rparr>"

definition old_disk :: storage where
  "old_disk = NewStorage\<lparr>st_blocks := Some [(''v0'', [(''00'', [1])])]\<rparr>"

lemma two_starts:
  "\<exists>ce. api_main (\<lambda>_. Some two_raw) (\<lambda>_. Some 1000) (Some []) (Some old_disk) 4 None sample_digest sample_heap 0 (\<lambda>_. []) [1] True = Inr (Inr ce)
    \<and> ec_validator_set (ce_config ce) = [''v0'', ''v1'']"
  by (simp add: api_main_def LoadConfig_def two_raw_def ce_Start_def ce_selectLeader_def NewConsensusEngine_def NewBlockProcessor_def
      types_NewState_def NewWaveState_def sample_leader Let_def)

theorem api_restart_forgets_witness:
  "\<exists>ce. api_main (\<lambda>_. Some two_raw) (\<lambda>_. Some 1000) (Some []) (Some old_disk) 4 None sample_digest sample_heap 0 (\<lambda>_. []) [1] True = Inr (Inr ce)
    \<and> ce_GetCurrentWave ce = 1 \<and> ce_height ce = 0 \<and> ce_dag ce = core_NewDAG \<and> ce_leader ce = ''v1''"
proof -
  obtain ce where ce: "api_main (\<lambda>_. Some two_raw) (\<lambda>_. Some 1000) (Some []) (Some old_disk) 4 None sample_digest sample_heap 0 (\<lambda>_. []) [1] True = Inr (Inr ce)"
      "ec_validator_set (ce_config ce) = [''v0'', ''v1'']"
    using two_starts by blast
  from api_restart_forgets[OF ce(1)] ce show ?thesis
    by (simp add: GetDAG_def)
qed

end
