(* ===== verification/Spec2Isabelle.thy ===== *)
theory Spec2Isabelle
  imports
    Core_Wave
    Wave_Network
    State_Manager
    State_Commitment
    Engine_Properties
    Evm_Gas
    Dag_Optimizer
    Service_Lifecycle
    Dag_Sync
    Core_Engine
    Coordinator
    Dag_Node
    Integrated_Node
    Network
    Node_Server
    Commands
begin

text \<open>
  A verification library for BlazeDAG, a Go node that builds a DAG of blocks in rounds and
  orders them in waves.  Paths below are under \<open>src/internal/\<close>, those of commands under \<open>src/\<close>.

  \<^bold>\<open>The program.\<close>  Blocks, references, votes, proposals and accounts are the structs of
  \<open>types/\<close>.  Two DAG stores keep blocks by hash (\<open>core/dag.go\<close>, \<open>dag/dag.go\<close>).  On the second
  one, \<open>dag/dag_transport.go\<close> and \<open>dag/dag_sync.go\<close> create and receive a block per round.  Above
  the DAG there are three consensus implementations: \<open>core/wave_consensus.go\<close> over the transport
  (joined with it and with a pool of transactions by \<open>core/blazedag_coordinator.go\<close>),
  \<open>consensus/wave_consensus.go\<close> over a DAG reader, and \<open>consensus/engine.go\<close> with its wave state,
  which creates blocks with \<open>core/block_processor.go\<close> from the mempool, stores them with
  \<open>storage/storage.go\<close> and commits them with \<open>state/manager.go\<close>.  Balances, code, transitions and
  commitments are the packages \<open>state/\<close> and, in Ethereum style, \<open>evm/\<close>.  Around these run the
  block synchroniser (\<open>consensus/block_sync.go\<close>, \<open>sync_server.go\<close>), a peer-to-peer layer
  (\<open>network/\<close>), the HTTP and JSON-RPC servers of \<open>api/\<close>, and the programs \<open>cmd/dagsync\<close>,
  \<open>cmd/wave\<close>, \<open>cmd/integrated-node\<close>, \<open>cmd/evm-node\<close>, \<open>cmd/api\<close> and \<open>cmd/blazedag\<close> that combine them.

  \<^bold>\<open>How it is modelled.\<close>  Structs are records, enumerations datatypes, \<open>uint64\<close> is \<open>64 word\<close>,
  \<open>int\<close> and \<open>big.Int\<close> are \<open>int\<close> with conversions from \<open>uint64\<close> written out, \<open>[]byte\<close> is a list of
  bytes.  A Go map is an association list with distinct keys; where the code ranges over a map
  the visiting order is an argument, and \<open>range_order\<close> says that it lists the keys.  Blocks and
  transactions that are shared and written through pointers live in heaps, functions from
  references.  Errors are values of a sum or option type, a panic or a self-deadlock is \<open>Inl\<close>
  of a \<open>go_panic\<close>.  Clock readings, random choices, results of system calls, SHA-256, Keccak-256,
  signatures, JSON and gob encodings and the virtual machine of go-ethereum are arguments;
  what a result needs of them is a hypothesis of the theorem.  A handler under its mutex is one
  step; goroutines are tasks or rules of a step relation, so interleavings are sequences of
  steps.  A connection is the list of messages it delivers; one \<open>Read\<close> into a buffer returns a
  prefix of the bytes sent, of any length up to the size of the buffer, and whether a dial, a
  write or a listener succeeds is an argument.  Log output is left out.

  \<^bold>\<open>Theories.\<close>
  \<^item> \<open>Go_Prelude\<close>: maps, ranges, \<open>sort.Slice\<close>, indexing, remainder and word lemmas;
    \<open>Go_Float\<close> and \<open>Float_Error\<close>: \<open>float64\<close> arithmetic and its rounding error.
  \<^item> \<open>Chain_Types\<close>: \<open>types/\<close>, with the byte texts that are hashed.
  \<^item> \<open>Leader\<close>: the leader rotation of four places (locale \<open>leader_rotation\<close>) and the vote
    thresholds (locales \<open>quorum_threshold\<close> and \<open>bft_threshold\<close>).
  \<^item> \<open>Core_Dag\<close>, \<open>Dag_Store\<close>: the two stores; locale \<open>block_index\<close> is what both promise.
  \<^item> \<open>Dag_Transport\<close>, \<open>Dag_Sync\<close>: rounds, references, causal history, received blocks, the
    generated and submitted transactions, waiting for peers, and the queries.
  \<^item> \<open>Core_Wave\<close>: \<open>core/wave_consensus.go\<close>; \<open>Coordinator\<close>: \<open>core/blazedag_coordinator.go\<close>.
  \<^item> \<open>Hex\<close>, \<open>Wave_Consensus\<close>, \<open>Wave_Safety\<close>, \<open>Wave_Properties\<close>: \<open>consensus/wave_consensus.go\<close>, the
    votes, finalisation and confirmation, its invariant and its results; \<open>Wave_Network\<close>: a network
    of such nodes, the abstract voting protocol (locale \<open>voting\<close>) and the simulation between them.
  \<^item> \<open>Dag_Optimizer\<close>: \<open>dag/optimization.go\<close>.
  \<^item> \<open>Account_State\<close>, \<open>State_Manager\<close>: \<open>state/state.go\<close> and \<open>state/manager.go\<close>; locale \<open>ledger\<close> is
    the abstract ledger that both transaction executions implement.
  \<^item> \<open>State_Transition\<close>, \<open>State_Commitment\<close>: \<open>state/transition.go\<close>, \<open>verifier.go\<close>, \<open>commitment.go\<close>.
  \<^item> \<open>Mempool\<close>, \<open>Storage\<close>, \<open>Block_Processor\<close>: \<open>core/block_processor.go\<close>, \<open>transaction/simple_pool.go\<close>
    and \<open>storage/storage.go\<close>; \<open>Core_Engine\<close>: \<open>core/consensus_engine.go\<close>, \<open>block_creator.go\<close>,
    \<open>state.go\<close>, \<open>dag_singleton.go\<close> and the state of \<open>engine.go\<close>.
  \<^item> \<open>Wave_State\<close>, \<open>Consensus_Engine\<close>, \<open>Engine_Properties\<close>: \<open>consensus/wave.go\<close>, \<open>config.go\<close>,
    \<open>finalization.go\<close>, \<open>safety.go\<close>, \<open>engine.go\<close>, \<open>wave_manager.go\<close> and \<open>wave_controller.go\<close>.
  \<^item> \<open>Evm_State\<close>, \<open>Evm_Exec\<close>, \<open>Evm_Gas\<close>: \<open>evm/account.go\<close>, \<open>state.go\<close>, \<open>execution.go\<close>, \<open>types.go\<close>,
    \<open>gas.go\<close> and \<open>storage.go\<close>; locale \<open>kv_store\<close> is what the three key-value stores promise.
  \<^item> \<open>Evm_Rpc\<close>: \<open>api/rpc.go\<close> and \<open>evm/keystore.go\<close>; \<open>Evm_Node\<close>: \<open>cmd/evm-node\<close>.
  \<^item> \<open>Wave_Node\<close>: the connections and pages of \<open>consensus/wave_consensus.go\<close> and \<open>cmd/wave\<close> with its
    remote DAG reader; \<open>Dag_Node\<close>: the same for \<open>dag/dag_sync.go\<close> and \<open>cmd/dagsync\<close>;
    \<open>Integrated_Node\<close>: \<open>cmd/integrated-node\<close>, with a step relation over DAG, waves and EVM.
  \<^item> \<open>Block_Sync\<close>: \<open>consensus/block_sync.go\<close>, \<open>sync_server.go\<close>; \<open>Network\<close>: \<open>network/\<close> and
    \<open>core/network_manager.go\<close>; \<open>Node_Server\<close>: the server of \<open>consensus/engine.go\<close>, \<open>api/api.go\<close>,
    \<open>config/config.go\<close> and \<open>cmd/blazedag/cli.go\<close>.
  \<^item> \<open>Service_Lifecycle\<close>: start and stop of the wave consensus, of the DAG synchronisation and of
    \<open>cmd/integrated-node\<close>, and the signals of \<open>cmd/wave\<close>; \<open>Core_Loops\<close>: the loops of \<open>core/engine.go\<close>,
    \<open>consensus/wave_manager.go\<close> and \<open>wave_controller.go\<close>; \<open>Commands\<close>: \<open>main\<close> of \<open>cmd/api\<close>,
    \<open>cmd/blazedag\<close> and \<open>cmd/integrated-node\<close>.

  \<^bold>\<open>What is shown.\<close>
  Consensus: a wave is finalised only by a majority of stored commit votes, and such a majority
  finalises it; two nodes can finalise different blocks only if a validator voted for both;
  votes are not authenticated, and one vote per wave is not enforced.  A network of nodes whose
  messages may be lost, repeated and reordered refines a voting protocol; with authenticated
  votes, fewer faulty validators than a majority and a correct leader, all correct nodes that
  finalise the wave finalise one block, which the leader proposed.  In the engine no vote is
  ever counted, rejected proposals leave their block behind, and signing moves a stored block
  away from its key.  In \<open>core\<close> the leader's own proposal is never accepted, a timeout never
  advances the wave, and all proposals share one list of votes.
  DAG: both stores keep an invariant and a bound; the causal history is exact and its traversal
  ends; a round block references exactly the known blocks of the round before.
  State: a transfer conserves the sum of balances, both executions refine one specification,
  nonces run on without gap, a failing block keeps a prefix; transitions verify after they were
  applied; commitments verify for storage and code changes only.
  Blocks and pools: block creation takes the best-paying pending transactions, a refusal strands
  them; saved blocks load again; the pool of the coordinator never drains; the block creator
  loses the mempool when a block cannot be saved.
  EVM: a transaction takes effect as a whole or not at all, transfers move the value, contract
  storage returns the last write, gas prices and estimates stay in their bounds.  Behind the
  JSON-RPC server the second of two queued transfers is lost with the receipt of the first, a
  full queue strands what it accepted, and \<open>evm-node\<close> never executes anything.
  Nodes together: a block sent by one DAG node is referenced in the next round of the node that
  receives it; a broadcast of the engine is stored by its receiver, and an exchange of the
  synchroniser brings exactly the missing blocks, as long as messages fit into one read and
  only then; blocks read over HTTP keep the hash they are voted on; listed blocks are found.
  An integrated node with peers finalises no wave, keeps block number one and resubmits pending
  transactions; nodes under a name outside the fixed validator set never lead.  The peer service
  stays within its limit, but discovery disconnects peers and its optimiser blocks.
  Running and stopping: a stopped service ends within two steps of each goroutine and leaves no
  connection open, alone and within an integrated node, whose transaction processor goes on;
  a DAG node stopped while it waits for peers never returns from \<open>Start\<close>; the wave node may lose
  one signal.  The core engine cannot be stopped, and a node of \<open>cmd/api\<close> forgets its state when it
  restarts.  Repeated optimisation of a wave reaches its targets in \<open>float64\<close> arithmetic.

  \<^bold>\<open>Bounds and termination.\<close>  All recursive definitions are total.  Traversals of references end
  because the hashes not yet visited decrease; loops over counters have their distance to the
  bound as measure; loops over maps follow the given visiting order.  The only counts of steps are
  the looks of \<open>waitForAllPeers\<close>, the ticks of \<open>runWaves\<close> and the rounds of the queue of
  \<open>Evm_Rpc\<close>; theorems hold for every number of them.  Runs of goroutines are sequences of any
  length; that a stopped service ends is a bound on them by the weight of its goroutines.  Numbers are kept at
  64 bits; theorems on leaders need the wave below \<open>2^63\<close>, where \<open>int(wave)\<close> becomes negative.

  \<^bold>\<open>Not modelled.\<close>  The transport of bytes itself (sockets, deadlines, \<open>gob\<close>, JSON and YAML codecs),
  which is an argument where a result depends on it; flag parsing and the texts the commands and
  the console print; \<open>cmd/combined\<close>, which does not compile (what it calls is modelled); the
  scores of \<open>network/service.go\<close>, which only order a list that is then not used; handlers with an
  empty body and accessors that return one field; map writes under a read lock, whose outcome
  Go leaves open.
\<close>

end
